theory Spec2Isabelle
  imports Complex_Main "HOL-Library.Sublist" "HOL-Library.Char_ord" "HOL-Library.List_Lexorder"
begin

section \<open>Python values and the runtime operations the rule engine relies on\<close>

text \<open>
  The rule engine of \<^verbatim>\<open>autotag/rule_engine.py\<close> works on JSON documents (rule
  configurations, guards, metadata) and on the attributes of a transaction. Both are
  dynamically typed, so the model has one type of Python values. Exceptions are values
  of \<open>exc\<close>; a computation that may raise has type \<open>exc + 'a\<close> with \<open>Inl\<close> the
  raised exception.
\<close>

datatype exc =
    TypeError | AttributeError | KeyError | ValueError | OverflowError
  | RegexError | CelError | JSONDecodeError | MultipleObjectsReturned
  | IntegrityError | ValidationError

text \<open>
  A Python float is an IEEE double. Its value is kept exactly (every finite double is a
  rational), so that comparisons are exact; rounding only happens in conversions, which
  are operations of the runtime (see \<open>pyrt\<close> below).
\<close>

datatype pyfloat = Finite rat | PosInf | NegInf | NaN

datatype pyval =
    PNone
  | PBool bool
  | PInt int
  | PFloat pyfloat
  | PStr string
  | PList "pyval list"
  | PDict "(string \<times> pyval) list"
  | PDecimal int nat
  | PDateTime string
  | PTuple "pyval list"
  | PObject string

text \<open>
  \<open>PDict\<close> lists the items of a dictionary in insertion order (a Python dict has no
  duplicate keys). \<open>PDecimal c e\<close> is the \<^verbatim>\<open>Decimal\<close> with value \<open>c / 10 ^ e\<close> and
  \<open>PDateTime\<close> a \<^verbatim>\<open>datetime\<close>, named by its ISO rendering. \<open>PObject\<close> is any
  other object (a bound method, a manager, a model instance), named by what it is: it is
  equal to itself only, it is truthy, and it is neither a number, a string nor a
  container. The last four only occur as attribute values of a transaction, never in
  a JSON document.
\<close>

fun fl_less :: "pyfloat \<Rightarrow> pyfloat \<Rightarrow> bool" where
  "fl_less NaN _ = False"
| "fl_less _ NaN = False"
| "fl_less (Finite a) (Finite b) = (a < b)"
| "fl_less (Finite _) PosInf = True"
| "fl_less NegInf (Finite _) = True"
| "fl_less NegInf PosInf = True"
| "fl_less _ _ = False"

fun fl_eq :: "pyfloat \<Rightarrow> pyfloat \<Rightarrow> bool" where
  "fl_eq NaN _ = False"
| "fl_eq _ NaN = False"
| "fl_eq a b = (a = b)"

text \<open>The numbers of Python: \<^verbatim>\<open>bool\<close> is a subclass of \<^verbatim>\<open>int\<close>.\<close>

fun num_of :: "pyval \<Rightarrow> pyfloat option" where
  "num_of (PBool b) = Some (Finite (if b then 1 else 0))"
| "num_of (PInt i) = Some (Finite (of_int i))"
| "num_of (PFloat f) = Some f"
| "num_of (PDecimal c e) = Some (Finite (of_int c / 10 ^ e))"
| "num_of _ = None"

definition num_eq :: "pyfloat \<Rightarrow> pyval \<Rightarrow> bool" where
  "num_eq x b = (case num_of b of Some y \<Rightarrow> fl_eq x y | None \<Rightarrow> False)"

text \<open>Python's \<^verbatim>\<open>==\<close> on these values.\<close>

fun py_eq :: "pyval \<Rightarrow> pyval \<Rightarrow> bool"
  and py_eq_list :: "pyval list \<Rightarrow> pyval list \<Rightarrow> bool"
  and py_eq_items :: "(string \<times> pyval) list \<Rightarrow> (string \<times> pyval) list \<Rightarrow> bool"
where
  "py_eq PNone b = (b = PNone)"
| "py_eq (PStr s) b = (b = PStr s)"
| "py_eq (PDateTime t) b = (b = PDateTime t)"
| "py_eq (PBool x) b = num_eq (Finite (if x then 1 else 0)) b"
| "py_eq (PInt i) b = num_eq (Finite (of_int i)) b"
| "py_eq (PFloat f) b = num_eq f b"
| "py_eq (PDecimal c e) b = num_eq (Finite (of_int c / 10 ^ e)) b"
| "py_eq (PList xs) b = (case b of PList ys \<Rightarrow> py_eq_list xs ys | _ \<Rightarrow> False)"
| "py_eq (PDict kvs) b =
     (case b of PDict kvs' \<Rightarrow> length kvs = length kvs' \<and> py_eq_items kvs kvs' | _ \<Rightarrow> False)"
| "py_eq (PTuple xs) b = (case b of PTuple ys \<Rightarrow> py_eq_list xs ys | _ \<Rightarrow> False)"
| "py_eq (PObject n) b = (b = PObject n)"
| "py_eq_list [] ys = (ys = [])"
| "py_eq_list (x # xs) ys =
     (case ys of [] \<Rightarrow> False | y # ys' \<Rightarrow> py_eq x y \<and> py_eq_list xs ys')"
| "py_eq_items [] d = True"
| "py_eq_items ((k, v) # kvs) d =
     ((case map_of d k of None \<Rightarrow> False | Some v' \<Rightarrow> py_eq v v') \<and> py_eq_items kvs d)"

text \<open>Truth value testing (\<^verbatim>\<open>if x:\<close>, \<^verbatim>\<open>not x\<close>).\<close>

fun py_truthy :: "pyval \<Rightarrow> bool" where
  "py_truthy PNone = False"
| "py_truthy (PBool b) = b"
| "py_truthy (PInt i) = (i \<noteq> 0)"
| "py_truthy (PFloat f) = (f \<noteq> Finite 0)"
| "py_truthy (PStr s) = (s \<noteq> [])"
| "py_truthy (PList xs) = (xs \<noteq> [])"
| "py_truthy (PDict kvs) = (kvs \<noteq> [])"
| "py_truthy (PDecimal c e) = (c \<noteq> 0)"
| "py_truthy (PDateTime t) = True"
| "py_truthy (PTuple xs) = (xs \<noteq> [])"
| "py_truthy (PObject n) = True"

text \<open>Strings: \<^verbatim>\<open>a in b\<close> is the substring test, \<^verbatim>\<open>a < b\<close> compares code points.\<close>

fun py_substring :: "string \<Rightarrow> string \<Rightarrow> bool" where
  "py_substring n [] = (n = [])"
| "py_substring n (c # cs) = (prefix n (c # cs) \<or> py_substring n cs)"

fun str_less :: "string \<Rightarrow> string \<Rightarrow> bool" where
  "str_less [] [] = False"
| "str_less [] (y # ys) = True"
| "str_less (x # xs) [] = False"
| "str_less (x # xs) (y # ys) =
     ((of_char x :: nat) < of_char y \<or> (x = y \<and> str_less xs ys))"

definition digit_char :: "nat \<Rightarrow> char" where
  "digit_char d = ''0123456789'' ! d"

function digits :: "nat \<Rightarrow> string" where
  "digits n = (if n < 10 then [digit_char n] else digits (n div 10) @ [digit_char (n mod 10)])"
  by pat_completeness auto
termination
  by (relation "measure id") auto

declare digits.simps [simp del]

definition str_of_int :: "int \<Rightarrow> string" where
  "str_of_int i = (if i < 0 then CHR ''-'' # digits (nat (- i)) else digits (nat i))"

text \<open>
  The operations of the Python runtime and of the libraries that are not written out
  here: conversions to and from floating point (they round), the rendering of floats,
  decimals, datetimes, containers and objects by \<^verbatim>\<open>str\<close>, the regular expression
  matcher of \<^verbatim>\<open>re\<close>, the text of an exception, \<^verbatim>\<open>str.strip\<close> (which removes the
  leading and trailing whitespace characters of Unicode), and the conversion
  \<^verbatim>\<open>celpy.json_to_cel\<close> of a document to the values of the CEL library, which raises
  on a document it cannot represent. Every definition below takes them as the parameter
  \<open>L\<close>; every theorem holds for all of them.
\<close>

record pyrt =
  float_of_int :: "int \<Rightarrow> exc + pyfloat"
  float_of_str :: "string \<Rightarrow> exc + pyfloat"
  float_of_decimal :: "int \<Rightarrow> nat \<Rightarrow> pyfloat"
  str_other :: "pyval \<Rightarrow> string"
  re_search :: "string \<Rightarrow> string \<Rightarrow> exc + bool"
  exc_str :: "exc \<Rightarrow> string"
  str_strip :: "string \<Rightarrow> string"
  json_to_cel :: "pyval \<Rightarrow> exc + pyval"

text \<open>\<^verbatim>\<open>str(v)\<close>.\<close>

definition py_str :: "pyrt \<Rightarrow> pyval \<Rightarrow> string" where
  "py_str L v =
     (case v of
        PNone \<Rightarrow> ''None''
      | PBool b \<Rightarrow> (if b then ''True'' else ''False'')
      | PInt i \<Rightarrow> str_of_int i
      | PStr s \<Rightarrow> s
      | _ \<Rightarrow> str_other L v)"

text \<open>\<^verbatim>\<open>float(v)\<close>: a \<^verbatim>\<open>TypeError\<close> for a value that is neither a number nor a string.\<close>

definition py_float :: "pyrt \<Rightarrow> pyval \<Rightarrow> exc + pyfloat" where
  "py_float L v =
     (case v of
        PBool b \<Rightarrow> Inr (Finite (if b then 1 else 0))
      | PInt i \<Rightarrow> float_of_int L i
      | PFloat f \<Rightarrow> Inr f
      | PStr s \<Rightarrow> float_of_str L s
      | PDecimal c e \<Rightarrow> Inr (float_of_decimal L c e)
      | _ \<Rightarrow> Inl TypeError)"

text \<open>\<^verbatim>\<open>k in v\<close> for a string \<open>k\<close>.\<close>

definition py_contains :: "string \<Rightarrow> pyval \<Rightarrow> exc + bool" where
  "py_contains k v =
     (case v of
        PStr s \<Rightarrow> Inr (py_substring k s)
      | PList xs \<Rightarrow> Inr (PStr k \<in> set xs)
      | PTuple xs \<Rightarrow> Inr (PStr k \<in> set xs)
      | PDict kvs \<Rightarrow> Inr (map_of kvs k \<noteq> None)
      | _ \<Rightarrow> Inl TypeError)"

text \<open>\<^verbatim>\<open>v.get(k, default)\<close>: only a dict has the method.\<close>

definition py_get :: "pyval \<Rightarrow> string \<Rightarrow> pyval \<Rightarrow> exc + pyval" where
  "py_get v k dflt =
     (case v of
        PDict kvs \<Rightarrow> Inr (case map_of kvs k of Some x \<Rightarrow> x | None \<Rightarrow> dflt)
      | _ \<Rightarrow> Inl AttributeError)"

text \<open>\<^verbatim>\<open>v[k]\<close> for a string \<open>k\<close>.\<close>

definition py_getitem :: "pyval \<Rightarrow> string \<Rightarrow> exc + pyval" where
  "py_getitem v k =
     (case v of
        PDict kvs \<Rightarrow> (case map_of kvs k of Some x \<Rightarrow> Inr x | None \<Rightarrow> Inl KeyError)
      | _ \<Rightarrow> Inl TypeError)"

text \<open>Iteration (\<^verbatim>\<open>for x in v\<close>): a dict yields its keys, a string its characters.\<close>

definition py_iter :: "pyval \<Rightarrow> exc + pyval list" where
  "py_iter v =
     (case v of
        PList xs \<Rightarrow> Inr xs
      | PTuple xs \<Rightarrow> Inr xs
      | PDict kvs \<Rightarrow> Inr (map (\<lambda>kv. PStr (fst kv)) kvs)
      | PStr s \<Rightarrow> Inr (map (\<lambda>c. PStr [c]) s)
      | _ \<Rightarrow> Inl TypeError)"

text \<open>\<^verbatim>\<open>v.items()\<close>.\<close>

definition py_items :: "pyval \<Rightarrow> exc + (string \<times> pyval) list" where
  "py_items v = (case v of PDict kvs \<Rightarrow> Inr kvs | _ \<Rightarrow> Inl AttributeError)"


section \<open>Transactions\<close>

text \<open>
  \<^verbatim>\<open>transactions/models.py\<close>: the columns of \<^verbatim>\<open>Transaction\<close>. \<open>produce_rate\<close> is a
  \<^verbatim>\<open>DecimalField\<close> (coefficient and number of decimal places); \<open>external_data\<close> is the
  metadata of the related \<^verbatim>\<open>ExternalData\<close> row when there is one. \<open>inherited\<close> is
  what the instance has from the base class of the ORM, which is outside the repository
  (methods such as \<^verbatim>\<open>save\<close>, the generated \<^verbatim>\<open>get_source_display\<close>, \<^verbatim>\<open>_state\<close>, and so
  on): the value of each such attribute, by name.
\<close>

record transaction =
  tx_id :: int
  product_code :: string
  produce_rate :: "int \<times> nat"
  ledger_type :: string
  source :: string
  jurisdiction :: string
  created_at :: string
  updated_at :: string
  external_data :: "pyval option"
  inherited :: "string \<Rightarrow> pyval option"

text \<open>The three class constants of \<^verbatim>\<open>Transaction\<close>: lists of pairs.\<close>

definition choices :: "(string \<times> string) list \<Rightarrow> pyval" where
  "choices kvs = PList (map (\<lambda>kv. PTuple [PStr (fst kv), PStr (snd kv)]) kvs)"

definition LEDGER_TYPE_CHOICES :: pyval where
  "LEDGER_TYPE_CHOICES = choices [(''debit'', ''Debit''), (''credit'', ''Credit'')]"

definition SOURCE_CHOICES :: pyval where
  "SOURCE_CHOICES =
     choices [(''online'', ''Online''), (''pos'', ''Point of Sale''), (''mobile'', ''Mobile App''),
              (''bank'', ''Bank Transfer''), (''cash'', ''Cash'')]"

definition JURISDICTION_CHOICES :: pyval where
  "JURISDICTION_CHOICES =
     choices [(''us'', ''United States''), (''ca'', ''Canada''), (''uk'', ''United Kingdom''),
              (''eu'', ''European Union''), (''au'', ''Australia'')]"

text \<open>
  The attributes that the two model files give a transaction: its columns and primary
  key, the class constants, and the two reverse relations \<^verbatim>\<open>external_data\<close> (of
  \<^verbatim>\<open>ExternalData.transaction\<close>) and \<^verbatim>\<open>tags\<close> (of \<^verbatim>\<open>TransactionTag.transaction\<close>).
\<close>

definition transaction_attributes :: "string list" where
  "transaction_attributes =
     [''product_code'', ''source'', ''jurisdiction'', ''ledger_type'', ''produce_rate'',
      ''created_at'', ''updated_at'', ''id'', ''pk'',
      ''LEDGER_TYPE_CHOICES'', ''SOURCE_CHOICES'', ''JURISDICTION_CHOICES'',
      ''external_data'', ''tags'']"

text \<open>
  \<^verbatim>\<open>getattr(transaction, name, None)\<close>. Reading \<^verbatim>\<open>external_data\<close> gives the related
  row (named here by the text of its \<^verbatim>\<open>__str__\<close>), and raises an
  \<^verbatim>\<open>AttributeError\<close> when there is none, which \<^verbatim>\<open>getattr\<close> turns into the default;
  \<^verbatim>\<open>tags\<close> is the manager of the related tag rows. A name that the instance does not
  have yields the default \<^verbatim>\<open>None\<close>.
\<close>

definition getattr_transaction :: "transaction \<Rightarrow> string \<Rightarrow> pyval" where
  "getattr_transaction tx name =
     (if name = ''product_code'' then PStr (product_code tx)
      else if name = ''source'' then PStr (source tx)
      else if name = ''jurisdiction'' then PStr (jurisdiction tx)
      else if name = ''ledger_type'' then PStr (ledger_type tx)
      else if name = ''produce_rate'' then PDecimal (fst (produce_rate tx)) (snd (produce_rate tx))
      else if name = ''created_at'' then PDateTime (created_at tx)
      else if name = ''updated_at'' then PDateTime (updated_at tx)
      else if name = ''id'' \<or> name = ''pk'' then PInt (tx_id tx)
      else if name = ''LEDGER_TYPE_CHOICES'' then LEDGER_TYPE_CHOICES
      else if name = ''SOURCE_CHOICES'' then SOURCE_CHOICES
      else if name = ''JURISDICTION_CHOICES'' then JURISDICTION_CHOICES
      else if name = ''external_data'' then
        (case external_data tx of
           Some m \<Rightarrow> PObject (''ExternalData for Transaction '' @ str_of_int (tx_id tx))
         | None \<Rightarrow> PNone)
      else if name = ''tags'' then PObject ''tags''
      else (case inherited tx name of Some v \<Rightarrow> v | None \<Rightarrow> PNone))"

text \<open>\<^verbatim>\<open>hasattr(transaction, name)\<close>.\<close>

definition hasattr_transaction :: "transaction \<Rightarrow> string \<Rightarrow> bool" where
  "hasattr_transaction tx name =
     (if name = ''external_data'' then external_data tx \<noteq> None
      else name \<in> set transaction_attributes \<or> inherited tx name \<noteq> None)"

section \<open>The conditional evaluator\<close>

text \<open>
  \<^verbatim>\<open>ConditionalRuleProcessor._get_field_value\<close>: \<^verbatim>\<open>field_path.startswith\<close> exists for
  a string only.
\<close>

definition get_field_value :: "transaction \<Rightarrow> pyval \<Rightarrow> pyval \<Rightarrow> exc + pyval" where
  "get_field_value tx metadata field_path =
     (case field_path of
        PStr p \<Rightarrow>
          (if prefix ''metadata.'' p then py_get metadata (drop 9 p) PNone
           else Inr (getattr_transaction tx p))
      | _ \<Rightarrow> Inl AttributeError)"

text \<open>
  The relational operators of \<^verbatim>\<open>_compare_values\<close>: the numeric comparison is tried
  first; a \<^verbatim>\<open>ValueError\<close> or \<^verbatim>\<open>TypeError\<close> of either conversion falls back to the
  comparison of the two \<^verbatim>\<open>str\<close> renderings; any other exception propagates.
\<close>

definition compare_numeric ::
  "pyrt \<Rightarrow> (pyfloat \<Rightarrow> pyfloat \<Rightarrow> bool) \<Rightarrow> (string \<Rightarrow> string \<Rightarrow> bool) \<Rightarrow> pyval \<Rightarrow> pyval \<Rightarrow> exc + bool"
where
  "compare_numeric L fcmp scmp actual expected =
     (let fallback = (\<lambda>e. if e = ValueError \<or> e = TypeError
                           then Inr (scmp (py_str L actual) (py_str L expected))
                           else Inl e)
      in case py_float L actual of
           Inl e \<Rightarrow> fallback e
         | Inr a \<Rightarrow>
             (case py_float L expected of
                Inl e \<Rightarrow> fallback e
              | Inr b \<Rightarrow> Inr (fcmp a b)))"

definition compare_values :: "pyrt \<Rightarrow> pyval \<Rightarrow> pyval \<Rightarrow> pyval \<Rightarrow> exc + bool" where
  "compare_values L actual operator expected =
     (if operator = PStr ''equals'' then Inr (py_eq actual expected)
      else if operator = PStr ''not_equals'' then Inr (\<not> py_eq actual expected)
      else if operator = PStr ''greater_than'' then
        compare_numeric L (\<lambda>a b. fl_less b a) (\<lambda>a b. str_less b a) actual expected
      else if operator = PStr ''less_than'' then
        compare_numeric L fl_less str_less actual expected
      else if operator = PStr ''contains'' then
        Inr (py_substring (py_str L expected) (py_str L actual))
      else if operator = PStr ''regex'' then
        re_search L (py_str L expected) (py_str L actual)
      else Inr False)"

text \<open>
  Nesting depth of a value; \<open>_evaluate_condition\<close> descends by one level in each
  recursive call, which is how it terminates.
\<close>

fun depth :: "pyval \<Rightarrow> nat" and depth_list :: "pyval list \<Rightarrow> nat"
  and depth_items :: "(string \<times> pyval) list \<Rightarrow> nat"
where
  "depth (PList xs) = Suc (depth_list xs)"
| "depth (PTuple xs) = Suc (depth_list xs)"
| "depth (PDict kvs) = Suc (depth_items kvs)"
| "depth _ = 0"
| "depth_list [] = 0"
| "depth_list (x # xs) = max (depth x) (depth_list xs)"
| "depth_items [] = 0"
| "depth_items (kv # kvs) = max (depth (snd kv)) (depth_items kvs)"

lemma depth_map_of: "map_of kvs k = Some v \<Longrightarrow> depth v \<le> depth_items kvs"
  by (induction kvs) (auto split: if_splits)

lemma depth_getitem: "py_getitem c k = Inr v \<Longrightarrow> depth v < depth c"
  by (cases c) (auto simp: py_getitem_def less_Suc_eq_le split: option.splits dest: depth_map_of)

lemma depth_list_keys: "depth_list (map (\<lambda>kv. PStr (fst kv)) kvs) = 0"
  by (induction kvs) auto

lemma depth_list_chars: "depth_list (map (\<lambda>c. PStr [c]) s) = 0"
  by (induction s) auto

lemma depth_iter: "py_iter v = Inr xs \<Longrightarrow> depth_list xs \<le> depth v"
  by (cases v) (auto simp: py_iter_def depth_list_keys depth_list_chars)

text \<open>
  \<^verbatim>\<open>ConditionalRuleProcessor._evaluate_condition\<close>. The list comprehension evaluates
  every sub-condition (there is no short circuit), so the first one that raises makes
  the whole evaluation raise.
\<close>

function evaluate_condition :: "pyrt \<Rightarrow> transaction \<Rightarrow> pyval \<Rightarrow> pyval \<Rightarrow> exc + bool"
  and evaluate_each :: "pyrt \<Rightarrow> transaction \<Rightarrow> pyval \<Rightarrow> pyval list \<Rightarrow> exc + bool list"
where
  "evaluate_condition L tx metadata condition =
     (case py_contains ''conditions'' condition of
        Inl e \<Rightarrow> Inl e
      | Inr True \<Rightarrow>
          (case py_get condition ''operator'' (PStr ''and'') of
             Inl e \<Rightarrow> Inl e
           | Inr operator \<Rightarrow>
               (case py_getitem condition ''conditions'' of
                  Inl e \<Rightarrow> Inl e
                | Inr subs \<Rightarrow>
                    (case py_iter subs of
                       Inl e \<Rightarrow> Inl e
                     | Inr sub_conditions \<Rightarrow>
                         (case evaluate_each L tx metadata sub_conditions of
                            Inl e \<Rightarrow> Inl e
                          | Inr results \<Rightarrow>
                              Inr (if operator = PStr ''and'' then list_all id results
                                   else if operator = PStr ''or'' then list_ex id results
                                   else False)))))
      | Inr False \<Rightarrow>
          (case py_get condition ''field'' PNone of
             Inl e \<Rightarrow> Inl e
           | Inr field \<Rightarrow>
               (case py_get condition ''operator'' PNone of
                  Inl e \<Rightarrow> Inl e
                | Inr operator \<Rightarrow>
                    (case py_get condition ''value'' PNone of
                       Inl e \<Rightarrow> Inl e
                     | Inr expected_value \<Rightarrow>
                         (case get_field_value tx metadata field of
                            Inl e \<Rightarrow> Inl e
                          | Inr actual_value \<Rightarrow>
                              compare_values L actual_value operator expected_value)))))"
| "evaluate_each L tx metadata [] = Inr []"
| "evaluate_each L tx metadata (c # cs) =
     (case evaluate_condition L tx metadata c of
        Inl e \<Rightarrow> Inl e
      | Inr r \<Rightarrow>
          (case evaluate_each L tx metadata cs of
             Inl e \<Rightarrow> Inl e
           | Inr rs \<Rightarrow> Inr (r # rs)))"
  by pat_completeness auto
termination
proof (relation "measures
    [\<lambda>a. case a of Inl (_, _, _, c) \<Rightarrow> depth c | Inr (_, _, _, cs) \<Rightarrow> depth_list cs,
     \<lambda>a. case a of Inl _ \<Rightarrow> 0 | Inr (_, _, _, cs) \<Rightarrow> Suc (length cs)]", goal_cases)
  case 1
  show ?case by simp
next
  case (2 L tx metadata condition b operator subs sub_conditions)
  from 2 have "depth_list sub_conditions < depth condition"
    using depth_getitem depth_iter by (meson le_less_trans)
  then show ?case by simp
next
  case (3 L tx metadata c cs)
  show ?case by (auto simp: max_def)
next
  case (4 L tx metadata c cs r)
  show ?case by (auto simp: max_def)
qed

declare evaluate_condition.simps [simp del]

text \<open>
  \<^verbatim>\<open>ConditionalRuleProcessor.process\<close>: the tag of the first clause that evaluates to
  true.
\<close>

fun first_true_clause :: "pyrt \<Rightarrow> transaction \<Rightarrow> pyval \<Rightarrow> pyval list \<Rightarrow> exc + pyval" where
  "first_true_clause L tx metadata [] = Inr PNone"
| "first_true_clause L tx metadata (condition # rest) =
     (case evaluate_condition L tx metadata condition of
        Inl e \<Rightarrow> Inl e
      | Inr True \<Rightarrow> py_get condition ''tag'' PNone
      | Inr False \<Rightarrow> first_true_clause L tx metadata rest)"

definition ConditionalRuleProcessor_process ::
  "pyrt \<Rightarrow> transaction \<Rightarrow> pyval \<Rightarrow> pyval \<Rightarrow> exc + pyval"
where
  "ConditionalRuleProcessor_process L tx metadata rule_config =
     (case py_get rule_config ''conditions'' (PList []) of
        Inl e \<Rightarrow> Inl e
      | Inr conditions \<Rightarrow>
          (case py_iter conditions of
             Inl e \<Rightarrow> Inl e
           | Inr clauses \<Rightarrow> first_true_clause L tx metadata clauses))"


section \<open>The simple processor\<close>

definition transaction_fields :: "string list" where
  "transaction_fields = [''product_code'', ''source'', ''jurisdiction'', ''ledger_type'']"

text \<open>
  The first loop of \<^verbatim>\<open>SimpleRuleProcessor.process\<close>, over \<^verbatim>\<open>mappings.items()\<close>.
  The four recognised fields are \<^verbatim>\<open>CharField\<close>s, so the value read is a string and
  it is truthy when it is not empty. \<open>Inr None\<close> means that the loop ended without a
  \<^verbatim>\<open>return\<close>.
\<close>

fun scan_transaction_fields :: "transaction \<Rightarrow> (string \<times> pyval) list \<Rightarrow> exc + pyval option" where
  "scan_transaction_fields tx [] = Inr None"
| "scan_transaction_fields tx ((field_name, field_mappings) # rest) =
     (if field_name \<in> set transaction_fields then
        (case getattr_transaction tx field_name of
           PStr transaction_value \<Rightarrow>
             (if transaction_value \<noteq> [] then
                (case py_contains transaction_value field_mappings of
                   Inl e \<Rightarrow> Inl e
                 | Inr True \<Rightarrow> map_sum id Some (py_getitem field_mappings transaction_value)
                 | Inr False \<Rightarrow> scan_transaction_fields tx rest)
              else scan_transaction_fields tx rest)
         | _ \<Rightarrow> scan_transaction_fields tx rest)
      else scan_transaction_fields tx rest)"

text \<open>The second loop, over the same items: the metadata fields.\<close>

fun scan_metadata_fields :: "pyrt \<Rightarrow> pyval \<Rightarrow> (string \<times> pyval) list \<Rightarrow> exc + pyval option" where
  "scan_metadata_fields L metadata [] = Inr None"
| "scan_metadata_fields L metadata ((field_name, field_mappings) # rest) =
     (if field_name \<in> set transaction_fields then scan_metadata_fields L metadata rest
      else
        (case py_contains field_name metadata of
           Inl e \<Rightarrow> Inl e
         | Inr True \<Rightarrow>
             (case py_getitem metadata field_name of
                Inl e \<Rightarrow> Inl e
              | Inr v \<Rightarrow>
                  (case py_contains (py_str L v) field_mappings of
                     Inl e \<Rightarrow> Inl e
                   | Inr True \<Rightarrow> map_sum id Some (py_getitem field_mappings (py_str L v))
                   | Inr False \<Rightarrow> scan_metadata_fields L metadata rest))
         | Inr False \<Rightarrow> scan_metadata_fields L metadata rest))"

definition SimpleRuleProcessor_process ::
  "pyrt \<Rightarrow> transaction \<Rightarrow> pyval \<Rightarrow> pyval \<Rightarrow> exc + pyval"
where
  "SimpleRuleProcessor_process L tx metadata rule_config =
     (case py_get rule_config ''mappings'' (PDict []) of
        Inl e \<Rightarrow> Inl e
      | Inr mappings \<Rightarrow>
          (case py_items mappings of
             Inl e \<Rightarrow> Inl e
           | Inr items \<Rightarrow>
               (case scan_transaction_fields tx items of
                  Inl e \<Rightarrow> Inl e
                | Inr (Some tag) \<Rightarrow> Inr tag
                | Inr None \<Rightarrow>
                    (case scan_metadata_fields L metadata items of
                       Inl e \<Rightarrow> Inl e
                     | Inr (Some tag) \<Rightarrow> Inr tag
                     | Inr None \<Rightarrow> Inr PNone))))"

section \<open>The CEL processor\<close>

text \<open>
  The CEL library is outside the repository. \<open>cel expression context\<close> stands for
  compiling the expression, running the program on the context and taking the host
  value of the result; \<open>Inl\<close> is any exception of these steps. The events sent to the
  security logger are listed in the order in which they are emitted.

  The context is built inside the \<^verbatim>\<open>try\<close> of \<^verbatim>\<open>CelRuleProcessor.process\<close>, from
  three conversions in this order; the first that raises ends the construction.
\<close>

type_synonym cel_evaluator = "pyval \<Rightarrow> pyval \<Rightarrow> exc + pyval"

datatype log_event =
  legacy_python_script | cel_evaluation_error | cel_expression_error | cel_condition_error

definition transaction_document :: "pyrt \<Rightarrow> transaction \<Rightarrow> pyval" where
  "transaction_document L tx =
     PDict [(''product_code'', PStr (product_code tx)),
            (''produce_rate'',
               PFloat (float_of_decimal L (fst (produce_rate tx)) (snd (produce_rate tx)))),
            (''ledger_type'', PStr (ledger_type tx)),
            (''source'', PStr (source tx)),
            (''jurisdiction'', PStr (jurisdiction tx)),
            (''created_at'', PStr (created_at tx))]"

definition cel_context :: "pyrt \<Rightarrow> string \<Rightarrow> transaction \<Rightarrow> pyval \<Rightarrow> exc + pyval" where
  "cel_context L now tx metadata =
     (case json_to_cel L (transaction_document L tx) of
        Inl e \<Rightarrow> Inl e
      | Inr t \<Rightarrow>
          (case json_to_cel L metadata of
             Inl e \<Rightarrow> Inl e
           | Inr m \<Rightarrow>
               (case json_to_cel L (PStr now) of
                  Inl e \<Rightarrow> Inl e
                | Inr n \<Rightarrow>
                    Inr (PDict [(''transaction'', t), (''metadata'', m), (''now'', n)]))))"

text \<open>\<^verbatim>\<open>CelRuleProcessor._evaluate_single_expression\<close>.\<close>

definition evaluate_single_expression ::
  "cel_evaluator \<Rightarrow> pyrt \<Rightarrow> pyval \<Rightarrow> pyval \<Rightarrow> (exc + pyval) \<times> log_event list"
where
  "evaluate_single_expression cel L rule_config context =
     (case py_get rule_config ''expression'' (PStr []) of
        Inl e \<Rightarrow> (Inl e, [])
      | Inr expression \<Rightarrow>
          (case py_get rule_config ''default_tag'' PNone of
             Inl e \<Rightarrow> (Inl e, [])
           | Inr default_tag \<Rightarrow>
               (if \<not> py_truthy expression then (Inr default_tag, [])
                else
                  (case cel expression context of
                     Inl e \<Rightarrow> (Inr default_tag, [cel_expression_error])
                   | Inr result_value \<Rightarrow>
                       (case result_value of
                          PStr r \<Rightarrow>
                            (if str_strip L r \<noteq> [] then (Inr result_value, [])
                             else (Inr default_tag, []))
                        | _ \<Rightarrow> (Inr default_tag, []))))))"

text \<open>\<^verbatim>\<open>CelRuleProcessor._evaluate_conditions\<close>: the loop, then the function.\<close>

fun first_cel_condition ::
  "cel_evaluator \<Rightarrow> pyval \<Rightarrow> pyval \<Rightarrow> pyval list \<Rightarrow> (exc + pyval) \<times> log_event list"
where
  "first_cel_condition cel context default_tag [] = (Inr default_tag, [])"
| "first_cel_condition cel context default_tag (condition # rest) =
     (case py_get condition ''expression'' (PStr []) of
        Inl e \<Rightarrow> (Inl e, [])
      | Inr expression \<Rightarrow>
          (case py_get condition ''tag'' PNone of
             Inl e \<Rightarrow> (Inl e, [])
           | Inr tag \<Rightarrow>
               (if \<not> py_truthy expression \<or> \<not> py_truthy tag
                then first_cel_condition cel context default_tag rest
                else
                  (case cel expression context of
                     Inl e \<Rightarrow>
                       (case first_cel_condition cel context default_tag rest of
                          (r, events) \<Rightarrow> (r, cel_condition_error # events))
                   | Inr result_value \<Rightarrow>
                       (if py_truthy result_value then (Inr tag, [])
                        else first_cel_condition cel context default_tag rest)))))"

definition evaluate_conditions ::
  "cel_evaluator \<Rightarrow> pyval \<Rightarrow> pyval \<Rightarrow> (exc + pyval) \<times> log_event list"
where
  "evaluate_conditions cel rule_config context =
     (case py_get rule_config ''conditions'' (PList []) of
        Inl e \<Rightarrow> (Inl e, [])
      | Inr conds \<Rightarrow>
          (case py_get rule_config ''default_tag'' PNone of
             Inl e \<Rightarrow> (Inl e, [])
           | Inr default_tag \<Rightarrow>
               (case py_iter conds of
                  Inl e \<Rightarrow> (Inl e, [])
                | Inr clauses \<Rightarrow> first_cel_condition cel context default_tag clauses)))"

text \<open>
  The legacy \<^verbatim>\<open>script\<close> branch of \<^verbatim>\<open>CelRuleProcessor.process\<close>. The refusal
  logs \<^verbatim>\<open>script_content[:100]\<close>, a slice, which only a string or a list has.
\<close>

definition legacy_script ::
  "cel_evaluator \<Rightarrow> pyrt \<Rightarrow> pyval \<Rightarrow> pyval \<Rightarrow> (exc + pyval) \<times> log_event list"
where
  "legacy_script cel L script_content context =
     (let refuse = (case script_content of
                      PStr _ \<Rightarrow> (Inr PNone, [legacy_python_script])
                    | PList _ \<Rightarrow> (Inr PNone, [legacy_python_script])
                    | _ \<Rightarrow> (Inl TypeError, []));
          accept = evaluate_single_expression cel L (PDict [(''expression'', script_content)]) context
      in if \<not> py_truthy script_content then refuse
         else
           (case py_contains ''def '' script_content of
              Inl e \<Rightarrow> (Inl e, [])
            | Inr True \<Rightarrow> refuse
            | Inr False \<Rightarrow>
                (case py_contains ''return'' script_content of
                   Inl e \<Rightarrow> (Inl e, [])
                 | Inr True \<Rightarrow> refuse
                 | Inr False \<Rightarrow> accept)))"

text \<open>
  \<^verbatim>\<open>CelRuleProcessor.process\<close>: the body of the \<^verbatim>\<open>try\<close> after the context is
  built, then the whole function with the handler, which turns every exception (of the
  construction of the context as well) into \<^verbatim>\<open>None\<close> and a \<open>cel_evaluation_error\<close>
  event.
\<close>

definition cel_process_body ::
  "cel_evaluator \<Rightarrow> pyrt \<Rightarrow> pyval \<Rightarrow> pyval \<Rightarrow> (exc + pyval) \<times> log_event list"
where
  "cel_process_body cel L rule_config context =
     (case py_contains ''expression'' rule_config of
        Inl e \<Rightarrow> (Inl e, [])
      | Inr True \<Rightarrow> evaluate_single_expression cel L rule_config context
      | Inr False \<Rightarrow>
          (case py_contains ''conditions'' rule_config of
             Inl e \<Rightarrow> (Inl e, [])
           | Inr True \<Rightarrow> evaluate_conditions cel rule_config context
           | Inr False \<Rightarrow>
               (case py_contains ''script'' rule_config of
                  Inl e \<Rightarrow> (Inl e, [])
                | Inr True \<Rightarrow>
                    (case py_get rule_config ''script'' (PStr []) of
                       Inl e \<Rightarrow> (Inl e, [])
                     | Inr script_content \<Rightarrow> legacy_script cel L script_content context)
                | Inr False \<Rightarrow> (Inr PNone, []))))"

definition CelRuleProcessor_process ::
  "cel_evaluator \<Rightarrow> pyrt \<Rightarrow> string \<Rightarrow> transaction \<Rightarrow> pyval \<Rightarrow> pyval \<Rightarrow> pyval \<times> log_event list"
where
  "CelRuleProcessor_process cel L now tx metadata rule_config =
     (case cel_context L now tx metadata of
        Inl e \<Rightarrow> (PNone, [cel_evaluation_error])
      | Inr context \<Rightarrow>
          (case cel_process_body cel L rule_config context of
             (Inl e, events) \<Rightarrow> (PNone, events @ [cel_evaluation_error])
           | (Inr tag, events) \<Rightarrow> (tag, events)))"

definition MLRuleProcessor_process :: "transaction \<Rightarrow> pyval \<Rightarrow> pyval \<Rightarrow> exc + pyval" where
  "MLRuleProcessor_process tx metadata rule_config = Inr PNone"


section \<open>The stored entities\<close>

text \<open>\<^verbatim>\<open>autotag/models.py\<close>. A foreign key is the primary key of the row it refers to.\<close>

record company =
  company_id :: int
  company_name :: string
  code :: string
  metadata_schema :: pyval
  company_is_active :: bool

record tagging_rule =
  rule_company :: int
  name :: string
  rule_type :: string
  priority :: int
  rule_config :: pyval
  conditions :: pyval
  is_active :: bool

record transaction_tag =
  tag_transaction_id :: int
  tag_company :: int
  tag_code :: pyval
  confidence_score :: rat
  is_manual_override :: bool
  processing_notes :: string
  tag_created_at :: string
  tag_updated_at :: string

record database =
  companies :: "company list"
  tagging_rules :: "tagging_rule list"
  transaction_tags :: "transaction_tag list"

section \<open>The engine\<close>

datatype processor = SimpleProc | ConditionalProc | CelProc | MLProc

text \<open>\<^verbatim>\<open>AutoTagEngine.PROCESSORS.get(rule.rule_type)\<close>.\<close>

definition PROCESSORS :: "string \<Rightarrow> processor option" where
  "PROCESSORS rule_type_name =
     (if rule_type_name = ''simple'' then Some SimpleProc
      else if rule_type_name = ''conditional'' then Some ConditionalProc
      else if rule_type_name = ''script'' then Some CelProc
      else if rule_type_name = ''cel'' then Some CelProc
      else if rule_type_name = ''ml'' then Some MLProc
      else None)"

text \<open>\<^verbatim>\<open>processor.process(transaction, metadata, rule.rule_config)\<close>.\<close>

definition processor_process ::
  "cel_evaluator \<Rightarrow> pyrt \<Rightarrow> string \<Rightarrow> processor \<Rightarrow> transaction \<Rightarrow> pyval \<Rightarrow> pyval \<Rightarrow> exc + pyval"
where
  "processor_process cel L now p tx metadata config =
     (case p of
        SimpleProc \<Rightarrow> SimpleRuleProcessor_process L tx metadata config
      | ConditionalProc \<Rightarrow> ConditionalRuleProcessor_process L tx metadata config
      | CelProc \<Rightarrow> Inr (fst (CelRuleProcessor_process cel L now tx metadata config))
      | MLProc \<Rightarrow> MLRuleProcessor_process tx metadata config)"

text \<open>\<^verbatim>\<open>AutoTagEngine._check_rule_conditions\<close>.\<close>

definition check_rule_conditions :: "pyrt \<Rightarrow> transaction \<Rightarrow> pyval \<Rightarrow> pyval \<Rightarrow> exc + bool" where
  "check_rule_conditions L tx metadata conds =
     (if \<not> py_truthy conds then Inr True else evaluate_condition L tx metadata conds)"

text \<open>
  The local variables of the loop of \<^verbatim>\<open>tag_transaction\<close>. \<open>consulted\<close> is not a
  variable of the source: it records, in order, each call of \<^verbatim>\<open>_check_rule_conditions\<close>
  that returned and each call of \<^verbatim>\<open>processor.process\<close>, by the name of the rule.
\<close>

datatype consult = GuardChecked string | ProcessorInvoked string

record engine_state =
  best_tag :: pyval
  best_confidence :: rat
  note_lines :: "string list"
  consulted :: "consult list"

definition initial_state :: engine_state where
  "initial_state = \<lparr> best_tag = PNone, best_confidence = 0, note_lines = [], consulted = [] \<rparr>"

definition note_matched :: "pyrt \<Rightarrow> tagging_rule \<Rightarrow> pyval \<Rightarrow> string" where
  "note_matched L rule tag = ''Rule '' @ [CHR 0x27] @ name rule @ [CHR 0x27] @ '' matched: '' @ py_str L tag"

definition note_failed :: "pyrt \<Rightarrow> tagging_rule \<Rightarrow> exc \<Rightarrow> string" where
  "note_failed L rule e = ''Rule '' @ [CHR 0x27] @ name rule @ [CHR 0x27] @ '' failed: '' @ exc_str L e"

text \<open>The stock confidence of a match and the threshold of the early exit.\<close>

definition stock_confidence :: rat where
  "stock_confidence = 1"

definition record_match :: "pyrt \<Rightarrow> tagging_rule \<Rightarrow> pyval \<Rightarrow> engine_state \<Rightarrow> engine_state" where
  "record_match L rule tag st =
     (let st' = (if stock_confidence > best_confidence st
                 then st\<lparr> best_tag := tag, best_confidence := stock_confidence \<rparr>
                 else st)
      in st'\<lparr> note_lines := note_lines st' @ [note_matched L rule tag] \<rparr>)"

text \<open>
  The \<^verbatim>\<open>for rule in rules\<close> loop. The guard is checked outside the \<^verbatim>\<open>try\<close>, so
  its exception leaves the loop and the function; an exception of the processor is
  caught and noted.
\<close>

fun run_rules ::
  "cel_evaluator \<Rightarrow> pyrt \<Rightarrow> string \<Rightarrow> transaction \<Rightarrow> pyval \<Rightarrow> engine_state \<Rightarrow> tagging_rule list
     \<Rightarrow> exc + engine_state"
where
  "run_rules cel L now tx metadata st [] = Inr st"
| "run_rules cel L now tx metadata st (rule # rules) =
     (case PROCESSORS (rule_type rule) of
        None \<Rightarrow> run_rules cel L now tx metadata st rules
      | Some p \<Rightarrow>
          (case check_rule_conditions L tx metadata (conditions rule) of
             Inl e \<Rightarrow> Inl e
           | Inr False \<Rightarrow>
               run_rules cel L now tx metadata
                 (st\<lparr> consulted := consulted st @ [GuardChecked (name rule)] \<rparr>) rules
           | Inr True \<Rightarrow>
               (let st1 = st\<lparr> consulted := consulted st @
                              [GuardChecked (name rule), ProcessorInvoked (name rule)] \<rparr>
                in case processor_process cel L now p tx metadata (rule_config rule) of
                     Inl e \<Rightarrow>
                       run_rules cel L now tx metadata
                         (st1\<lparr> note_lines := note_lines st1 @ [note_failed L rule e] \<rparr>) rules
                   | Inr tag \<Rightarrow>
                       (if py_truthy tag then
                          (if priority rule < 50 \<and> stock_confidence > 9 / 10
                           then Inr (record_match L rule tag st1)
                           else run_rules cel L now tx metadata (record_match L rule tag st1) rules)
                        else run_rules cel L now tx metadata st1 rules))))"

text \<open>
  \<^verbatim>\<open>company.tagging_rules.filter(is_active=True).order_by('priority')\<close>: the active
  rules of the company by ascending priority, rules of equal priority in stored order.
\<close>

definition active_rules :: "database \<Rightarrow> company \<Rightarrow> tagging_rule list" where
  "active_rules db c =
     sort_key priority
       (filter (\<lambda>r. rule_company r = company_id c \<and> is_active r) (tagging_rules db))"

text \<open>
  \<^verbatim>\<open>TransactionTag.objects.update_or_create(transaction=, company=, defaults=)\<close>: the
  row of the pair is updated, or created with the column defaults of the model; more
  than one row for the pair is \<^verbatim>\<open>MultipleObjectsReturned\<close>. \<open>tag_code\<close> is a
  \<^verbatim>\<open>CharField\<close>: the row holds \<^verbatim>\<open>str\<close> of the value assigned (the engine only
  assigns a truthy value, so never \<^verbatim>\<open>None\<close>).
\<close>

definition tag_rows :: "transaction_tag list \<Rightarrow> int \<Rightarrow> int \<Rightarrow> transaction_tag list" where
  "tag_rows rows t c = filter (\<lambda>r. tag_transaction_id r = t \<and> tag_company r = c) rows"

definition update_or_create_tag ::
  "pyrt \<Rightarrow> transaction_tag list \<Rightarrow> int \<Rightarrow> int \<Rightarrow> pyval \<Rightarrow> rat \<Rightarrow> string \<Rightarrow> string
     \<Rightarrow> exc + transaction_tag list"
where
  "update_or_create_tag L rows t c tag conf notes_text now =
     (case tag_rows rows t c of
        [] \<Rightarrow>
          Inr (rows @ [\<lparr> tag_transaction_id = t, tag_company = c,
                         tag_code = PStr (py_str L tag),
                         confidence_score = conf, is_manual_override = False,
                         processing_notes = notes_text, tag_created_at = now,
                         tag_updated_at = now \<rparr>])
      | [_] \<Rightarrow>
          Inr (map (\<lambda>r. if tag_transaction_id r = t \<and> tag_company r = c
                         then r\<lparr> tag_code := PStr (py_str L tag), confidence_score := conf,
                                processing_notes := notes_text, tag_updated_at := now \<rparr>
                         else r) rows)
      | _ \<Rightarrow> Inl MultipleObjectsReturned)"

text \<open>\<^verbatim>\<open>'\n'.join(processing_notes)\<close>.\<close>

fun join_lines :: "string list \<Rightarrow> string" where
  "join_lines [] = []"
| "join_lines [x] = x"
| "join_lines (x # y # ys) = x @ [CHR 0x0A] @ join_lines (y # ys)"

text \<open>
  The metadata of the call: \<^verbatim>\<open>transaction.external_data.metadata\<close> when
  \<^verbatim>\<open>hasattr(transaction, 'external_data')\<close>, else the empty dictionary.
\<close>

definition transaction_metadata :: "transaction \<Rightarrow> pyval" where
  "transaction_metadata tx = (case external_data tx of Some m \<Rightarrow> m | None \<Rightarrow> PDict [])"

text \<open>
  \<^verbatim>\<open>AutoTagEngine.tag_transaction\<close>. \<open>now\<close> is the reading of the clock
  (\<^verbatim>\<open>timezone.now()\<close>) during the call. The result is the returned tag
  (\<open>PNone\<close> for \<^verbatim>\<open>None\<close>) and the database after the call.
\<close>

definition tag_transaction ::
  "cel_evaluator \<Rightarrow> pyrt \<Rightarrow> string \<Rightarrow> database \<Rightarrow> transaction \<Rightarrow> company \<Rightarrow> exc + pyval \<times> database"
where
  "tag_transaction cel L now db tx c =
     (case run_rules cel L now tx (transaction_metadata tx) initial_state (active_rules db c) of
        Inl e \<Rightarrow> Inl e
      | Inr st \<Rightarrow>
          (if py_truthy (best_tag st) then
             (case update_or_create_tag L (transaction_tags db) (tx_id tx) (company_id c)
                     (best_tag st) (best_confidence st) (join_lines (note_lines st)) now of
                Inl e \<Rightarrow> Inl e
              | Inr rows \<Rightarrow> Inr (best_tag st, db\<lparr> transaction_tags := rows \<rparr>))
           else Inr (PNone, db)))"


section \<open>Rule validation, export and import\<close>

text \<open>
  \<^verbatim>\<open>autotag/utils.py\<close>. What these functions take from outside the repository: the
  \<^verbatim>\<open>json\<close> encoder (with its \<^verbatim>\<open>indent\<close> argument) and decoder, the syntax check of
  \<^verbatim>\<open>compile(script, '<string>', 'exec')\<close>, \<^verbatim>\<open>int()\<close> on a string or a float, and
  the integer column of the database: \<open>integer_column i\<close> is \<open>None\<close> when the column
  takes \<open>i\<close> and the error of the backend when \<open>i\<close> is outside its range.
\<close>

record hostlib =
  json_dumps :: "nat option \<Rightarrow> pyval \<Rightarrow> string"
  json_loads :: "string \<Rightarrow> exc + pyval"
  py_compiles :: "string \<Rightarrow> bool"
  int_of :: "pyval \<Rightarrow> exc + int"
  integer_column :: "int \<Rightarrow> exc option"

text \<open>\<^verbatim>\<open>validate_rule_config\<close>: returns \<^verbatim>\<open>True\<close> or raises \<^verbatim>\<open>ValueError\<close>.\<close>

definition validate_rule_config :: "hostlib \<Rightarrow> pyval \<Rightarrow> pyval \<Rightarrow> exc + bool" where
  "validate_rule_config J rtype config =
     (if rtype = PStr ''simple'' then
        (case py_contains ''mappings'' config of
           Inl e \<Rightarrow> Inl e
         | Inr False \<Rightarrow> Inl ValueError
         | Inr True \<Rightarrow>
             (case py_getitem config ''mappings'' of
                Inl e \<Rightarrow> Inl e
              | Inr m \<Rightarrow> (case m of PDict _ \<Rightarrow> Inr True | _ \<Rightarrow> Inl ValueError)))
      else if rtype = PStr ''conditional'' then
        (case py_contains ''conditions'' config of
           Inl e \<Rightarrow> Inl e
         | Inr False \<Rightarrow> Inl ValueError
         | Inr True \<Rightarrow>
             (case py_getitem config ''conditions'' of
                Inl e \<Rightarrow> Inl e
              | Inr m \<Rightarrow> (case m of PList _ \<Rightarrow> Inr True | _ \<Rightarrow> Inl ValueError)))
      else if rtype = PStr ''script'' then
        (case py_contains ''script'' config of
           Inl e \<Rightarrow> Inl e
         | Inr False \<Rightarrow> Inl ValueError
         | Inr True \<Rightarrow>
             (case py_getitem config ''script'' of
                Inl e \<Rightarrow> Inl e
              | Inr m \<Rightarrow>
                  (case m of
                     PStr src \<Rightarrow> (if py_compiles J src then Inr True else Inl ValueError)
                   | _ \<Rightarrow> Inl ValueError)))
      else if rtype = PStr ''ml'' then
        (case py_contains ''model_type'' config of
           Inl e \<Rightarrow> Inl e
         | Inr False \<Rightarrow> Inl ValueError
         | Inr True \<Rightarrow> Inr True)
      else Inr True)"

text \<open>The entry of one rule in the export envelope.\<close>

definition rule_data_of :: "tagging_rule \<Rightarrow> pyval" where
  "rule_data_of r =
     PDict [(''name'', PStr (name r)),
            (''rule_type'', PStr (rule_type r)),
            (''priority'', PInt (priority r)),
            (''rule_config'', rule_config r),
            (''conditions'', conditions r),
            (''is_active'', PBool (is_active r))]"

definition company_rules :: "database \<Rightarrow> company \<Rightarrow> tagging_rule list" where
  "company_rules db c = filter (\<lambda>r. rule_company r = company_id c) (tagging_rules db)"

text \<open>
  \<^verbatim>\<open>TaggingRule.objects.filter(company=company)\<close>: the query has no \<^verbatim>\<open>order_by\<close>,
  so the rows come in the \<^verbatim>\<open>Meta.ordering\<close> of the model, by company, priority and
  name (names compared by code points).
\<close>

definition exported_rules :: "database \<Rightarrow> company \<Rightarrow> tagging_rule list" where
  "exported_rules db c = sort_key priority (sort_key name (company_rules db c))"

text \<open>\<^verbatim>\<open>export_rules_to_json\<close>: the envelope that is serialised, then the function.\<close>

definition export_envelope :: "database \<Rightarrow> company \<Rightarrow> string \<Rightarrow> pyval" where
  "export_envelope db c company_code =
     PDict [(''company_code'', PStr company_code),
            (''company_name'', PStr (company_name c)),
            (''rules'', PList (map rule_data_of (exported_rules db c)))]"

definition export_rules_to_json :: "hostlib \<Rightarrow> database \<Rightarrow> string \<Rightarrow> string" where
  "export_rules_to_json J db company_code =
     (case find (\<lambda>c. code c = company_code) (companies db) of
        None \<Rightarrow> json_dumps J None (PDict [(''error'', PStr ''Company not found'')])
      | Some c \<Rightarrow> json_dumps J (Some 2) (export_envelope db c company_code))"

text \<open>
  What the ORM does with a value assigned to a column when the row is saved:
  a \<^verbatim>\<open>CharField\<close> takes \<^verbatim>\<open>str(v)\<close>, an \<^verbatim>\<open>IntegerField\<close> \<^verbatim>\<open>int(v)\<close> when the
  column takes that integer, a \<^verbatim>\<open>BooleanField\<close> the truth values and their usual
  spellings; \<^verbatim>\<open>None\<close> violates the \<^verbatim>\<open>NOT NULL\<close> constraint of each of these
  columns.
\<close>

definition char_field :: "pyrt \<Rightarrow> pyval \<Rightarrow> exc + string" where
  "char_field L v = (case v of PNone \<Rightarrow> Inl IntegrityError | _ \<Rightarrow> Inr (py_str L v))"

definition store_integer :: "hostlib \<Rightarrow> int \<Rightarrow> exc + int" where
  "store_integer J i = (case integer_column J i of None \<Rightarrow> Inr i | Some e \<Rightarrow> Inl e)"

definition integer_field :: "hostlib \<Rightarrow> pyval \<Rightarrow> exc + int" where
  "integer_field J v =
     (case v of
        PNone \<Rightarrow> Inl IntegrityError
      | PInt i \<Rightarrow> store_integer J i
      | PBool b \<Rightarrow> store_integer J (if b then 1 else 0)
      | PList _ \<Rightarrow> Inl TypeError
      | PDict _ \<Rightarrow> Inl TypeError
      | PDateTime _ \<Rightarrow> Inl TypeError
      | PTuple _ \<Rightarrow> Inl TypeError
      | PObject _ \<Rightarrow> Inl TypeError
      | _ \<Rightarrow> (case int_of J v of Inl e \<Rightarrow> Inl e | Inr i \<Rightarrow> store_integer J i))"

definition boolean_field :: "pyval \<Rightarrow> exc + bool" where
  "boolean_field v =
     (if v = PNone then Inl IntegrityError
      else if py_eq (PBool True) v then Inr True
      else if py_eq (PBool False) v then Inr False
      else if v \<in> {PStr ''t'', PStr ''True'', PStr ''1''} then Inr True
      else if v \<in> {PStr ''f'', PStr ''False'', PStr ''0''} then Inr False
      else Inl ValidationError)"

definition json_field :: "pyval \<Rightarrow> exc + pyval" where
  "json_field v = (case v of PNone \<Rightarrow> Inl IntegrityError | _ \<Rightarrow> Inr v)"

text \<open>
  \<^verbatim>\<open>TaggingRule.objects.update_or_create(company=, name=, defaults=)\<close>: the lookup
  by company and name first, then the save of the updated or new row.
\<close>

definition update_or_create_rule ::
  "pyrt \<Rightarrow> hostlib \<Rightarrow> tagging_rule list \<Rightarrow> int \<Rightarrow> pyval \<Rightarrow> pyval \<Rightarrow> pyval \<Rightarrow> pyval \<Rightarrow> pyval \<Rightarrow> pyval
     \<Rightarrow> exc + tagging_rule list"
where
  "update_or_create_rule L J rows cid name_v rtype_v priority_v config_v conds_v active_v =
     (case char_field L name_v of
        Inl e \<Rightarrow> Inl e
      | Inr nm \<Rightarrow>
          (case filter (\<lambda>r. rule_company r = cid \<and> name r = nm) rows of
             _ # _ # _ \<Rightarrow> Inl MultipleObjectsReturned
           | found \<Rightarrow>
               (case char_field L rtype_v of
                  Inl e \<Rightarrow> Inl e
                | Inr rt \<Rightarrow>
                    (case integer_field J priority_v of
                       Inl e \<Rightarrow> Inl e
                     | Inr pr \<Rightarrow>
                         (case json_field config_v of
                            Inl e \<Rightarrow> Inl e
                          | Inr cfg \<Rightarrow>
                              (case json_field conds_v of
                                 Inl e \<Rightarrow> Inl e
                               | Inr cds \<Rightarrow>
                                   (case boolean_field active_v of
                                      Inl e \<Rightarrow> Inl e
                                    | Inr act \<Rightarrow>
                                        (let row = \<lparr> rule_company = cid, name = nm, rule_type = rt,
                                                     priority = pr, rule_config = cfg,
                                                     conditions = cds, is_active = act \<rparr>
                                         in if found = [] then Inr (rows @ [row])
                                            else Inr (map (\<lambda>r. if rule_company r = cid \<and> name r = nm
                                                                then row else r) rows)))))))))"

text \<open>The body of the \<^verbatim>\<open>try\<close> in the loop of \<^verbatim>\<open>import_rules_from_json\<close>.\<close>

definition import_rule ::
  "pyrt \<Rightarrow> hostlib \<Rightarrow> company \<Rightarrow> tagging_rule list \<Rightarrow> pyval \<Rightarrow> exc + tagging_rule list"
where
  "import_rule L J c rows rule_data =
     (case py_getitem rule_data ''rule_type'' of
        Inl e \<Rightarrow> Inl e
      | Inr rtype_v \<Rightarrow>
          (case py_getitem rule_data ''rule_config'' of
             Inl e \<Rightarrow> Inl e
           | Inr config_v \<Rightarrow>
               (case validate_rule_config J rtype_v config_v of
                  Inl e \<Rightarrow> Inl e
                | Inr _ \<Rightarrow>
                    (case py_getitem rule_data ''name'' of
                       Inl e \<Rightarrow> Inl e
                     | Inr name_v \<Rightarrow>
                         (case py_get rule_data ''priority'' (PInt 100) of
                            Inl e \<Rightarrow> Inl e
                          | Inr priority_v \<Rightarrow>
                              (case py_get rule_data ''conditions'' (PDict []) of
                                 Inl e \<Rightarrow> Inl e
                               | Inr conds_v \<Rightarrow>
                                   (case py_get rule_data ''is_active'' (PBool True) of
                                      Inl e \<Rightarrow> Inl e
                                    | Inr active_v \<Rightarrow>
                                        update_or_create_rule L J rows (company_id c) name_v
                                          rtype_v priority_v config_v conds_v active_v)))))))"

definition import_error_message :: "pyrt \<Rightarrow> pyval \<Rightarrow> exc \<Rightarrow> string" where
  "import_error_message L name_v e =
     ''Error importing rule '' @ [CHR 0x27] @ py_str L name_v @ [CHR 0x27] @ '': '' @ exc_str L e"

text \<open>
  The loop: the rows of the rule table, the counter \<^verbatim>\<open>results['imported']\<close> and the
  list \<^verbatim>\<open>results['errors']\<close>. An exception raised by the handler itself leaves the
  function; the rows written so far stay written.
\<close>

fun import_loop ::
  "pyrt \<Rightarrow> hostlib \<Rightarrow> company \<Rightarrow> pyval list \<Rightarrow> tagging_rule list \<Rightarrow> nat \<Rightarrow> string list
     \<Rightarrow> (exc + nat \<times> string list) \<times> tagging_rule list"
where
  "import_loop L J c [] rows imported errors = (Inr (imported, errors), rows)"
| "import_loop L J c (rule_data # rest) rows imported errors =
     (case import_rule L J c rows rule_data of
        Inr rows' \<Rightarrow> import_loop L J c rest rows' (Suc imported) errors
      | Inl e \<Rightarrow>
          (case py_get rule_data ''name'' (PStr ''Unknown'') of
             Inl e' \<Rightarrow> (Inl e', rows)
           | Inr name_v \<Rightarrow>
               import_loop L J c rest rows imported (errors @ [import_error_message L name_v e])))"

definition error_result :: "string \<Rightarrow> pyval" where
  "error_result msg = PDict [(''error'', PStr msg)]"

text \<open>
  \<^verbatim>\<open>import_rules_from_json\<close>: the returned dictionary, or the exception that leaves
  the function, and the database after the call.
\<close>

definition import_rules_from_json ::
  "pyrt \<Rightarrow> hostlib \<Rightarrow> database \<Rightarrow> string \<Rightarrow> (exc + pyval) \<times> database"
where
  "import_rules_from_json L J db json_data =
     (case json_loads J json_data of
        Inl e \<Rightarrow>
          (if e = JSONDecodeError
           then (Inr (error_result (''Invalid JSON: '' @ exc_str L e)), db)
           else (Inl e, db))
      | Inr data \<Rightarrow>
          (case py_get data ''company_code'' PNone of
             Inl e \<Rightarrow> (Inl e, db)
           | Inr company_code \<Rightarrow>
               (if \<not> py_truthy company_code
                then (Inr (error_result ''Missing company_code in JSON''), db)
                else
                  (case find (\<lambda>c. code c = py_str L company_code) (companies db) of
                     None \<Rightarrow>
                       (Inr (error_result (''Company with code '' @ [CHR 0x27] @
                               py_str L company_code @ [CHR 0x27] @ '' not found'')), db)
                   | Some c \<Rightarrow>
                       (case py_get data ''rules'' (PList []) of
                          Inl e \<Rightarrow> (Inl e, db)
                        | Inr rules \<Rightarrow>
                            (case py_iter rules of
                               Inl e \<Rightarrow> (Inl e, db)
                             | Inr rule_list \<Rightarrow>
                                 (case import_loop L J c rule_list (tagging_rules db) 0 [] of
                                    (Inl e, rows) \<Rightarrow> (Inl e, db\<lparr> tagging_rules := rows \<rparr>)
                                  | (Inr (imported, errors), rows) \<Rightarrow>
                                      (Inr (PDict [(''imported'', PInt (int imported)),
                                                   (''errors'', PList (map PStr errors))]),
                                       db\<lparr> tagging_rules := rows \<rparr>))))))))"

section \<open>Reading the specification\<close>

text \<open>
  The definitions of this section are not translations of source functions: they state
  what the specification says, so that the theorems can compare it with the code.
\<close>

text \<open>
  A rule fires when it has a processor, its guard passes and its processor returns a
  truthy tag; \<open>rule_result\<close> is that tag.
\<close>

definition rule_result ::
  "cel_evaluator \<Rightarrow> pyrt \<Rightarrow> string \<Rightarrow> transaction \<Rightarrow> pyval \<Rightarrow> tagging_rule \<Rightarrow> pyval option"
where
  "rule_result cel L now tx metadata rule =
     (case PROCESSORS (rule_type rule) of
        None \<Rightarrow> None
      | Some p \<Rightarrow>
          (case check_rule_conditions L tx metadata (conditions rule) of
             Inr True \<Rightarrow>
               (case processor_process cel L now p tx metadata (rule_config rule) of
                  Inr tag \<Rightarrow> (if py_truthy tag then Some tag else None)
                | Inl _ \<Rightarrow> None)
           | _ \<Rightarrow> None))"

fun first_match :: "(tagging_rule \<Rightarrow> pyval option) \<Rightarrow> tagging_rule list \<Rightarrow> pyval option" where
  "first_match f [] = None"
| "first_match f (r # rs) = (case f r of Some tag \<Rightarrow> Some tag | None \<Rightarrow> first_match f rs)"

definition first_match_tag ::
  "cel_evaluator \<Rightarrow> pyrt \<Rightarrow> string \<Rightarrow> transaction \<Rightarrow> tagging_rule list \<Rightarrow> pyval"
where
  "first_match_tag cel L now tx rules =
     (case first_match (rule_result cel L now tx (transaction_metadata tx)) rules of
        Some tag \<Rightarrow> tag | None \<Rightarrow> PNone)"

definition guard_returns :: "pyrt \<Rightarrow> transaction \<Rightarrow> tagging_rule \<Rightarrow> bool" where
  "guard_returns L tx rule =
     (case check_rule_conditions L tx (transaction_metadata tx) (conditions rule) of
        Inl _ \<Rightarrow> False | Inr _ \<Rightarrow> True)"

text \<open>
  A field path names a missing field when it is \<^verbatim>\<open>metadata.<name>\<close> and the
  metadata map has no such key, or when it is any other name and the transaction has no
  attribute of that name.
\<close>

definition missing_field :: "transaction \<Rightarrow> pyval \<Rightarrow> string \<Rightarrow> bool" where
  "missing_field tx metadata p =
     (if prefix ''metadata.'' p
      then (case metadata of PDict kvs \<Rightarrow> map_of kvs (drop 9 p) = None | _ \<Rightarrow> False)
      else \<not> hasattr_transaction tx p)"

text \<open>
  The simple processor as the specification words it: the mappings are split into those
  on a recognised transaction field and the others; the first partition is examined
  first, each in declared order, and the first mapping that matches (or raises) decides.
  \<open>tx_mapping_lookup\<close> and \<open>md_mapping_lookup\<close> examine one mapping.
\<close>

definition is_transaction_field :: "string \<times> pyval \<Rightarrow> bool" where
  "is_transaction_field item = (fst item \<in> set transaction_fields)"

definition tx_mapping_lookup :: "transaction \<Rightarrow> string \<times> pyval \<Rightarrow> exc + pyval option" where
  "tx_mapping_lookup tx item =
     (case getattr_transaction tx (fst item) of
        PStr v \<Rightarrow>
          (if v = [] then Inr None
           else (case py_contains v (snd item) of
                   Inl e \<Rightarrow> Inl e
                 | Inr True \<Rightarrow> map_sum id Some (py_getitem (snd item) v)
                 | Inr False \<Rightarrow> Inr None))
      | _ \<Rightarrow> Inr None)"

definition md_mapping_lookup :: "pyrt \<Rightarrow> pyval \<Rightarrow> string \<times> pyval \<Rightarrow> exc + pyval option" where
  "md_mapping_lookup L metadata item =
     (case py_contains (fst item) metadata of
        Inl e \<Rightarrow> Inl e
      | Inr False \<Rightarrow> Inr None
      | Inr True \<Rightarrow>
          (case py_getitem metadata (fst item) of
             Inl e \<Rightarrow> Inl e
           | Inr v \<Rightarrow>
               (case py_contains (py_str L v) (snd item) of
                  Inl e \<Rightarrow> Inl e
                | Inr True \<Rightarrow> map_sum id Some (py_getitem (snd item) (py_str L v))
                | Inr False \<Rightarrow> Inr None)))"

fun first_outcome :: "(exc + pyval option) list \<Rightarrow> exc + pyval option" where
  "first_outcome [] = Inr None"
| "first_outcome (Inr None # rest) = first_outcome rest"
| "first_outcome (r # rest) = r"

definition partitioned_lookup ::
  "pyrt \<Rightarrow> transaction \<Rightarrow> pyval \<Rightarrow> (string \<times> pyval) list \<Rightarrow> exc + pyval option"
where
  "partitioned_lookup L tx metadata items =
     first_outcome
       (map (tx_mapping_lookup tx) (filter is_transaction_field items) @
        map (md_mapping_lookup L metadata) (filter (\<lambda>item. \<not> is_transaction_field item) items))"


text \<open>
  The rule a consultation belongs to, and one iteration of the loop of
  \<open>run_rules\<close> on its own: the state after the iteration and whether the loop stops
  there (the \<^verbatim>\<open>break\<close>).
\<close>

fun consult_name :: "consult \<Rightarrow> string" where
  "consult_name (GuardChecked n) = n"
| "consult_name (ProcessorInvoked n) = n"

definition rule_step ::
  "cel_evaluator \<Rightarrow> pyrt \<Rightarrow> string \<Rightarrow> transaction \<Rightarrow> pyval \<Rightarrow> engine_state \<Rightarrow> tagging_rule
     \<Rightarrow> exc + bool \<times> engine_state"
where
  "rule_step cel L now tx md st rule =
     (case PROCESSORS (rule_type rule) of
        None \<Rightarrow> Inr (False, st)
      | Some p \<Rightarrow>
          (case check_rule_conditions L tx md (conditions rule) of
             Inl e \<Rightarrow> Inl e
           | Inr False \<Rightarrow> Inr (False, st\<lparr> consulted := consulted st @ [GuardChecked (name rule)] \<rparr>)
           | Inr True \<Rightarrow>
               (let st1 = st\<lparr> consulted := consulted st @
                              [GuardChecked (name rule), ProcessorInvoked (name rule)] \<rparr>
                in case processor_process cel L now p tx md (rule_config rule) of
                     Inl e \<Rightarrow> Inr (False, st1\<lparr> note_lines := note_lines st1 @ [note_failed L rule e] \<rparr>)
                   | Inr tag \<Rightarrow>
                       (if py_truthy tag
                        then Inr (priority rule < 50 \<and> stock_confidence > 9 / 10,
                                  record_match L rule tag st1)
                        else Inr (False, st1)))))"


text \<open>
  The notes the engine writes for a call, the overwriting of a stored tag row, and the
  invariant of the loop that links the best tag and the best confidence.
\<close>

definition tagging_notes ::
  "cel_evaluator \<Rightarrow> pyrt \<Rightarrow> string \<Rightarrow> database \<Rightarrow> transaction \<Rightarrow> company \<Rightarrow> string"
where
  "tagging_notes cel L now db tx c =
     (case run_rules cel L now tx (transaction_metadata tx) initial_state (active_rules db c) of
        Inr st \<Rightarrow> join_lines (note_lines st)
      | Inl _ \<Rightarrow> [])"

definition overwrite_tag ::
  "pyrt \<Rightarrow> pyval \<Rightarrow> string \<Rightarrow> string \<Rightarrow> transaction_tag \<Rightarrow> transaction_tag" where
  "overwrite_tag L t txt now r =
     r\<lparr> tag_code := PStr (py_str L t), confidence_score := stock_confidence,
        processing_notes := txt, tag_updated_at := now \<rparr>"

definition state_ok :: "engine_state \<Rightarrow> bool" where
  "state_ok st =
     (best_confidence st = stock_confidence \<or> (best_confidence st = 0 \<and> best_tag st = PNone))"


text \<open>
  The expressions in the configuration of a CEL rule: the one under \<^verbatim>\<open>expression\<close>,
  those of the entries of \<^verbatim>\<open>conditions\<close> and the one under \<^verbatim>\<open>script\<close>. The rules
  of a list are clock-free between two readings of the clock when, for each of them
  that the CEL processor handles, the context is built at both readings or at neither,
  and each expression of the rule evaluates to the same in the two contexts.
\<close>

definition entry_expression :: "pyval \<Rightarrow> pyval list" where
  "entry_expression v =
     (case v of
        PDict kvs \<Rightarrow> (case map_of kvs ''expression'' of Some e \<Rightarrow> [e] | None \<Rightarrow> [])
      | _ \<Rightarrow> [])"

definition cel_expressions :: "pyval \<Rightarrow> pyval list" where
  "cel_expressions config =
     (case config of
        PDict kvs \<Rightarrow>
          entry_expression config @
          (case map_of kvs ''conditions'' of
             Some conds \<Rightarrow>
               (case py_iter conds of
                  Inr clauses \<Rightarrow> concat (map entry_expression clauses)
                | Inl _ \<Rightarrow> [])
           | None \<Rightarrow> []) @
          (case map_of kvs ''script'' of Some e \<Rightarrow> [e] | None \<Rightarrow> [])
      | _ \<Rightarrow> [])"

definition same_evaluation ::
  "cel_evaluator \<Rightarrow> exc + pyval \<Rightarrow> exc + pyval \<Rightarrow> pyval list \<Rightarrow> bool"
where
  "same_evaluation cel c1 c2 es =
     (case c1 of
        Inl _ \<Rightarrow> (case c2 of Inl _ \<Rightarrow> True | Inr _ \<Rightarrow> False)
      | Inr ctx1 \<Rightarrow>
          (case c2 of
             Inl _ \<Rightarrow> False
           | Inr ctx2 \<Rightarrow> list_all (\<lambda>e. cel e ctx1 = cel e ctx2) es))"

definition clock_free ::
  "cel_evaluator \<Rightarrow> pyrt \<Rightarrow> transaction \<Rightarrow> string \<Rightarrow> string \<Rightarrow> tagging_rule list \<Rightarrow> bool"
where
  "clock_free cel L tx now1 now2 rules =
     list_all
       (\<lambda>r. PROCESSORS (rule_type r) = Some CelProc \<longrightarrow>
             same_evaluation cel
               (cel_context L now1 tx (transaction_metadata tx))
               (cel_context L now2 tx (transaction_metadata tx))
               (cel_expressions (rule_config r)))
       rules"

text \<open>A configuration with its \<^verbatim>\<open>script\<close> entry removed.\<close>

definition without_script :: "(string \<times> pyval) list \<Rightarrow> (string \<times> pyval) list" where
  "without_script kvs = filter (\<lambda>kv. fst kv \<noteq> ''script'') kvs"


text \<open>
  The fields by which the round trip compares rules; a rule that the rule table can hold
  (its two JSON columns are \<^verbatim>\<open>NOT NULL\<close> and its priority is in the range of the
  integer column); a rule whose configuration passes \<open>validate_rule_config\<close> for its
  type; and, for a list of rules, the error messages of those that do not pass.
\<close>

definition rule_fields ::
  "tagging_rule \<Rightarrow> string \<times> string \<times> int \<times> pyval \<times> pyval \<times> bool" where
  "rule_fields r = (name r, rule_type r, priority r, rule_config r, conditions r, is_active r)"

definition rule_storable :: "hostlib \<Rightarrow> tagging_rule \<Rightarrow> bool" where
  "rule_storable J r =
     (rule_config r \<noteq> PNone \<and> conditions r \<noteq> PNone \<and> integer_column J (priority r) = None)"

definition rule_valid :: "hostlib \<Rightarrow> tagging_rule \<Rightarrow> bool" where
  "rule_valid J r = (validate_rule_config J (PStr (rule_type r)) (rule_config r) = Inr True)"

definition rejection_messages :: "pyrt \<Rightarrow> hostlib \<Rightarrow> tagging_rule list \<Rightarrow> string list" where
  "rejection_messages L J rs =
     concat (map (\<lambda>r. case validate_rule_config J (PStr (rule_type r)) (rule_config r) of
                         Inl e \<Rightarrow> [import_error_message L (PStr (name r)) e]
                       | Inr _ \<Rightarrow> []) rs)"


section \<open>Example data\<close>

text \<open>
  The closed examples need one instance of each parameter. \<open>rt0\<close> converts integers
  exactly, lets no string parse as a number, strips the whitespace characters of
  ASCII and converts a document to CEL values as it is, unless it contains an integer
  outside the 64 bits of a CEL integer, on which it raises. \<open>cel0\<close> evaluates an
  expression that is a path of names separated by dots, such as \<^verbatim>\<open>now\<close> or
  \<^verbatim>\<open>metadata.customer_tier\<close>, by selecting the names one after the other from the
  context, which is what CEL does with such an expression; it raises on every other
  expression.
\<close>

definition is_space :: "char \<Rightarrow> bool" where
  "is_space c = ((of_char c :: nat) \<in> {9, 10, 11, 12, 13, 28, 29, 30, 31, 32})"

definition strip_spaces :: "string \<Rightarrow> string" where
  "strip_spaces s = rev (dropWhile is_space (rev (dropWhile is_space s)))"

fun fits_cel :: "pyval \<Rightarrow> bool" and fits_cel_list :: "pyval list \<Rightarrow> bool"
  and fits_cel_items :: "(string \<times> pyval) list \<Rightarrow> bool"
where
  "fits_cel (PInt i) = (- (2 ^ 63) \<le> i \<and> i < 2 ^ 63)"
| "fits_cel (PList xs) = fits_cel_list xs"
| "fits_cel (PDict kvs) = fits_cel_items kvs"
| "fits_cel _ = True"
| "fits_cel_list [] = True"
| "fits_cel_list (x # xs) = (fits_cel x \<and> fits_cel_list xs)"
| "fits_cel_items [] = True"
| "fits_cel_items (kv # kvs) = (fits_cel (snd kv) \<and> fits_cel_items kvs)"

definition rt0 :: pyrt where
  "rt0 = \<lparr> float_of_int = (\<lambda>i. Inr (Finite (of_int i))),
           float_of_str = (\<lambda>s. Inl ValueError),
           float_of_decimal = (\<lambda>c e. Finite (of_int c / 10 ^ e)),
           str_other = (\<lambda>v. ''?''),
           re_search = (\<lambda>p s. Inr (py_substring p s)),
           exc_str = (\<lambda>e. ''error''),
           str_strip = strip_spaces,
           json_to_cel = (\<lambda>v. if fits_cel v then Inr v else Inl ValueError) \<rparr>"

fun split_dots :: "string \<Rightarrow> string list" where
  "split_dots [] = [] # []"
| "split_dots (c # cs) =
     (if c = CHR ''.'' then [] # split_dots cs
      else (case split_dots cs of [] \<Rightarrow> [c] # [] | w # ws \<Rightarrow> (c # w) # ws))"

fun select_path :: "pyval \<Rightarrow> string list \<Rightarrow> exc + pyval" where
  "select_path v [] = Inr v"
| "select_path v (k # ks) =
     (case py_getitem v k of Inl e \<Rightarrow> Inl CelError | Inr x \<Rightarrow> select_path x ks)"

definition cel0 :: cel_evaluator where
  "cel0 expression context =
     (case expression of
        PStr x \<Rightarrow> select_path context (split_dots x)
      | _ \<Rightarrow> Inl CelError)"

text \<open>
  The transaction of the examples, with a related metadata row. Of the many members that
  an instance inherits from the base class of the ORM it lists six; the examples read
  none of them.
\<close>

definition orm_members :: "string list" where
  "orm_members = [''save'', ''delete'', ''full_clean'', ''refresh_from_db'', ''_state'', ''_meta'']"

definition tx0 :: transaction where
  "tx0 = \<lparr> tx_id = 1, product_code = ''PROD_001'', produce_rate = (1000000, 4),
           ledger_type = ''debit'', source = ''online'', jurisdiction = ''us'',
           created_at = ''2024-01-01T00:00:00+00:00'', updated_at = ''2024-01-01T00:00:00+00:00'',
           external_data = Some (PDict [(''customer_tier'', PStr ''gold'')]),
           inherited = (\<lambda>n. if n \<in> set orm_members then Some (PObject n) else None) \<rparr>"

definition acme :: company where
  "acme = \<lparr> company_id = 7, company_name = ''Acme'', code = ''ACME'',
            metadata_schema = PDict [], company_is_active = True \<rparr>"

definition simple_rule :: "string \<Rightarrow> int \<Rightarrow> string \<Rightarrow> string \<Rightarrow> tagging_rule" where
  "simple_rule nm prio pcode tag =
     \<lparr> rule_company = 7, name = nm, rule_type = ''simple'', priority = prio,
       rule_config = PDict [(''mappings'', PDict [(''product_code'', PDict [(pcode, PStr tag)])])],
       conditions = PDict [], is_active = True \<rparr>"

definition db1 :: database where
  "db1 = \<lparr> companies = [acme],
           tagging_rules = [simple_rule ''R2'' 100 ''PROD_001'' ''LOW'',
                            simple_rule ''R1'' 60 ''PROD_001'' ''HIGH''],
           transaction_tags = [] \<rparr>"

definition tx_blank :: transaction where
  "tx_blank = tx0\<lparr> product_code := [] \<rparr>"

definition mixed_config :: pyval where
  "mixed_config =
     PDict [(''mappings'',
             PDict [(''customer_tier'', PDict [(''gold'', PStr ''TIER_TAG'')]),
                    (''product_code'',
                       PDict [(''prod_001'', PStr ''LOWER_TAG''),
                              ('' PROD_001 '', PStr ''SPACED_TAG''),
                              (''PROD_001'', PStr ''PRODUCT_TAG'')])])]"

definition blank_config :: pyval where
  "blank_config =
     PDict [(''mappings'', PDict [(''product_code'', PDict [([], PStr ''EMPTY_TAG'')])])]"

definition db_exit :: database where
  "db_exit = \<lparr> companies = [acme],
               tagging_rules = [simple_rule ''R1'' 25 ''PROD_001'' ''A'',
                                simple_rule ''R2'' 40 ''PROD_001'' ''B''],
               transaction_tags = [] \<rparr>"

definition guarded_rule :: tagging_rule where
  "guarded_rule =
     (simple_rule ''Gold only'' 10 ''PROD_001'' ''GOLD'')
       \<lparr> conditions := PDict [(''operator'', PStr ''equals''), (''value'', PStr ''gold'')] \<rparr>"

definition db_guard :: database where
  "db_guard = \<lparr> companies = [acme],
                tagging_rules = [guarded_rule, simple_rule ''R1'' 60 ''PROD_001'' ''HIGH''],
                transaction_tags = [] \<rparr>"

definition manual_row :: transaction_tag where
  "manual_row = \<lparr> tag_transaction_id = 1, tag_company = 7, tag_code = PStr ''MANUAL'',
       confidence_score = 1, is_manual_override = True,
       processing_notes = ''Set by an operator'',
       tag_created_at = ''2024-01-02T00:00:00+00:00'',
       tag_updated_at = ''2024-01-02T00:00:00+00:00'' \<rparr>"

definition db_manual :: database where
  "db_manual = \<lparr> companies = [acme],
                 tagging_rules = [simple_rule ''R1'' 60 ''PROD_001'' ''HIGH''],
                 transaction_tags = [manual_row] \<rparr>"

definition note_R1_HIGH :: string where
  "note_R1_HIGH = ''Rule '' @ [CHR 0x27] @ ''R1'' @ [CHR 0x27] @ '' matched: HIGH''"


definition cel_rule :: "string \<Rightarrow> string \<Rightarrow> tagging_rule" where
  "cel_rule nm expression =
     \<lparr> rule_company = 7, name = nm, rule_type = ''cel'', priority = 100,
       rule_config = PDict [(''expression'', PStr expression)],
       conditions = PDict [], is_active = True \<rparr>"

definition db_clock :: database where
  "db_clock = \<lparr> companies = [acme], tagging_rules = [cel_rule ''Clock'' ''now''],
                transaction_tags = [] \<rparr>"

definition db_tier :: database where
  "db_tier = \<lparr> companies = [acme], tagging_rules = [cel_rule ''Tier'' ''metadata.customer_tier''],
               transaction_tags = [] \<rparr>"

definition noon :: string where
  "noon = ''2024-06-01T12:00:00+00:00''"

definition noon_later :: string where
  "noon_later = ''2024-06-01T12:00:05+00:00''"

definition engine_row :: "string \<Rightarrow> string \<Rightarrow> string \<Rightarrow> transaction_tag" where
  "engine_row rule_name tag now =
     \<lparr> tag_transaction_id = 1, tag_company = 7, tag_code = PStr tag, confidence_score = 1,
       is_manual_override = False,
       processing_notes = ''Rule '' @ [CHR 0x27] @ rule_name @ [CHR 0x27] @ '' matched: '' @ tag,
       tag_created_at = now, tag_updated_at = now \<rparr>"


definition tx_big :: transaction where
  "tx_big = tx0\<lparr> external_data := Some (PDict [(''big'', PInt (2 ^ 63))]) \<rparr>"

definition python_script :: string where
  "python_script = ''def get_tag(transaction, metadata): return None''"


text \<open>
  A codec that knows one document: it writes the text that \<^verbatim>\<open>json.dumps\<close> writes for
  that document with \<^verbatim>\<open>indent=2\<close>, and reads that text back. Its integer column
  holds the integers of 64 bits.
\<close>

definition quoted :: "string \<Rightarrow> string" where
  "quoted s = CHR 0x22 # s @ [CHR 0x22]"

definition document_codec :: "pyval \<Rightarrow> string \<Rightarrow> hostlib" where
  "document_codec doc text =
     \<lparr> json_dumps = (\<lambda>indent v. if v = doc then text else ''null''),
       json_loads = (\<lambda>s. if s = text then Inr doc else Inl JSONDecodeError),
       py_compiles = (\<lambda>s. True),
       int_of = (\<lambda>v. Inl ValueError),
       integer_column = (\<lambda>i. if - (2 ^ 63) \<le> i \<and> i < 2 ^ 63 then None else Some OverflowError) \<rparr>"

definition draft_rule :: tagging_rule where
  "draft_rule = \<lparr> rule_company = 7, name = ''Draft'', rule_type = ''simple'', priority = 100,
                  rule_config = PDict [], conditions = PDict [], is_active = True \<rparr>"

definition db_draft :: database where
  "db_draft = \<lparr> companies = [acme], tagging_rules = [draft_rule], transaction_tags = [] \<rparr>"

definition db_fresh :: database where
  "db_fresh = \<lparr> companies = [acme], tagging_rules = [], transaction_tags = [] \<rparr>"

definition draft_json :: string where
  "draft_json = join_lines
     [''{'',
      ''  '' @ quoted ''company_code'' @ '': '' @ quoted ''ACME'' @ '','',
      ''  '' @ quoted ''company_name'' @ '': '' @ quoted ''Acme'' @ '','',
      ''  '' @ quoted ''rules'' @ '': ['',
      ''    {'',
      ''      '' @ quoted ''name'' @ '': '' @ quoted ''Draft'' @ '','',
      ''      '' @ quoted ''rule_type'' @ '': '' @ quoted ''simple'' @ '','',
      ''      '' @ quoted ''priority'' @ '': 100,'',
      ''      '' @ quoted ''rule_config'' @ '': {},'',
      ''      '' @ quoted ''conditions'' @ '': {},'',
      ''      '' @ quoted ''is_active'' @ '': true'',
      ''    }'',
      ''  ]'',
      ''}'']"

definition J_draft :: hostlib where
  "J_draft = document_codec (export_envelope db_draft acme ''ACME'') draft_json"

definition r1_json :: string where
  "r1_json = join_lines
     [''{'',
      ''  '' @ quoted ''company_code'' @ '': '' @ quoted ''ACME'' @ '','',
      ''  '' @ quoted ''company_name'' @ '': '' @ quoted ''Acme'' @ '','',
      ''  '' @ quoted ''rules'' @ '': ['',
      ''    {'',
      ''      '' @ quoted ''name'' @ '': '' @ quoted ''R1'' @ '','',
      ''      '' @ quoted ''rule_type'' @ '': '' @ quoted ''simple'' @ '','',
      ''      '' @ quoted ''priority'' @ '': 60,'',
      ''      '' @ quoted ''rule_config'' @ '': {'',
      ''        '' @ quoted ''mappings'' @ '': {'',
      ''          '' @ quoted ''product_code'' @ '': {'',
      ''            '' @ quoted ''PROD_001'' @ '': '' @ quoted ''HIGH'',
      ''          }'',
      ''        }'',
      ''      },'',
      ''      '' @ quoted ''conditions'' @ '': {},'',
      ''      '' @ quoted ''is_active'' @ '': true'',
      ''    }'',
      ''  ]'',
      ''}'']"

definition J_r1 :: hostlib where
  "J_r1 = document_codec (export_envelope db_manual acme ''ACME'') r1_json"

definition db_pair :: database where
  "db_pair = \<lparr> companies = [acme],
               tagging_rules = [draft_rule, simple_rule ''R1'' 60 ''PROD_001'' ''HIGH''],
               transaction_tags = [] \<rparr>"

definition pair_json :: string where
  "pair_json = join_lines
     [''{'',
      ''  '' @ quoted ''company_code'' @ '': '' @ quoted ''ACME'' @ '','',
      ''  '' @ quoted ''company_name'' @ '': '' @ quoted ''Acme'' @ '','',
      ''  '' @ quoted ''rules'' @ '': ['',
      ''    {'',
      ''      '' @ quoted ''name'' @ '': '' @ quoted ''R1'' @ '','',
      ''      '' @ quoted ''rule_type'' @ '': '' @ quoted ''simple'' @ '','',
      ''      '' @ quoted ''priority'' @ '': 60,'',
      ''      '' @ quoted ''rule_config'' @ '': {'',
      ''        '' @ quoted ''mappings'' @ '': {'',
      ''          '' @ quoted ''product_code'' @ '': {'',
      ''            '' @ quoted ''PROD_001'' @ '': '' @ quoted ''HIGH'',
      ''          }'',
      ''        }'',
      ''      },'',
      ''      '' @ quoted ''conditions'' @ '': {},'',
      ''      '' @ quoted ''is_active'' @ '': true'',
      ''    },'',
      ''    {'',
      ''      '' @ quoted ''name'' @ '': '' @ quoted ''Draft'' @ '','',
      ''      '' @ quoted ''rule_type'' @ '': '' @ quoted ''simple'' @ '','',
      ''      '' @ quoted ''priority'' @ '': 100,'',
      ''      '' @ quoted ''rule_config'' @ '': {},'',
      ''      '' @ quoted ''conditions'' @ '': {},'',
      ''      '' @ quoted ''is_active'' @ '': true'',
      ''    }'',
      ''  ]'',
      ''}'']"

definition J_pair :: hostlib where
  "J_pair = document_codec (export_envelope db_pair acme ''ACME'') pair_json"


section \<open>The engine selects the first match\<close>

lemma record_match_best:
  "best_tag (record_match L rule tag st) = (if stock_confidence > best_confidence st then tag else best_tag st)"
  "best_confidence (record_match L rule tag st) = (if stock_confidence > best_confidence st then stock_confidence else best_confidence st)"
  by (simp_all add: record_match_def Let_def)

lemma run_rules_best:
  "run_rules cel L now tx md st rules = Inr st' \<Longrightarrow>
   best_tag st' = (if stock_confidence > best_confidence st
                   then (case first_match (rule_result cel L now tx md) rules of
                           Some tag \<Rightarrow> tag | None \<Rightarrow> best_tag st)
                   else best_tag st)"
proof (induction rules arbitrary: st)
  case Nil
  then show ?case by simp
next
  case (Cons rule rules)
  let ?f = "rule_result cel L now tx md"
  show ?case
  proof (cases "PROCESSORS (rule_type rule)")
    case None
    then have rr: "?f rule = None" by (simp add: rule_result_def)
    from None Cons.prems have "run_rules cel L now tx md st rules = Inr st'" by simp
    from Cons.IH[OF this] rr show ?thesis by (simp split: option.splits)
  next
    case (Some p)
    show ?thesis
    proof (cases "check_rule_conditions L tx md (conditions rule)")
      case (Inl e)
      with Some Cons.prems show ?thesis by simp
    next
      case (Inr ok)
      note guard = Inr
      show ?thesis
      proof (cases ok)
        case False
        with Some guard have rr: "?f rule = None" by (simp add: rule_result_def)
        let ?st0 = "st\<lparr>consulted := consulted st @ [GuardChecked (name rule)]\<rparr>"
        from Some guard False Cons.prems
        have "run_rules cel L now tx md ?st0 rules = Inr st'" by simp
        from Cons.IH[OF this] rr show ?thesis by (simp split: option.splits)
      next
        case True
        let ?st1 = "st\<lparr>consulted := consulted st @ [GuardChecked (name rule), ProcessorInvoked (name rule)]\<rparr>"
        show ?thesis
        proof (cases "processor_process cel L now p tx md (rule_config rule)")
          case (Inl e)
          with Some guard True have rr: "?f rule = None" by (simp add: rule_result_def)
          let ?st2 = "?st1\<lparr>note_lines := note_lines ?st1 @ [note_failed L rule e]\<rparr>"
          from Some guard True Inl Cons.prems
          have "run_rules cel L now tx md ?st2 rules = Inr st'" by simp
          from Cons.IH[OF this] rr show ?thesis by (simp split: option.splits)
        next
          case (Inr tag)
          note tag = Inr
          show ?thesis
          proof (cases "py_truthy tag")
            case False
            with Some guard True tag have rr: "?f rule = None" by (simp add: rule_result_def)
            from Some guard True tag False Cons.prems
            have "run_rules cel L now tx md ?st1 rules = Inr st'" by simp
            from Cons.IH[OF this] rr show ?thesis by (simp split: option.splits)
          next
            case truthy: True
            with Some guard True tag have rr: "?f rule = Some tag" by (simp add: rule_result_def)
            let ?st3 = "record_match L rule tag ?st1"
            have b3: "best_tag ?st3 = (if stock_confidence > best_confidence st then tag else best_tag st)"
              and c3: "\<not> stock_confidence > best_confidence st \<or> best_confidence ?st3 = stock_confidence"
              and c3': "\<not> stock_confidence > best_confidence st \<Longrightarrow> best_confidence ?st3 = best_confidence st"
              by (simp_all add: record_match_best)
            show ?thesis
            proof (cases "priority rule < 50 \<and> stock_confidence > 9 / 10")
              case True
              with Some guard \<open>ok\<close> tag truthy Cons.prems have "st' = ?st3" by (auto simp add: Let_def split: if_splits)
              with b3 rr show ?thesis by simp
            next
              case False
              with Some guard \<open>ok\<close> tag truthy Cons.prems
              have "run_rules cel L now tx md ?st3 rules = Inr st'" by (auto simp add: Let_def split: if_splits)
              from Cons.IH[OF this] have
                "best_tag st' = (if stock_confidence > best_confidence ?st3
                   then (case first_match ?f rules of Some tag \<Rightarrow> tag | None \<Rightarrow> best_tag ?st3)
                   else best_tag ?st3)" .
              with b3 c3 c3' rr show ?thesis
                by (cases "stock_confidence > best_confidence st") (auto split: option.splits)
            qed
          qed
        qed
      qed
    qed
  qed
qed

lemma run_rules_total:
  "list_all (\<lambda>r. case check_rule_conditions L tx md (conditions r) of Inl _ \<Rightarrow> False | Inr _ \<Rightarrow> True) rules
   \<Longrightarrow> \<exists>st'. run_rules cel L now tx md st rules = Inr st'"
proof (induction rules arbitrary: st)
  case Nil
  then show ?case by simp
next
  case (Cons rule rules)
  then show ?case
    by (auto simp: Let_def split: option.splits sum.splits bool.splits)
qed


lemma first_match_truthy:
  "first_match (rule_result cel L now tx md) rules = Some tag \<Longrightarrow> py_truthy tag"
proof (induction rules)
  case Nil
  then show ?case by simp
next
  case (Cons r rules)
  show ?case
  proof (cases "rule_result cel L now tx md r")
    case None
    with Cons show ?thesis by simp
  next
    case (Some t)
    with Cons.prems have "t = tag" by simp
    with Some show ?thesis
      by (auto simp: rule_result_def split: option.splits sum.splits bool.splits if_splits)
  qed
qed

lemma update_or_create_tag_total:
  "length (tag_rows rows t c) \<le> 1 \<Longrightarrow> \<exists>rows'. update_or_create_tag L rows t c tag conf txt now = Inr rows'"
  by (cases "tag_rows rows t c" rule: list.exhaust[case_product list.exhaust])
     (auto simp: update_or_create_tag_def split: list.splits)

lemma run_rules_initial:
  assumes "run_rules cel L now tx (transaction_metadata tx) initial_state rules = Inr st"
  shows "(if py_truthy (best_tag st) then best_tag st else PNone) = first_match_tag cel L now tx rules"
proof -
  have sc: "stock_confidence > best_confidence initial_state"
    by (simp add: stock_confidence_def initial_state_def)
  from run_rules_best[OF assms] sc
  have b: "best_tag st = (case first_match (rule_result cel L now tx (transaction_metadata tx)) rules of
                            Some tag \<Rightarrow> tag | None \<Rightarrow> PNone)"
    by (simp add: initial_state_def split: option.splits)
  show ?thesis
  proof (cases "first_match (rule_result cel L now tx (transaction_metadata tx)) rules")
    case None
    with b show ?thesis by (simp add: first_match_tag_def)
  next
    case (Some tag)
    with b first_match_truthy[OF Some] show ?thesis by (simp add: first_match_tag_def)
  qed
qed

text \<open>
  Claim C1. Whenever \<open>tag_transaction\<close> returns, the tag it returns is the tag of the
  first active rule of the company, in ascending order of priority, that has a processor,
  whose guard passes and whose processor returns a truthy tag (\<open>PNone\<close> when there is no
  such rule): a later match never replaces it. It does return when no guard of an active
  rule raises and the pair has at most one stored tag row.
\<close>

theorem tag_transaction_first_match:
  "(tag_transaction cel L now db tx c = Inr (t, db') \<longrightarrow>
      t = first_match_tag cel L now tx (active_rules db c)) \<and>
   (list_all (guard_returns L tx) (active_rules db c) \<and>
    length (tag_rows (transaction_tags db) (tx_id tx) (company_id c)) \<le> 1 \<longrightarrow>
      (\<exists>db''. tag_transaction cel L now db tx c =
                Inr (first_match_tag cel L now tx (active_rules db c), db''))) \<and>
   sorted (map priority (active_rules db c)) \<and>
   set (active_rules db c) =
     {r \<in> set (tagging_rules db). rule_company r = company_id c \<and> is_active r}"
proof (intro conjI impI)
  assume "tag_transaction cel L now db tx c = Inr (t, db')"
  then obtain st where
    run: "run_rules cel L now tx (transaction_metadata tx) initial_state (active_rules db c) = Inr st"
    and t: "t = (if py_truthy (best_tag st) then best_tag st else PNone)"
    by (auto simp: tag_transaction_def split: sum.splits if_splits)
  from run_rules_initial[OF run] t
  show "t = first_match_tag cel L now tx (active_rules db c)" by simp
next
  assume h: "list_all (guard_returns L tx) (active_rules db c) \<and>
    length (tag_rows (transaction_tags db) (tx_id tx) (company_id c)) \<le> 1"
  then have "list_all (\<lambda>r. case check_rule_conditions L tx (transaction_metadata tx) (conditions r) of
                 Inl _ \<Rightarrow> False | Inr _ \<Rightarrow> True) (active_rules db c)"
    by (simp add: guard_returns_def[abs_def])
  from run_rules_total[OF this] obtain st where
    run: "run_rules cel L now tx (transaction_metadata tx) initial_state (active_rules db c) = Inr st"
    by blast
  note fm = run_rules_initial[OF run]
  show "\<exists>db''. tag_transaction cel L now db tx c =
                Inr (first_match_tag cel L now tx (active_rules db c), db'')"
  proof (cases "py_truthy (best_tag st)")
    case False
    with run fm show ?thesis by (simp add: tag_transaction_def)
  next
    case True
    from h update_or_create_tag_total obtain rows' where
      "update_or_create_tag L (transaction_tags db) (tx_id tx) (company_id c)
         (best_tag st) (best_confidence st) (join_lines (note_lines st)) now = Inr rows'"
      by blast
    with True run fm show ?thesis by (simp add: tag_transaction_def)
  qed
next
  show "sorted (map priority (active_rules db c))" by (simp add: active_rules_def)
next
  show "set (active_rules db c) =
     {r \<in> set (tagging_rules db). rule_company r = company_id c \<and> is_active r}"
    by (auto simp: active_rules_def)
qed

lemma db1_active_rules: "active_rules db1 acme = [simple_rule ''R1'' 60 ''PROD_001'' ''HIGH'', simple_rule ''R2'' 100 ''PROD_001'' ''LOW'']"
  by (simp add: active_rules_def db1_def acme_def simple_rule_def)

lemma db1_guards: "list_all (guard_returns rt0 tx0) (active_rules db1 acme)"
  by (simp add: db1_active_rules guard_returns_def check_rule_conditions_def simple_rule_def)

lemma db1_rows: "length (tag_rows (transaction_tags db1) (tx_id tx0) (company_id acme)) \<le> 1"
  by (simp add: db1_def tag_rows_def)

text \<open>
  Two matching rules of priority 60 and 100, stored in the other order: the tag of the
  rule of priority 60 is returned.
\<close>

theorem tag_transaction_first_match_witness:
  "list_all (guard_returns rt0 tx0) (active_rules db1 acme) \<and>
   length (tag_rows (transaction_tags db1) (tx_id tx0) (company_id acme)) \<le> 1 \<and>
   (\<exists>db''. tag_transaction cel0 rt0 ''2024-06-01T12:00:00+00:00'' db1 tx0 acme = Inr (PStr ''HIGH'', db''))"
proof -
  have h: "list_all (guard_returns rt0 tx0) (active_rules db1 acme) \<and>
     length (tag_rows (transaction_tags db1) (tx_id tx0) (company_id acme)) \<le> 1"
    using db1_guards db1_rows by simp
  have fm: "first_match_tag cel0 rt0 ''2024-06-01T12:00:00+00:00'' tx0 (active_rules db1 acme) = PStr ''HIGH''"
    by (simp add: db1_active_rules first_match_tag_def rule_result_def check_rule_conditions_def simple_rule_def
     PROCESSORS_def processor_process_def SimpleRuleProcessor_process_def py_get_def py_items_def
     transaction_fields_def getattr_transaction_def tx0_def py_contains_def py_getitem_def)
  from tag_transaction_first_match[of cel0 rt0 "''2024-06-01T12:00:00+00:00''" db1 tx0 acme, THEN conjunct2, THEN conjunct1, rule_format, OF h] fm h
  show ?thesis by simp
qed


section \<open>Missing fields in the conditional evaluator\<close>

lemma getattr_unknown:
  "\<not> hasattr_transaction tx p \<Longrightarrow> getattr_transaction tx p = PNone"
  by (auto simp: hasattr_transaction_def getattr_transaction_def transaction_attributes_def
           split: if_splits)

lemma declared_attributes_not_missing:
  "p \<in> set transaction_attributes \<Longrightarrow> p \<noteq> ''external_data'' \<Longrightarrow> \<not> missing_field tx md p"
  by (auto simp: missing_field_def hasattr_transaction_def transaction_attributes_def)

lemma get_missing_field:
  assumes m: "missing_field tx md p"
  shows "get_field_value tx md (PStr p) = Inr PNone"
proof (cases "prefix ''metadata.'' p")
  case True
  with m obtain kvs where "md = PDict kvs" "map_of kvs (drop 9 p) = None"
    by (cases md) (simp_all add: missing_field_def)
  with True show ?thesis by (simp add: get_field_value_def py_get_def)
next
  case False
  with m have "\<not> hasattr_transaction tx p" by (simp add: missing_field_def)
  with False show ?thesis by (simp add: get_field_value_def getattr_unknown)
qed

lemma compare_None_equals: "compare_values L PNone (PStr ''equals'') v = Inr (v = PNone)"
  by (simp add: compare_values_def)

lemma compare_None_greater:
  "compare_values L PNone (PStr ''greater_than'') v = Inr (str_less (py_str L v) ''None'')"
  by (simp add: compare_values_def compare_numeric_def py_float_def py_str_def)

lemma compare_None_less:
  "compare_values L PNone (PStr ''less_than'') v = Inr (str_less ''None'' (py_str L v))"
  by (simp add: compare_values_def compare_numeric_def py_float_def py_str_def)

lemma compare_None_contains:
  "compare_values L PNone (PStr ''contains'') v = Inr (py_substring (py_str L v) ''None'')"
  by (simp add: compare_values_def py_str_def)

lemma compare_None_regex:
  "compare_values L PNone (PStr ''regex'') v = re_search L (py_str L v) ''None''"
  by (simp add: compare_values_def py_str_def)

lemma evaluate_leaf:
  assumes "map_of c ''conditions'' = None" "map_of c ''field'' = Some (PStr p)"
    "map_of c ''operator'' = Some op" "map_of c ''value'' = Some v"
    "get_field_value tx md (PStr p) = Inr a"
  shows "evaluate_condition L tx md (PDict c) = compare_values L a op v"
  using assms by (simp add: evaluate_condition.simps py_contains_def py_get_def)

lemma str_of_int_1000: "str_of_int 1000 = ''1000''"
  by code_simp

text \<open>
  Claim C3 as stated fails: with no \<^verbatim>\<open>amount\<close> in the metadata, the condition
  \<^verbatim>\<open>metadata.amount greater_than 1000\<close> is true, because \<^verbatim>\<open>float(None)\<close> raises and
  the fallback compares \<^verbatim>\<open>'None' > '1000'\<close>.
\<close>

theorem missing_field_greater_than_counterexample:
  "missing_field tx0 (transaction_metadata tx0) ''metadata.amount'' \<and>
   evaluate_condition rt0 tx0 (transaction_metadata tx0)
     (PDict [(''field'', PStr ''metadata.amount''), (''operator'', PStr ''greater_than''),
             (''value'', PInt 1000)]) = Inr True"
  by (simp add: missing_field_def transaction_metadata_def tx0_def
        evaluate_condition.simps py_contains_def py_get_def get_field_value_def
        compare_values_def compare_numeric_def py_float_def py_str_def str_of_int_1000)

lemma class_constant_is_read:
  assumes "map_of c ''conditions'' = None"
    and "map_of c ''field'' = Some (PStr ''SOURCE_CHOICES'')"
    and "map_of c ''operator'' = Some (PStr ''equals'')"
    and "map_of c ''value'' = Some PNone"
  shows "\<not> missing_field tx md ''SOURCE_CHOICES'' \<and>
         evaluate_condition L tx md (PDict c) = Inr False"
proof -
  have g: "get_field_value tx md (PStr ''SOURCE_CHOICES'') = Inr SOURCE_CHOICES"
    by (simp add: get_field_value_def getattr_transaction_def)
  have "\<not> py_eq SOURCE_CHOICES PNone" by (simp add: SOURCE_CHOICES_def choices_def)
  with evaluate_leaf[OF assms g, of L] declared_attributes_not_missing[of "''SOURCE_CHOICES''" tx md]
  show ?thesis by (simp add: compare_values_def transaction_attributes_def)
qed

text \<open>
  Claim C3, amended. A missing field (a \<^verbatim>\<open>metadata.<name>\<close> path with no such key
  in the metadata, or another name for which the transaction has no attribute) reads as
  \<^verbatim>\<open>None\<close>. Under \<open>equals\<close> it is equal to \<^verbatim>\<open>None\<close> only; \<open>greater_than\<close> and
  \<open>less_than\<close> compare the string \<^verbatim>\<open>'None'\<close> with \<^verbatim>\<open>str\<close> of the expected
  value, by code points; \<open>contains\<close> and \<open>regex\<close> search the string
  \<^verbatim>\<open>'None'\<close>.
\<close>

theorem missing_field_comparisons:
  assumes "missing_field tx md p"
    and "map_of c ''conditions'' = None"
    and "map_of c ''field'' = Some (PStr p)"
    and "map_of c ''operator'' = Some op"
    and "map_of c ''value'' = Some v"
  shows "get_field_value tx md (PStr p) = Inr PNone \<and>
    (op = PStr ''equals'' \<longrightarrow> evaluate_condition L tx md (PDict c) = Inr (v = PNone)) \<and>
    (op = PStr ''greater_than'' \<longrightarrow>
       evaluate_condition L tx md (PDict c) = Inr (str_less (py_str L v) ''None'')) \<and>
    (op = PStr ''less_than'' \<longrightarrow>
       evaluate_condition L tx md (PDict c) = Inr (str_less ''None'' (py_str L v))) \<and>
    (op = PStr ''contains'' \<longrightarrow>
       evaluate_condition L tx md (PDict c) = Inr (py_substring (py_str L v) ''None'')) \<and>
    (op = PStr ''regex'' \<longrightarrow>
       evaluate_condition L tx md (PDict c) = re_search L (py_str L v) ''None'')"
proof -
  note g = get_missing_field[OF assms(1)]
  note e = evaluate_leaf[OF assms(2) assms(3) assms(4) assms(5) g, of L]
  from g e show ?thesis
    by (simp add: compare_None_equals compare_None_greater compare_None_less
          compare_None_contains compare_None_regex)
qed

text \<open>
  With no \<^verbatim>\<open>amount\<close> in the metadata, \<^verbatim>\<open>metadata.amount contains 'on'\<close> is true:
  the text searched is \<^verbatim>\<open>'None'\<close>. The transaction has no attribute
  \<^verbatim>\<open>discount\<close>, and \<^verbatim>\<open>discount less_than 'Zero'\<close> is true: \<^verbatim>\<open>'None' < 'Zero'\<close>.
\<close>

theorem missing_field_comparisons_witness:
  "missing_field tx0 (transaction_metadata tx0) ''metadata.amount'' \<and>
   evaluate_condition rt0 tx0 (transaction_metadata tx0)
     (PDict [(''field'', PStr ''metadata.amount''), (''operator'', PStr ''contains''),
             (''value'', PStr ''on'')]) = Inr True \<and>
   missing_field tx0 (transaction_metadata tx0) ''discount'' \<and>
   evaluate_condition rt0 tx0 (transaction_metadata tx0)
     (PDict [(''field'', PStr ''discount''), (''operator'', PStr ''less_than''),
             (''value'', PStr ''Zero'')]) = Inr True"
proof -
  have m: "missing_field tx0 (transaction_metadata tx0) ''metadata.amount''"
    by (simp add: missing_field_def transaction_metadata_def tx0_def)
  let ?c = "[(''field'', PStr ''metadata.amount''), (''operator'', PStr ''contains''),
             (''value'', PStr ''on'')]"
  have "evaluate_condition rt0 tx0 (transaction_metadata tx0) (PDict ?c) =
          Inr (py_substring (py_str rt0 (PStr ''on'')) ''None'')"
    using missing_field_comparisons[OF m, of ?c "PStr ''contains''" "PStr ''on''" rt0] by simp
  then have a: "evaluate_condition rt0 tx0 (transaction_metadata tx0) (PDict ?c) = Inr True"
    by (simp add: py_str_def)
  have m': "missing_field tx0 (transaction_metadata tx0) ''discount''"
    by (simp add: missing_field_def hasattr_transaction_def transaction_attributes_def
          tx0_def orm_members_def)
  let ?d = "[(''field'', PStr ''discount''), (''operator'', PStr ''less_than''),
             (''value'', PStr ''Zero'')]"
  have "evaluate_condition rt0 tx0 (transaction_metadata tx0) (PDict ?d) =
          Inr (str_less ''None'' (py_str rt0 (PStr ''Zero'')))"
    using missing_field_comparisons[OF m', of ?d "PStr ''less_than''" "PStr ''Zero''" rt0] by simp
  then have b: "evaluate_condition rt0 tx0 (transaction_metadata tx0) (PDict ?d) = Inr True"
    by (simp add: py_str_def)
  from m a m' b show ?thesis by simp
qed


section \<open>The simple processor\<close>

lemma first_outcome_append:
  "first_outcome (xs @ ys) = (case first_outcome xs of Inr None \<Rightarrow> first_outcome ys | r \<Rightarrow> r)"
  by (induction xs rule: first_outcome.induct) auto

lemma first_outcome_Cons:
  "first_outcome (r # rest) = (case r of Inr None \<Rightarrow> first_outcome rest | _ \<Rightarrow> r)"
  by (cases r; cases "projr r") (auto split: sum.splits option.splits)

lemma scan_transaction_fields_step:
  "scan_transaction_fields tx (item # rest) =
     (if is_transaction_field item
      then (case tx_mapping_lookup tx item of
              Inr None \<Rightarrow> scan_transaction_fields tx rest
            | r \<Rightarrow> r)
      else scan_transaction_fields tx rest)"
proof (cases item)
  case (Pair f fm)
  show ?thesis
  proof (cases "getattr_transaction tx f")
    case (PStr v)
    show ?thesis
    proof (cases "py_contains v fm")
      case (Inl e)
      with Pair PStr show ?thesis
        by (simp add: is_transaction_field_def tx_mapping_lookup_def)
    next
      case (Inr b)
      with Pair PStr show ?thesis
        by (cases b; cases "py_getitem fm v")
           (simp_all add: is_transaction_field_def tx_mapping_lookup_def)
    qed
  qed (simp_all add: Pair is_transaction_field_def tx_mapping_lookup_def)
qed

lemma scan_metadata_fields_step:
  "scan_metadata_fields L md (item # rest) =
     (if is_transaction_field item then scan_metadata_fields L md rest
      else (case md_mapping_lookup L md item of
              Inr None \<Rightarrow> scan_metadata_fields L md rest
            | r \<Rightarrow> r))"
proof (cases item)
  case (Pair f fm)
  show ?thesis
  proof (cases "py_contains f md")
    case (Inl e)
    with Pair show ?thesis by (simp add: is_transaction_field_def md_mapping_lookup_def)
  next
    case (Inr b)
    note present = Inr
    show ?thesis
    proof (cases b)
      case False
      with Pair present show ?thesis
        by (simp add: is_transaction_field_def md_mapping_lookup_def)
    next
      case True
      show ?thesis
      proof (cases "py_getitem md f")
        case (Inl e)
        with Pair present True show ?thesis
          by (simp add: is_transaction_field_def md_mapping_lookup_def)
      next
        case (Inr v)
        note v = Inr
        show ?thesis
        proof (cases "py_contains (py_str L v) fm")
          case (Inl e)
          with Pair present True v show ?thesis
            by (simp add: is_transaction_field_def md_mapping_lookup_def)
        next
          case (Inr b')
          with Pair present True v show ?thesis
            by (cases b'; cases "py_getitem fm (py_str L v)")
               (simp_all add: is_transaction_field_def md_mapping_lookup_def)
        qed
      qed
    qed
  qed
qed

lemma scan_transaction_fields_eq:
  "scan_transaction_fields tx items =
     first_outcome (map (tx_mapping_lookup tx) (filter is_transaction_field items))"
proof (induction items)
  case Nil
  show ?case by simp
next
  case (Cons item items)
  then show ?case
    by (simp only: scan_transaction_fields_step first_outcome_Cons filter.simps list.map split: if_splits)
       (auto split: sum.splits option.splits)
qed

lemma scan_metadata_fields_eq:
  "scan_metadata_fields L md items =
     first_outcome (map (md_mapping_lookup L md)
                      (filter (\<lambda>item. \<not> is_transaction_field item) items))"
proof (induction items)
  case Nil
  show ?case by simp
next
  case (Cons item items)
  then show ?case
    by (simp only: scan_metadata_fields_step first_outcome_Cons filter.simps list.map split: if_splits)
       (auto split: sum.splits option.splits)
qed


lemma tx_mapping_lookup_dict:
  "tx_mapping_lookup tx (f, PDict fm) =
     Inr (case getattr_transaction tx f of
            PStr v \<Rightarrow> (if v = [] then None else map_of fm v)
          | _ \<Rightarrow> None)"
proof (cases "getattr_transaction tx f")
  case (PStr v)
  then show ?thesis
    by (cases "map_of fm v") (simp_all add: tx_mapping_lookup_def py_contains_def py_getitem_def)
qed (simp_all add: tx_mapping_lookup_def)

lemma md_mapping_lookup_dict:
  "md_mapping_lookup L (PDict m) (f, PDict fm) =
     Inr (case map_of m f of None \<Rightarrow> None | Some v \<Rightarrow> map_of fm (py_str L v))"
proof (cases "map_of m f")
  case None
  then show ?thesis by (simp add: md_mapping_lookup_def py_contains_def)
next
  case (Some v)
  then show ?thesis
    by (cases "map_of fm (py_str L v)")
       (simp_all add: md_mapping_lookup_def py_contains_def py_getitem_def)
qed

lemma simple_process_partitioned:
  "SimpleRuleProcessor_process L tx md config =
     (case py_get config ''mappings'' (PDict []) of
        Inl e \<Rightarrow> Inl e
      | Inr mappings \<Rightarrow>
          (case py_items mappings of
             Inl e \<Rightarrow> Inl e
           | Inr items \<Rightarrow>
               map_sum id (case_option PNone id) (partitioned_lookup L tx md items)))"
  by (auto simp: SimpleRuleProcessor_process_def partitioned_lookup_def first_outcome_append
        scan_transaction_fields_eq scan_metadata_fields_eq
        split: sum.splits option.splits)

text \<open>
  Claim C9. The result of the simple processor is that of examining first the mappings
  on the recognised transaction fields, then the other mappings against the metadata,
  each partition in declared order, whatever the order of the fields in the
  configuration; the first mapping that matches decides. A mapping is looked up by the
  value itself (the key must be the very same string: no case folding, no trimming).
\<close>

theorem simple_transaction_fields_first:
  "SimpleRuleProcessor_process L tx md config =
     (case py_get config ''mappings'' (PDict []) of
        Inl e \<Rightarrow> Inl e
      | Inr mappings \<Rightarrow>
          (case py_items mappings of
             Inl e \<Rightarrow> Inl e
           | Inr items \<Rightarrow>
               map_sum id (case_option PNone id) (partitioned_lookup L tx md items))) \<and>
   tx_mapping_lookup tx (f, PDict fm) =
     Inr (case getattr_transaction tx f of
            PStr v \<Rightarrow> (if v = [] then None else map_of fm v)
          | _ \<Rightarrow> None) \<and>
   md_mapping_lookup L (PDict m) (f, PDict fm) =
     Inr (case map_of m f of None \<Rightarrow> None | Some v \<Rightarrow> map_of fm (py_str L v))"
  using simple_process_partitioned tx_mapping_lookup_dict md_mapping_lookup_dict by simp

text \<open>
  A metadata mapping that matches is declared before the mapping on \<^verbatim>\<open>product_code\<close>;
  the latter decides, by its exact key.
\<close>

theorem simple_transaction_fields_first_witness:
  "SimpleRuleProcessor_process rt0 tx0 (transaction_metadata tx0) mixed_config = Inr (PStr ''PRODUCT_TAG'')"
proof -
  have "partitioned_lookup rt0 tx0 (transaction_metadata tx0)
          [(''customer_tier'', PDict [(''gold'', PStr ''TIER_TAG'')]),
           (''product_code'',
              PDict [(''prod_001'', PStr ''LOWER_TAG''),
                     ('' PROD_001 '', PStr ''SPACED_TAG''),
                     (''PROD_001'', PStr ''PRODUCT_TAG'')])] = Inr (Some (PStr ''PRODUCT_TAG''))"
    by (simp add: partitioned_lookup_def is_transaction_field_def transaction_fields_def
          tx_mapping_lookup_dict getattr_transaction_def tx0_def)
  then show ?thesis
    using simple_transaction_fields_first[of rt0 tx0 "transaction_metadata tx0" mixed_config]
    by (simp add: mixed_config_def py_get_def py_items_def)
qed

lemma tx_mapping_lookup_blank:
  "getattr_transaction tx f = PStr [] \<Longrightarrow> tx_mapping_lookup tx (f, fm) = Inr None"
  by (simp add: tx_mapping_lookup_def)

lemma partitioned_lookup_blank:
  assumes "f \<in> set transaction_fields" and "getattr_transaction tx f = PStr []"
  shows "partitioned_lookup L tx md (xs @ (f, fm) # ys) = partitioned_lookup L tx md (xs @ ys)"
  using assms
  by (auto simp add: partitioned_lookup_def is_transaction_field_def first_outcome_append
        tx_mapping_lookup_blank split: sum.splits option.splits)

text \<open>
  Claim C10. A mapping on a recognised transaction field whose value is empty never
  matches, whatever its keys (the empty string included) and whatever its shape: the
  processor behaves as if that mapping were not in the configuration.
\<close>

theorem simple_falsy_field_never_matches:
  assumes "f \<in> set transaction_fields" and "getattr_transaction tx f = PStr []"
  shows "scan_transaction_fields tx ((f, fm) # rest) = scan_transaction_fields tx rest \<and>
    SimpleRuleProcessor_process L tx md (PDict [(''mappings'', PDict (xs @ (f, fm) # ys))]) =
    SimpleRuleProcessor_process L tx md (PDict [(''mappings'', PDict (xs @ ys))])"
  using assms
  by (simp add: simple_process_partitioned py_get_def py_items_def partitioned_lookup_blank)

text \<open>
  The product code is empty and the mapping has the empty string as a key: no tag.
\<close>

theorem simple_falsy_field_never_matches_witness:
  "''product_code'' \<in> set transaction_fields \<and>
   getattr_transaction tx_blank ''product_code'' = PStr [] \<and>
   SimpleRuleProcessor_process rt0 tx_blank (transaction_metadata tx_blank) blank_config = Inr PNone"
proof -
  have f: "''product_code'' \<in> set transaction_fields" by (simp add: transaction_fields_def)
  have v: "getattr_transaction tx_blank ''product_code'' = PStr []"
    by (simp add: getattr_transaction_def tx_blank_def)
  have "SimpleRuleProcessor_process rt0 tx_blank (transaction_metadata tx_blank)
          (PDict [(''mappings'', PDict ([] @ []))]) = Inr PNone"
    by (simp add: SimpleRuleProcessor_process_def py_get_def py_items_def)
  with simple_falsy_field_never_matches[OF f v, of "PDict [([], PStr ''EMPTY_TAG'')]" "[]" rt0
         "transaction_metadata tx_blank" "[]" "[]"] f v
  show ?thesis by (simp add: blank_config_def)
qed

section \<open>Early exit and errors in the rule loop\<close>

lemma run_rules_Cons:
  "run_rules cel L now tx md st (rule # rules) =
     (case rule_step cel L now tx md st rule of
        Inl e \<Rightarrow> Inl e
      | Inr (stop, s) \<Rightarrow> if stop then Inr s else run_rules cel L now tx md s rules)"
  by (simp add: rule_step_def Let_def split: option.splits sum.splits bool.splits)

lemma consulted_record_match: "consulted (record_match L rule t s) = consulted s"
  by (simp add: record_match_def Let_def)

lemma rule_step_consulted:
  assumes "rule_step cel L now tx md st rule = Inr (stop, s)"
  shows "take (length (consulted st)) (consulted s) = consulted st \<and>
         consult_name ` set (drop (length (consulted st)) (consulted s)) \<subseteq> {name rule}"
  using assms
  by (auto simp: rule_step_def Let_def consulted_record_match
           split: option.splits sum.splits bool.splits if_splits)

lemma rule_result_SomeD:
  assumes "rule_result cel L now tx md rule = Some tag"
  obtains p where "PROCESSORS (rule_type rule) = Some p"
    and "check_rule_conditions L tx md (conditions rule) = Inr True"
    and "processor_process cel L now p tx md (rule_config rule) = Inr tag"
    and "py_truthy tag"
  using assms
  by (auto simp: rule_result_def split: option.splits sum.splits bool.splits if_splits)

lemma rule_step_early_exit:
  assumes "rule_result cel L now tx md rule = Some tag" and "priority rule < 50"
  shows "rule_step cel L now tx md st rule =
     Inr (True, record_match L rule tag
            (st\<lparr> consulted := consulted st @
                     [GuardChecked (name rule), ProcessorInvoked (name rule)] \<rparr>))"
proof -
  from assms(1) obtain p where "PROCESSORS (rule_type rule) = Some p"
    "check_rule_conditions L tx md (conditions rule) = Inr True"
    "processor_process cel L now p tx md (rule_config rule) = Inr tag" "py_truthy tag"
    by (rule rule_result_SomeD)
  with assms(2) show ?thesis by (simp add: rule_step_def Let_def stock_confidence_def)
qed

lemma run_rules_early_exit:
  assumes "rule_result cel L now tx md rule = Some tag" and "priority rule < 50"
  shows "run_rules cel L now tx md st (before @ rule # later) =
         run_rules cel L now tx md st (before @ [rule])"
proof (induction before arbitrary: st)
  case Nil
  show ?case by (simp add: run_rules_Cons rule_step_early_exit[OF assms] del: run_rules.simps)
next
  case (Cons b before)
  show ?case
    by (simp add: run_rules_Cons Cons.IH del: run_rules.simps split: sum.splits prod.splits)
qed

lemma run_rules_consulted:
  "run_rules cel L now tx md st rules = Inr st' \<Longrightarrow>
   take (length (consulted st)) (consulted st') = consulted st \<and>
   consult_name ` set (drop (length (consulted st)) (consulted st')) \<subseteq> name ` set rules"
proof (induction rules arbitrary: st)
  case Nil
  then show ?case by simp
next
  case (Cons rule rules)
  from Cons.prems obtain stop s where
    step: "rule_step cel L now tx md st rule = Inr (stop, s)"
    and rest: "if stop then st' = s else run_rules cel L now tx md s rules = Inr st'"
    by (auto simp: run_rules_Cons simp del: run_rules.simps split: sum.splits prod.splits if_splits)
  note c = rule_step_consulted[OF step]
  show ?case
  proof (cases stop)
    case True
    with rest c show ?thesis by auto
  next
    case False
    with rest have "run_rules cel L now tx md s rules = Inr st'" by simp
    note ih = Cons.IH[OF this]
    from c have len: "length (consulted st) \<le> length (consulted s)"
      by (metis length_take min.cobounded2 min.commute)
    from c obtain tr where s: "consulted s = consulted st @ tr"
      and tr: "consult_name ` set tr \<subseteq> {name rule}"
      by (metis append_take_drop_id)
    from ih obtain tr' where s': "consulted st' = consulted s @ tr'"
      and tr': "consult_name ` set tr' \<subseteq> name ` set rules"
      by (metis append_take_drop_id)
    from s s' have "consulted st' = consulted st @ (tr @ tr')" by simp
    with tr tr' show ?thesis by auto
  qed
qed


text \<open>
  Claim C5. When a rule of priority below 50 matches (its confidence is the stock 1.0,
  above 0.9), the loop ends with it: the result is the same whatever rules follow, the
  consultations recorded end with the processor call of that rule, and every
  consultation belongs to that rule or to a rule before it.
\<close>

theorem early_exit_consults_no_later_rule:
  assumes "rule_result cel L now tx md rule = Some tag" and "priority rule < 50"
  shows "stock_confidence > 9 / 10 \<and>
    run_rules cel L now tx md st (before @ rule # later) =
      run_rules cel L now tx md st (before @ [rule]) \<and>
    run_rules cel L now tx md st (rule # later) =
      Inr (record_match L rule tag
             (st\<lparr> consulted := consulted st @
                      [GuardChecked (name rule), ProcessorInvoked (name rule)] \<rparr>)) \<and>
    (run_rules cel L now tx md st (before @ rule # later) = Inr st' \<longrightarrow>
       take (length (consulted st)) (consulted st') = consulted st \<and>
       consult_name ` set (drop (length (consulted st)) (consulted st'))
         \<subseteq> name ` set (before @ [rule]))"
proof (intro conjI impI)
  show "stock_confidence > 9 / 10" by (simp add: stock_confidence_def)
  show "run_rules cel L now tx md st (before @ rule # later) =
      run_rules cel L now tx md st (before @ [rule])"
    by (rule run_rules_early_exit[OF assms])
  show "run_rules cel L now tx md st (rule # later) =
      Inr (record_match L rule tag
             (st\<lparr> consulted := consulted st @
                      [GuardChecked (name rule), ProcessorInvoked (name rule)] \<rparr>))"
    by (simp add: run_rules_Cons rule_step_early_exit[OF assms] del: run_rules.simps)
next
  assume "run_rules cel L now tx md st (before @ rule # later) = Inr st'"
  with run_rules_early_exit[OF assms, of st before later]
  have r: "run_rules cel L now tx md st (before @ [rule]) = Inr st'"
    by (rule subst)
  from run_rules_consulted[OF r]
  show "take (length (consulted st)) (consulted st') = consulted st"
    and "consult_name ` set (drop (length (consulted st)) (consulted st'))
         \<subseteq> name ` set (before @ [rule])"
    by simp_all
qed

lemma rule_result_R1:
  "rule_result cel0 rt0 now tx0 (transaction_metadata tx0) (simple_rule ''R1'' 25 ''PROD_001'' ''A'')
     = Some (PStr ''A'')"
  by (simp add: rule_result_def check_rule_conditions_def simple_rule_def
        PROCESSORS_def processor_process_def SimpleRuleProcessor_process_def py_get_def
        py_items_def transaction_fields_def getattr_transaction_def tx0_def py_contains_def
        py_getitem_def)

text \<open>
  Rules R1 (priority 25) and R2 (priority 40) both match: only R1 is consulted.
\<close>

theorem early_exit_consults_no_later_rule_witness:
  "rule_result cel0 rt0 ''2024-06-01T12:00:00+00:00'' tx0 (transaction_metadata tx0)
      (simple_rule ''R1'' 25 ''PROD_001'' ''A'') = Some (PStr ''A'') \<and>
   priority (simple_rule ''R1'' 25 ''PROD_001'' ''A'') < 50 \<and>
   active_rules db_exit acme =
      [simple_rule ''R1'' 25 ''PROD_001'' ''A'', simple_rule ''R2'' 40 ''PROD_001'' ''B''] \<and>
   map_sum id consulted
     (run_rules cel0 rt0 ''2024-06-01T12:00:00+00:00'' tx0 (transaction_metadata tx0) initial_state
        (active_rules db_exit acme)) =
     Inr [GuardChecked ''R1'', ProcessorInvoked ''R1'']"
proof -
  let ?R1 = "simple_rule ''R1'' 25 ''PROD_001'' ''A''"
  have p: "priority ?R1 < 50" by (simp add: simple_rule_def)
  have a: "active_rules db_exit acme = [?R1, simple_rule ''R2'' 40 ''PROD_001'' ''B'']"
    by (simp add: active_rules_def db_exit_def acme_def simple_rule_def)
  from early_exit_consults_no_later_rule[OF rule_result_R1 p,
         of "''2024-06-01T12:00:00+00:00''" initial_state "[]" "[simple_rule ''R2'' 40 ''PROD_001'' ''B'']",
         THEN conjunct2, THEN conjunct2, THEN conjunct1]
  have "run_rules cel0 rt0 ''2024-06-01T12:00:00+00:00'' tx0 (transaction_metadata tx0) initial_state
          (active_rules db_exit acme) =
        Inr (record_match rt0 ?R1 (PStr ''A'')
              (initial_state\<lparr> consulted := consulted initial_state @
                 [GuardChecked (name ?R1), ProcessorInvoked (name ?R1)] \<rparr>))"
    by (simp only: a)
  with rule_result_R1 p a show ?thesis
    by (simp add: consulted_record_match initial_state_def simple_rule_def)
qed

text \<open>
  An exception of the processor is caught: the rule is noted as failed and the loop goes
  on with the next rule.
\<close>

lemma processor_error_is_skipped:
  assumes "PROCESSORS (rule_type rule) = Some p"
    and "check_rule_conditions L tx md (conditions rule) = Inr True"
    and "processor_process cel L now p tx md (rule_config rule) = Inl e"
  shows "run_rules cel L now tx md st (rule # rules) =
     run_rules cel L now tx md
       (st\<lparr> consulted := consulted st @ [GuardChecked (name rule), ProcessorInvoked (name rule)],
             note_lines := note_lines st @ [note_failed L rule e] \<rparr>) rules"
  using assms by (simp add: Let_def)

text \<open>
  Claim C2 fails on the code for the guard: \<^verbatim>\<open>_check_rule_conditions\<close> is called
  outside the \<^verbatim>\<open>try\<close>. The guard of the first rule has no \<^verbatim>\<open>field\<close> key, so
  \<^verbatim>\<open>None.startswith\<close> raises \<^verbatim>\<open>AttributeError\<close>, and \<open>tag_transaction\<close> raises
  it, although the second rule matches the transaction.
\<close>

theorem guard_error_fails_tag_transaction:
  "tag_transaction cel0 rt0 ''2024-06-01T12:00:00+00:00'' db_guard tx0 acme = Inl AttributeError"
proof -
  have a: "active_rules db_guard acme = [guarded_rule, simple_rule ''R1'' 60 ''PROD_001'' ''HIGH'']"
    by (simp add: active_rules_def db_guard_def acme_def simple_rule_def guarded_rule_def)
  have g: "check_rule_conditions rt0 tx0 (transaction_metadata tx0) (conditions guarded_rule)
             = Inl AttributeError"
    by (simp add: check_rule_conditions_def guarded_rule_def simple_rule_def
          evaluate_condition.simps py_contains_def py_get_def get_field_value_def)
  have t: "PROCESSORS (rule_type guarded_rule) = Some SimpleProc"
    by (simp add: guarded_rule_def simple_rule_def PROCESSORS_def)
  show ?thesis by (simp add: tag_transaction_def a g t)
qed

section \<open>Manual overrides\<close>

lemma state_ok_initial: "state_ok initial_state"
  by (simp add: state_ok_def initial_state_def)

lemma rule_step_state_ok:
  assumes "rule_step cel L now tx md st rule = Inr (stop, s)" and "state_ok st"
  shows "state_ok s"
  using assms
  by (auto simp: rule_step_def Let_def state_ok_def record_match_def stock_confidence_def
           split: option.splits sum.splits bool.splits if_splits)

lemma run_rules_state_ok:
  "run_rules cel L now tx md st rules = Inr st' \<Longrightarrow> state_ok st \<Longrightarrow> state_ok st'"
proof (induction rules arbitrary: st)
  case Nil
  then show ?case by simp
next
  case (Cons rule rules)
  from Cons.prems(1) obtain stop s where
    step: "rule_step cel L now tx md st rule = Inr (stop, s)"
    and rest: "if stop then st' = s else run_rules cel L now tx md s rules = Inr st'"
    by (auto simp: run_rules_Cons simp del: run_rules.simps split: sum.splits prod.splits if_splits)
  note ok = rule_step_state_ok[OF step Cons.prems(2)]
  show ?case
  proof (cases stop)
    case True
    with rest ok show ?thesis by simp
  next
    case False
    with rest have "run_rules cel L now tx md s rules = Inr st'" by simp
    from Cons.IH[OF this ok] show ?thesis .
  qed
qed

lemma update_existing_tag:
  assumes "update_or_create_tag L rows t c tag conf txt now = Inr rows'"
    and "r \<in> set rows" "tag_transaction_id r = t" "tag_company r = c"
  shows "rows' = map (\<lambda>x. if tag_transaction_id x = t \<and> tag_company x = c
                          then x\<lparr> tag_code := PStr (py_str L tag), confidence_score := conf,
                                 processing_notes := txt, tag_updated_at := now \<rparr>
                          else x) rows"
proof -
  from assms(2-4) have "r \<in> set (tag_rows rows t c)" by (simp add: tag_rows_def)
  then have "tag_rows rows t c \<noteq> []" by auto
  with assms(1) show ?thesis
    by (auto simp: update_or_create_tag_def split: list.splits)
qed

text \<open>
  Claim C4, amended. The engine does not read \<open>is_manual_override\<close>. When the call
  returns a tag, the stored row of the pair is overwritten, manual override or not: its
  tag, confidence, notes and update time are replaced and the flag itself stays as it
  was. The row is left unchanged only when no rule yields a tag.
\<close>

theorem manual_override_overwritten:
  assumes "tag_transaction cel L now db tx c = Inr (t, db')"
    and "r \<in> set (transaction_tags db)"
    and "tag_transaction_id r = tx_id tx" and "tag_company r = company_id c"
    and "is_manual_override r"
  shows "(\<not> py_truthy t \<longrightarrow> db' = db) \<and>
    (py_truthy t \<longrightarrow>
       transaction_tags db' =
         map (\<lambda>x. if tag_transaction_id x = tx_id tx \<and> tag_company x = company_id c
                   then overwrite_tag L t (tagging_notes cel L now db tx c) now x else x)
             (transaction_tags db) \<and>
       overwrite_tag L t (tagging_notes cel L now db tx c) now r \<in> set (transaction_tags db') \<and>
       is_manual_override (overwrite_tag L t (tagging_notes cel L now db tx c) now r))"
proof -
  from assms(1) obtain st where
    run: "run_rules cel L now tx (transaction_metadata tx) initial_state (active_rules db c) = Inr st"
    by (auto simp: tag_transaction_def split: sum.splits)
  from run_rules_state_ok[OF run state_ok_initial] have ok: "state_ok st" .
  show ?thesis
  proof (cases "py_truthy (best_tag st)")
    case False
    with assms(1) run show ?thesis by (simp add: tag_transaction_def)
  next
    case True
    with ok have conf: "best_confidence st = stock_confidence" by (auto simp: state_ok_def)
    from True assms(1) run obtain rows where
      u: "update_or_create_tag L (transaction_tags db) (tx_id tx) (company_id c)
            (best_tag st) (best_confidence st) (join_lines (note_lines st)) now = Inr rows"
      and t: "t = best_tag st" and d: "db' = db\<lparr> transaction_tags := rows \<rparr>"
      by (auto simp: tag_transaction_def split: sum.splits)
    have n: "tagging_notes cel L now db tx c = join_lines (note_lines st)"
      by (simp add: tagging_notes_def run)
    have o: "\<And>x. overwrite_tag L t (tagging_notes cel L now db tx c) now x =
               x\<lparr> tag_code := PStr (py_str L (best_tag st)), confidence_score := best_confidence st,
                  processing_notes := join_lines (note_lines st), tag_updated_at := now \<rparr>"
      by (simp add: overwrite_tag_def n t conf)
    from update_existing_tag[OF u assms(2) assms(3) assms(4)]
    have rows: "rows = map (\<lambda>x. if tag_transaction_id x = tx_id tx \<and> tag_company x = company_id c
                   then overwrite_tag L t (tagging_notes cel L now db tx c) now x else x)
             (transaction_tags db)"
      by (simp add: o)
    have mem: "overwrite_tag L t (tagging_notes cel L now db tx c) now r \<in> set rows"
      using assms(2) assms(3) assms(4) by (subst rows) force
    from True t rows mem d assms(5) show ?thesis by (simp add: overwrite_tag_def)
  qed
qed


lemma db_manual_run:
  "run_rules cel0 rt0 now tx0 (transaction_metadata tx0) initial_state (active_rules db_manual acme) =
     Inr \<lparr> best_tag = PStr ''HIGH'', best_confidence = 1, note_lines = [note_R1_HIGH],
           consulted = [GuardChecked ''R1'', ProcessorInvoked ''R1''] \<rparr>"
  by (simp add: active_rules_def db_manual_def acme_def simple_rule_def
        check_rule_conditions_def PROCESSORS_def processor_process_def
        SimpleRuleProcessor_process_def py_get_def py_items_def transaction_fields_def
        getattr_transaction_def tx0_def py_contains_def py_getitem_def stock_confidence_def
        record_match_def initial_state_def note_matched_def py_str_def note_R1_HIGH_def)

lemma db_manual_tagged:
  "tag_transaction cel0 rt0 now db_manual tx0 acme =
     Inr (PStr ''HIGH'',
          db_manual\<lparr> transaction_tags :=
            [manual_row\<lparr> tag_code := PStr ''HIGH'', confidence_score := 1,
                          processing_notes := note_R1_HIGH, tag_updated_at := now \<rparr>] \<rparr>)"
  by (simp add: tag_transaction_def db_manual_run)
     (simp add: update_or_create_tag_def tag_rows_def db_manual_def manual_row_def tx0_def acme_def
        py_str_def)

text \<open>
  Claim C4 as stated fails: a row with \<open>is_manual_override = True\<close> and tag
  \<^verbatim>\<open>MANUAL\<close> holds the tag \<^verbatim>\<open>HIGH\<close> after the engine has run.
\<close>

theorem manual_override_counterexample:
  "is_manual_override manual_row \<and>
   transaction_tags db_manual = [manual_row] \<and>
   tag_code manual_row = PStr ''MANUAL'' \<and>
   map_sum id (\<lambda>res. map tag_code (transaction_tags (snd res)))
     (tag_transaction cel0 rt0 ''2024-06-01T12:00:00+00:00'' db_manual tx0 acme) =
     Inr [PStr ''HIGH'']"
  by (simp add: db_manual_tagged) (simp add: manual_row_def db_manual_def)

text \<open>
  The manual row of the example after the call: tag, confidence, notes and update time
  are those of the engine.
\<close>

theorem manual_override_overwritten_witness:
  "manual_row \<in> set (transaction_tags db_manual) \<and>
   tag_transaction_id manual_row = tx_id tx0 \<and> tag_company manual_row = company_id acme \<and>
   is_manual_override manual_row \<and>
   py_truthy (PStr ''HIGH'') \<and>
   overwrite_tag rt0 (PStr ''HIGH'')
       (tagging_notes cel0 rt0 ''2024-06-01T12:00:00+00:00'' db_manual tx0 acme)
       ''2024-06-01T12:00:00+00:00'' manual_row
     = manual_row\<lparr> tag_code := PStr ''HIGH'', confidence_score := 1,
                    processing_notes := note_R1_HIGH,
                    tag_updated_at := ''2024-06-01T12:00:00+00:00'' \<rparr>"
proof -
  let ?now = "''2024-06-01T12:00:00+00:00''"
  have h1: "manual_row \<in> set (transaction_tags db_manual)" by (simp add: db_manual_def)
  have h2: "tag_transaction_id manual_row = tx_id tx0" by (simp add: manual_row_def tx0_def)
  have h3: "tag_company manual_row = company_id acme" by (simp add: manual_row_def acme_def)
  have h4: "is_manual_override manual_row" by (simp add: manual_row_def)
  from manual_override_overwritten[OF db_manual_tagged[of ?now] h1 h2 h3 h4]
  have "overwrite_tag rt0 (PStr ''HIGH'') (tagging_notes cel0 rt0 ?now db_manual tx0 acme) ?now manual_row
          = manual_row\<lparr> tag_code := PStr ''HIGH'', confidence_score := 1,
                          processing_notes := note_R1_HIGH, tag_updated_at := ?now \<rparr>"
    by simp
  with h1 h2 h3 h4 show ?thesis by simp
qed

section \<open>Idempotence of tagging\<close>

lemma entry_expression_get:
  "list_all (\<lambda>e. cel e c1 = cel e c2) (entry_expression rc) \<Longrightarrow>
   py_get rc ''expression'' (PStr []) = Inr e \<Longrightarrow> py_truthy e \<Longrightarrow> cel e c1 = cel e c2"
  by (cases rc) (auto simp: entry_expression_def py_get_def split: option.splits)

lemma evaluate_single_expression_same:
  assumes "list_all (\<lambda>e. cel e c1 = cel e c2) (entry_expression rc)"
  shows "evaluate_single_expression cel L rc c1 = evaluate_single_expression cel L rc c2"
proof (cases "py_get rc ''expression'' (PStr [])")
  case (Inl x)
  then show ?thesis by (simp add: evaluate_single_expression_def)
next
  case (Inr e)
  show ?thesis
  proof (cases "py_truthy e")
    case False
    with Inr show ?thesis
      by (simp add: evaluate_single_expression_def cong: sum.case_cong)
  next
    case True
    from entry_expression_get[OF assms Inr True] Inr show ?thesis
      by (simp add: evaluate_single_expression_def cong: sum.case_cong if_cong)
  qed
qed

lemma first_cel_condition_same:
  "list_all (\<lambda>e. cel e c1 = cel e c2) (concat (map entry_expression clauses)) \<Longrightarrow>
   first_cel_condition cel c1 d clauses = first_cel_condition cel c2 d clauses"
proof (induction clauses)
  case Nil
  show ?case by simp
next
  case (Cons condition rest)
  from Cons.prems have here: "list_all (\<lambda>e. cel e c1 = cel e c2) (entry_expression condition)"
    and rest: "list_all (\<lambda>e. cel e c1 = cel e c2) (concat (map entry_expression rest))"
    by simp_all
  note ih = Cons.IH[OF rest]
  show ?case
  proof (cases "py_get condition ''expression'' (PStr [])")
    case (Inl x)
    then show ?thesis by simp
  next
    case (Inr e)
    show ?thesis
    proof (cases "py_truthy e")
      case False
      with Inr ih show ?thesis by (simp cong: sum.case_cong)
    next
      case True
      from entry_expression_get[OF here Inr True] Inr ih show ?thesis
        by (simp cong: sum.case_cong if_cong)
    qed
  qed
qed

lemma cel_process_body_not_dict:
  assumes "\<And>kvs. rc \<noteq> PDict kvs"
  shows "cel_process_body cel L rc c1 = cel_process_body cel L rc c2"
proof -
  have g: "\<And>k d. py_get rc k d = Inl AttributeError"
    using assms by (cases rc) (auto simp: py_get_def)
  show ?thesis
    by (simp add: cel_process_body_def evaluate_single_expression_def evaluate_conditions_def g
          cong: sum.case_cong bool.case_cong)
qed

lemma cel_process_body_same:
  assumes "list_all (\<lambda>e. cel e c1 = cel e c2) (cel_expressions rc)"
  shows "cel_process_body cel L rc c1 = cel_process_body cel L rc c2"
proof (cases "\<exists>kvs. rc = PDict kvs")
  case False
  then show ?thesis by (intro cel_process_body_not_dict) simp
next
  case True
  then obtain kvs where rc: "rc = PDict kvs" by blast
  from assms rc have e: "list_all (\<lambda>e. cel e c1 = cel e c2) (entry_expression rc)"
    by (simp add: cel_expressions_def)
  note single = evaluate_single_expression_same[OF e]
  have conds: "evaluate_conditions cel rc c1 = evaluate_conditions cel rc c2"
  proof (cases "map_of kvs ''conditions''")
    case None
    then show ?thesis
      by (simp add: evaluate_conditions_def rc py_get_def py_iter_def)
  next
    case (Some cs)
    show ?thesis
    proof (cases "py_iter cs")
      case (Inl x)
      with Some show ?thesis
        by (simp add: evaluate_conditions_def rc py_get_def)
    next
      case (Inr clauses)
      with Some assms rc
      have "list_all (\<lambda>e. cel e c1 = cel e c2) (concat (map entry_expression clauses))"
        by (simp add: cel_expressions_def)
      from first_cel_condition_same[OF this] Some Inr show ?thesis
        by (simp add: evaluate_conditions_def rc py_get_def)
    qed
  qed
  have script: "\<And>sc. map_of kvs ''script'' = Some sc \<Longrightarrow>
                  legacy_script cel L sc c1 = legacy_script cel L sc c2"
  proof -
    fix sc
    assume "map_of kvs ''script'' = Some sc"
    with assms rc have "cel sc c1 = cel sc c2" by (simp add: cel_expressions_def)
    then have "list_all (\<lambda>e. cel e c1 = cel e c2) (entry_expression (PDict [(''expression'', sc)]))"
      by (simp add: entry_expression_def)
    from evaluate_single_expression_same[OF this]
    show "legacy_script cel L sc c1 = legacy_script cel L sc c2"
      by (simp add: legacy_script_def)
  qed
  show ?thesis
  proof (cases "map_of kvs ''script''")
    case None
    with single conds show ?thesis
      by (simp add: cel_process_body_def rc py_contains_def py_get_def
            cong: sum.case_cong bool.case_cong)
  next
    case (Some sc)
    with single conds script[OF Some] show ?thesis
      by (simp add: cel_process_body_def rc py_contains_def py_get_def
            cong: sum.case_cong bool.case_cong)
  qed
qed

lemma CelRuleProcessor_process_same:
  assumes "same_evaluation cel (cel_context L n1 tx md) (cel_context L n2 tx md) (cel_expressions rc)"
  shows "CelRuleProcessor_process cel L n1 tx md rc = CelRuleProcessor_process cel L n2 tx md rc"
proof (cases "cel_context L n1 tx md")
  case (Inl x)
  with assms obtain y where "cel_context L n2 tx md = Inl y"
    by (cases "cel_context L n2 tx md") (simp_all add: same_evaluation_def)
  with Inl show ?thesis by (simp add: CelRuleProcessor_process_def)
next
  case (Inr c1)
  with assms obtain c2 where c2: "cel_context L n2 tx md = Inr c2"
    and "list_all (\<lambda>e. cel e c1 = cel e c2) (cel_expressions rc)"
    by (cases "cel_context L n2 tx md") (simp_all add: same_evaluation_def)
  from cel_process_body_same[OF this(2)] Inr c2 show ?thesis
    by (simp add: CelRuleProcessor_process_def)
qed

lemma rule_step_clock:
  assumes "PROCESSORS (rule_type rule) = Some CelProc \<longrightarrow>
           same_evaluation cel (cel_context L n1 tx md) (cel_context L n2 tx md)
             (cel_expressions (rule_config rule))"
  shows "rule_step cel L n1 tx md st rule = rule_step cel L n2 tx md st rule"
proof (cases "PROCESSORS (rule_type rule)")
  case None
  then show ?thesis by (simp add: rule_step_def)
next
  case (Some p)
  have "processor_process cel L n1 p tx md (rule_config rule) =
        processor_process cel L n2 p tx md (rule_config rule)"
  proof (cases p)
    case CelProc
    with Some assms CelRuleProcessor_process_same show ?thesis
      by (simp add: processor_process_def)
  qed (simp_all add: processor_process_def)
  with Some show ?thesis
    by (simp add: rule_step_def cong: sum.case_cong bool.case_cong if_cong)
qed

lemma run_rules_clock:
  assumes "list_all
       (\<lambda>r. PROCESSORS (rule_type r) = Some CelProc \<longrightarrow>
             same_evaluation cel (cel_context L n1 tx md) (cel_context L n2 tx md)
               (cel_expressions (rule_config r))) rules"
  shows "run_rules cel L n1 tx md st rules = run_rules cel L n2 tx md st rules"
  using assms
proof (induction rules arbitrary: st)
  case Nil
  show ?case by simp
next
  case (Cons rule rules)
  from Cons.prems have here: "PROCESSORS (rule_type rule) = Some CelProc \<longrightarrow>
           same_evaluation cel (cel_context L n1 tx md) (cel_context L n2 tx md)
             (cel_expressions (rule_config rule))"
    and rest: "list_all
       (\<lambda>r. PROCESSORS (rule_type r) = Some CelProc \<longrightarrow>
             same_evaluation cel (cel_context L n1 tx md) (cel_context L n2 tx md)
               (cel_expressions (rule_config r))) rules"
    by simp_all
  show ?case
    by (simp add: run_rules_Cons rule_step_clock[OF here] Cons.IH[OF rest]
             del: run_rules.simps cong: sum.case_cong prod.case_cong if_cong)
qed

lemma tag_rows_map:
  "tag_rows (map (\<lambda>r. if tag_transaction_id r = t \<and> tag_company r = c
                        then r\<lparr> tag_code := tag, confidence_score := conf,
                               processing_notes := txt, tag_updated_at := now \<rparr>
                        else r) rows) t c =
   map (\<lambda>r. r\<lparr> tag_code := tag, confidence_score := conf,
                  processing_notes := txt, tag_updated_at := now \<rparr>) (tag_rows rows t c)"
  by (induction rows) (auto simp: tag_rows_def)

lemma update_or_create_tag_rows:
  assumes "update_or_create_tag L rows t c tag conf txt now = Inr rows'"
  shows "map tag_code (tag_rows rows' t c) = [PStr (py_str L tag)]"
proof (cases "tag_rows rows t c")
  case Nil
  with assms have "rows' = rows @ [\<lparr> tag_transaction_id = t, tag_company = c,
                         tag_code = PStr (py_str L tag),
                         confidence_score = conf, is_manual_override = False,
                         processing_notes = txt, tag_created_at = now,
                         tag_updated_at = now \<rparr>]"
    by (simp add: update_or_create_tag_def)
  with Nil show ?thesis unfolding tag_rows_def by simp
next
  case (Cons x xs)
  with assms have xs: "xs = []" by (cases xs) (simp_all add: update_or_create_tag_def)
  with Cons assms have "rows' = map (\<lambda>r. if tag_transaction_id r = t \<and> tag_company r = c
                         then r\<lparr> tag_code := PStr (py_str L tag), confidence_score := conf,
                                processing_notes := txt, tag_updated_at := now \<rparr>
                         else r) rows"
    by (simp add: update_or_create_tag_def)
  with Cons xs show ?thesis by (simp add: tag_rows_map)
qed

lemma tag_transaction_rows:
  assumes "length (tag_rows (transaction_tags db) (tx_id tx) (company_id c)) \<le> 1"
    and "tag_transaction cel L now db tx c = Inr (t, db')"
  shows "length (tag_rows (transaction_tags db') (tx_id tx) (company_id c)) \<le> 1 \<and>
    (py_truthy t \<longrightarrow>
       map tag_code (tag_rows (transaction_tags db') (tx_id tx) (company_id c)) =
         [PStr (py_str L t)])"
proof -
  from assms(2) obtain st where
    run: "run_rules cel L now tx (transaction_metadata tx) initial_state (active_rules db c) = Inr st"
    by (auto simp: tag_transaction_def split: sum.splits)
  show ?thesis
  proof (cases "py_truthy (best_tag st)")
    case False
    with assms(2) run have "t = PNone" "db' = db" by (simp_all add: tag_transaction_def)
    with assms(1) show ?thesis by simp
  next
    case True
    with assms(2) run obtain rows1 where
      u1: "update_or_create_tag L (transaction_tags db) (tx_id tx) (company_id c)
            (best_tag st) (best_confidence st) (join_lines (note_lines st)) now = Inr rows1"
      and t: "t = best_tag st" and d1: "db' = db\<lparr> transaction_tags := rows1 \<rparr>"
      by (auto simp: tag_transaction_def split: sum.splits)
    have tt: "transaction_tags db' = rows1" by (simp add: d1)
    from update_or_create_tag_rows[OF u1]
    have r1: "map tag_code (tag_rows rows1 (tx_id tx) (company_id c)) = [PStr (py_str L t)]"
      by (simp add: t)
    then have "length (tag_rows rows1 (tx_id tx) (company_id c)) = 1"
      by (metis length_map length_Cons list.size(3) One_nat_def)
    with r1 tt show ?thesis by simp
  qed
qed

text \<open>
  Claim C8, amended. Let the pair of transaction and company have at most one stored tag
  row (the uniqueness constraint of the table) and let a first call return. Then the
  pair still has at most one row, and that row holds \<^verbatim>\<open>str\<close> of the returned tag when
  a tag is returned; the same holds after every second call that returns. If in
  addition the active rules of the company are clock-free between the two calls (each
  expression of each of its CEL rules evaluates to the same value at both readings of
  the clock, which is so when none of them reads \<^verbatim>\<open>now\<close>), then the second call, with
  unchanged rules and metadata, returns, and it returns the same tag as the first.
\<close>

theorem tagging_idempotent:
  assumes rows: "length (tag_rows (transaction_tags db) (tx_id tx) (company_id c)) \<le> 1"
    and first: "tag_transaction cel L now1 db tx c = Inr (t, dba)"
  shows "length (tag_rows (transaction_tags dba) (tx_id tx) (company_id c)) \<le> 1 \<and>
    (py_truthy t \<longrightarrow>
       map tag_code (tag_rows (transaction_tags dba) (tx_id tx) (company_id c)) =
         [PStr (py_str L t)]) \<and>
    (\<forall>t2 dbb. tag_transaction cel L now2 dba tx c = Inr (t2, dbb) \<longrightarrow>
       length (tag_rows (transaction_tags dbb) (tx_id tx) (company_id c)) \<le> 1 \<and>
       (py_truthy t2 \<longrightarrow>
          map tag_code (tag_rows (transaction_tags dbb) (tx_id tx) (company_id c)) =
            [PStr (py_str L t2)])) \<and>
    (clock_free cel L tx now1 now2 (active_rules db c) \<longrightarrow>
       (\<exists>dbb. tag_transaction cel L now2 dba tx c = Inr (t, dbb)))"
proof -
  let ?md = "transaction_metadata tx"
  note after1 = tag_transaction_rows[OF rows first]
  then have rows1: "length (tag_rows (transaction_tags dba) (tx_id tx) (company_id c)) \<le> 1"
    by simp
  have after2: "\<forall>t2 dbb. tag_transaction cel L now2 dba tx c = Inr (t2, dbb) \<longrightarrow>
       length (tag_rows (transaction_tags dbb) (tx_id tx) (company_id c)) \<le> 1 \<and>
       (py_truthy t2 \<longrightarrow>
          map tag_code (tag_rows (transaction_tags dbb) (tx_id tx) (company_id c)) =
            [PStr (py_str L t2)])"
    using tag_transaction_rows[OF rows1] by blast
  have same: "\<exists>dbb. tag_transaction cel L now2 dba tx c = Inr (t, dbb)"
    if free: "clock_free cel L tx now1 now2 (active_rules db c)"
  proof -
    from first obtain st where
      run1: "run_rules cel L now1 tx ?md initial_state (active_rules db c) = Inr st"
      by (auto simp: tag_transaction_def split: sum.splits)
    from free have "run_rules cel L now1 tx ?md initial_state (active_rules db c) =
                    run_rules cel L now2 tx ?md initial_state (active_rules db c)"
      unfolding clock_free_def by (rule run_rules_clock)
    with run1 have run2: "run_rules cel L now2 tx ?md initial_state (active_rules db c) = Inr st"
      by simp
    have rules: "active_rules dba c = active_rules db c"
    proof (cases "py_truthy (best_tag st)")
      case False
      with first run1 have "dba = db" by (simp add: tag_transaction_def)
      then show ?thesis by simp
    next
      case True
      with first run1 obtain rs where "dba = db\<lparr> transaction_tags := rs \<rparr>"
        by (auto simp: tag_transaction_def split: sum.splits)
      then have "tagging_rules dba = tagging_rules db" by simp
      then show ?thesis by (simp add: active_rules_def)
    qed
    show ?thesis
    proof (cases "py_truthy (best_tag st)")
      case False
      with first run1 have "t = PNone" by (simp add: tag_transaction_def)
      with False run2 show ?thesis by (simp add: tag_transaction_def rules)
    next
      case True
      with first run1 have t: "t = best_tag st"
        by (auto simp: tag_transaction_def split: sum.splits)
      from update_or_create_tag_total[OF rows1] obtain rows2 where
        "update_or_create_tag L (transaction_tags dba) (tx_id tx) (company_id c)
            (best_tag st) (best_confidence st) (join_lines (note_lines st)) now2 = Inr rows2"
        by blast
      with True run2 t show ?thesis by (simp add: tag_transaction_def rules)
    qed
  qed
  from after1 after2 same show ?thesis by blast
qed


lemmas engine_eval =
  tag_transaction_def active_rules_def acme_def cel_rule_def
  check_rule_conditions_def PROCESSORS_def processor_process_def
  CelRuleProcessor_process_def cel_process_body_def evaluate_single_expression_def
  cel_context_def transaction_document_def rt0_def cel0_def
  py_get_def py_contains_def py_getitem_def
  stock_confidence_def record_match_def initial_state_def note_matched_def py_str_def
  update_or_create_tag_def tag_rows_def tx0_def transaction_metadata_def
  strip_spaces_def is_space_def engine_row_def

lemma db_clock_first:
  "tag_transaction cel0 rt0 noon db_clock tx0 acme =
     Inr (PStr noon, db_clock\<lparr> transaction_tags := [engine_row ''Clock'' noon noon] \<rparr>)"
  by (simp add: engine_eval db_clock_def noon_def)

lemma db_clock_second:
  "tag_transaction cel0 rt0 noon_later
       (db_clock\<lparr> transaction_tags := [engine_row ''Clock'' noon noon] \<rparr>) tx0 acme =
     Inr (PStr noon_later,
          db_clock\<lparr> transaction_tags :=
            [(engine_row ''Clock'' noon_later noon_later)\<lparr> tag_created_at := noon \<rparr>] \<rparr>)"
  by (simp add: engine_eval db_clock_def noon_def noon_later_def)

text \<open>
  Claim C8 as stated fails: the context of a CEL expression binds \<open>now\<close> to the clock,
  so the rule with expression \<^verbatim>\<open>now\<close> tags the transaction with the time of the
  call, and two calls five seconds apart return two different tags.
\<close>

theorem tagging_idempotent_counterexample:
  "tag_transaction cel0 rt0 noon db_clock tx0 acme =
     Inr (PStr noon, db_clock\<lparr> transaction_tags := [engine_row ''Clock'' noon noon] \<rparr>) \<and>
   map_sum id fst
     (tag_transaction cel0 rt0 noon_later
        (db_clock\<lparr> transaction_tags := [engine_row ''Clock'' noon noon] \<rparr>) tx0 acme) =
     Inr (PStr noon_later) \<and>
   PStr noon \<noteq> PStr noon_later"
  by (simp add: db_clock_first db_clock_second) (simp add: noon_def noon_later_def)

lemma db_tier_clock_free:
  "clock_free cel0 rt0 tx0 noon noon_later (active_rules db_tier acme)"
  by (simp add: clock_free_def same_evaluation_def cel_expressions_def entry_expression_def
        active_rules_def db_tier_def acme_def cel_rule_def PROCESSORS_def
        cel_context_def transaction_document_def rt0_def cel0_def py_getitem_def
        tx0_def transaction_metadata_def)

lemma db_tier_first:
  "tag_transaction cel0 rt0 noon db_tier tx0 acme =
     Inr (PStr ''gold'', db_tier\<lparr> transaction_tags := [engine_row ''Tier'' ''gold'' noon] \<rparr>)"
  by (simp add: engine_eval db_tier_def)

text \<open>
  A CEL rule that reads the metadata only, \<^verbatim>\<open>metadata.customer_tier\<close>: both calls
  return \<^verbatim>\<open>gold\<close> and the pair keeps one row.
\<close>

theorem tagging_idempotent_witness:
  "length (tag_rows (transaction_tags db_tier) (tx_id tx0) (company_id acme)) \<le> 1 \<and>
   tag_transaction cel0 rt0 noon db_tier tx0 acme =
     Inr (PStr ''gold'', db_tier\<lparr> transaction_tags := [engine_row ''Tier'' ''gold'' noon] \<rparr>) \<and>
   py_truthy (PStr ''gold'') \<and>
   clock_free cel0 rt0 tx0 noon noon_later (active_rules db_tier acme) \<and>
   (\<exists>db2. tag_transaction cel0 rt0 noon_later
             (db_tier\<lparr> transaction_tags := [engine_row ''Tier'' ''gold'' noon] \<rparr>) tx0 acme =
           Inr (PStr ''gold'', db2) \<and>
          map tag_code (tag_rows (transaction_tags db2) (tx_id tx0) (company_id acme)) =
            [PStr ''gold''])"
proof -
  have rows: "length (tag_rows (transaction_tags db_tier) (tx_id tx0) (company_id acme)) \<le> 1"
    by (simp add: db_tier_def tag_rows_def)
  note idem = tagging_idempotent[OF rows db_tier_first, where ?now2.0 = noon_later]
  from idem db_tier_clock_free obtain db2 where
    second: "tag_transaction cel0 rt0 noon_later
               (db_tier\<lparr> transaction_tags := [engine_row ''Tier'' ''gold'' noon] \<rparr>) tx0 acme =
             Inr (PStr ''gold'', db2)"
    by blast
  with idem have "map tag_code (tag_rows (transaction_tags db2) (tx_id tx0) (company_id acme)) =
            [PStr (py_str rt0 (PStr ''gold''))]"
    by simp
  then have "map tag_code (tag_rows (transaction_tags db2) (tx_id tx0) (company_id acme)) =
            [PStr ''gold'']"
    by (simp add: py_str_def)
  with second rows db_tier_first db_tier_clock_free show ?thesis by auto
qed


section \<open>The legacy script key of the CEL processor\<close>

lemma map_of_without_script:
  "k \<noteq> ''script'' \<Longrightarrow> map_of (without_script kvs) k = map_of kvs k"
  by (induction kvs) (auto simp: without_script_def)

lemma py_get_without_script:
  "k \<noteq> ''script'' \<Longrightarrow> py_get (PDict (without_script kvs)) k d = py_get (PDict kvs) k d"
  by (simp add: py_get_def map_of_without_script)

lemma py_contains_without_script:
  "k \<noteq> ''script'' \<Longrightarrow> py_contains k (PDict (without_script kvs)) = py_contains k (PDict kvs)"
  by (simp add: py_contains_def map_of_without_script)

lemma cel_modes_ignore_script:
  assumes "map_of kvs ''expression'' \<noteq> None \<or> map_of kvs ''conditions'' \<noteq> None"
  shows "cel_process_body cel L (PDict kvs) ctx = cel_process_body cel L (PDict (without_script kvs)) ctx"
proof -
  have e: "evaluate_single_expression cel L (PDict (without_script kvs)) ctx =
           evaluate_single_expression cel L (PDict kvs) ctx"
    by (simp add: evaluate_single_expression_def py_get_without_script cong: sum.case_cong)
  have c: "evaluate_conditions cel (PDict (without_script kvs)) ctx =
           evaluate_conditions cel (PDict kvs) ctx"
    by (simp add: evaluate_conditions_def py_get_without_script cong: sum.case_cong)
  have x: "py_contains ''expression'' (PDict (without_script kvs)) = py_contains ''expression'' (PDict kvs)"
    and y: "py_contains ''conditions'' (PDict (without_script kvs)) = py_contains ''conditions'' (PDict kvs)"
    by (simp_all add: py_contains_without_script)
  obtain b1 where b1: "py_contains ''expression'' (PDict kvs) = Inr b1"
    by (simp add: py_contains_def)
  obtain b2 where b2: "py_contains ''conditions'' (PDict kvs) = Inr b2"
    by (simp add: py_contains_def)
  from assms b1 b2 have "b1 \<or> b2" by (auto simp: py_contains_def)
  then show ?thesis
    by (cases b1; cases b2) (simp_all add: cel_process_body_def x y e c b1 b2)
qed

text \<open>
  Claim C6, amended. The processor first builds the evaluation context; when that
  raises, it returns \<^verbatim>\<open>None\<close> with the event \<open>cel_evaluation_error\<close>, whatever the
  configuration. When the context is built, for a configuration with neither an
  \<^verbatim>\<open>expression\<close> nor a \<^verbatim>\<open>conditions\<close> key and a string under \<^verbatim>\<open>script\<close>: if the
  text is empty or contains \<^verbatim>\<open>def \<close> or \<^verbatim>\<open>return\<close>, the processor returns
  \<^verbatim>\<open>None\<close> and emits the single event \<open>legacy_python_script\<close>, whatever the evaluator
  would do with the text; otherwise the result is that of evaluating the text as a
  single expression with no default tag. A configuration that has an
  \<^verbatim>\<open>expression\<close> or \<^verbatim>\<open>conditions\<close> key is processed as if it had no
  \<^verbatim>\<open>script\<close> entry.
\<close>

theorem legacy_script_handling:
  "(cel_context L now tx md = Inl x \<longrightarrow>
      CelRuleProcessor_process cel L now tx md config = (PNone, [cel_evaluation_error])) \<and>
   (cel_context L now tx md = Inr ctx \<and>
    map_of kvs ''expression'' = None \<and> map_of kvs ''conditions'' = None \<and>
    map_of kvs ''script'' = Some (PStr s) \<and>
    (s = [] \<or> py_substring ''def '' s \<or> py_substring ''return'' s) \<longrightarrow>
      CelRuleProcessor_process cel L now tx md (PDict kvs) = (PNone, [legacy_python_script])) \<and>
   (cel_context L now tx md = Inr ctx \<and>
    map_of kvs ''expression'' = None \<and> map_of kvs ''conditions'' = None \<and>
    map_of kvs ''script'' = Some (PStr s) \<and>
    s \<noteq> [] \<and> \<not> py_substring ''def '' s \<and> \<not> py_substring ''return'' s \<longrightarrow>
      CelRuleProcessor_process cel L now tx md (PDict kvs) =
        (case cel (PStr s) ctx of
           Inl e \<Rightarrow> (PNone, [cel_expression_error])
         | Inr v \<Rightarrow>
             (case v of
                PStr r \<Rightarrow> (if str_strip L r \<noteq> [] then (v, []) else (PNone, []))
              | _ \<Rightarrow> (PNone, [])))) \<and>
   (map_of kvs ''expression'' \<noteq> None \<or> map_of kvs ''conditions'' \<noteq> None \<longrightarrow>
      CelRuleProcessor_process cel L now tx md (PDict kvs) =
      CelRuleProcessor_process cel L now tx md (PDict (without_script kvs)))"
proof (intro conjI impI)
  assume "cel_context L now tx md = Inl x"
  then show "CelRuleProcessor_process cel L now tx md config = (PNone, [cel_evaluation_error])"
    by (simp add: CelRuleProcessor_process_def)
next
  assume "cel_context L now tx md = Inr ctx \<and>
    map_of kvs ''expression'' = None \<and> map_of kvs ''conditions'' = None \<and>
    map_of kvs ''script'' = Some (PStr s) \<and>
    (s = [] \<or> py_substring ''def '' s \<or> py_substring ''return'' s)"
  then show "CelRuleProcessor_process cel L now tx md (PDict kvs) = (PNone, [legacy_python_script])"
    by (auto simp: CelRuleProcessor_process_def cel_process_body_def py_contains_def py_get_def
          legacy_script_def Let_def split: bool.splits)
next
  assume "cel_context L now tx md = Inr ctx \<and>
    map_of kvs ''expression'' = None \<and> map_of kvs ''conditions'' = None \<and>
    map_of kvs ''script'' = Some (PStr s) \<and>
    s \<noteq> [] \<and> \<not> py_substring ''def '' s \<and> \<not> py_substring ''return'' s"
  then show "CelRuleProcessor_process cel L now tx md (PDict kvs) =
        (case cel (PStr s) ctx of
           Inl e \<Rightarrow> (PNone, [cel_expression_error])
         | Inr v \<Rightarrow>
             (case v of
                PStr r \<Rightarrow> (if str_strip L r \<noteq> [] then (v, []) else (PNone, []))
              | _ \<Rightarrow> (PNone, [])))"
    by (auto simp: CelRuleProcessor_process_def cel_process_body_def py_contains_def py_get_def
          legacy_script_def Let_def evaluate_single_expression_def
          split: sum.splits pyval.splits bool.splits)
next
  assume "map_of kvs ''expression'' \<noteq> None \<or> map_of kvs ''conditions'' \<noteq> None"
  from cel_modes_ignore_script[OF this]
  show "CelRuleProcessor_process cel L now tx md (PDict kvs) =
      CelRuleProcessor_process cel L now tx md (PDict (without_script kvs))"
    by (simp add: CelRuleProcessor_process_def cong: sum.case_cong)
qed

lemma rt0_strip: "str_strip rt0 s = strip_spaces s"
  by (simp add: rt0_def)

lemma rt0_json_to_cel: "json_to_cel rt0 v = (if fits_cel v then Inr v else Inl ValueError)"
  by (simp add: rt0_def)

lemma fits_cel_transaction_document: "fits_cel (transaction_document L tx)"
  by (simp add: transaction_document_def)

lemma tx0_metadata: "transaction_metadata tx0 = PDict [(''customer_tier'', PStr ''gold'')]"
  by (simp add: transaction_metadata_def tx0_def)

lemma tx0_context:
  "cel_context rt0 now tx0 (transaction_metadata tx0) =
     Inr (PDict [(''transaction'', transaction_document rt0 tx0),
                 (''metadata'', PDict [(''customer_tier'', PStr ''gold'')]),
                 (''now'', PStr now)])"
  by (simp add: cel_context_def rt0_json_to_cel fits_cel_transaction_document tx0_metadata)

lemma tx_big_context:
  "cel_context rt0 now tx_big (transaction_metadata tx_big) = Inl ValueError"
  by (simp add: cel_context_def rt0_json_to_cel fits_cel_transaction_document
        transaction_metadata_def tx_big_def)

lemma python_script_def_marker: "py_substring ''def '' python_script"
  by (simp add: python_script_def)

text \<open>
  Claim C6 as stated fails: this configuration has a \<^verbatim>\<open>script\<close> that contains
  \<^verbatim>\<open>def \<close>, yet the processor evaluates its \<^verbatim>\<open>expression\<close>, returns a tag and
  emits no event.
\<close>

theorem legacy_script_counterexample:
  "map_of [(''expression'', PStr ''now''), (''script'', PStr python_script)] ''script''
     = Some (PStr python_script) \<and>
   py_substring ''def '' python_script \<and>
   CelRuleProcessor_process cel0 rt0 noon tx0 (transaction_metadata tx0)
     (PDict [(''expression'', PStr ''now''), (''script'', PStr python_script)]) = (PStr noon, [])"
  by (simp add: python_script_def_marker)
     (simp add: CelRuleProcessor_process_def cel_process_body_def py_contains_def py_get_def
        evaluate_single_expression_def cel0_def tx0_context py_getitem_def noon_def
        rt0_strip strip_spaces_def is_space_def)

lemma tier_script_markers:
  "''metadata.customer_tier'' \<noteq> [] \<and> \<not> py_substring ''def '' ''metadata.customer_tier'' \<and>
   \<not> py_substring ''return'' ''metadata.customer_tier''"
  by simp

text \<open>
  Four configurations. With metadata that the CEL library cannot represent, the
  processor ends with \<open>cel_evaluation_error\<close> before it looks at the script. A Python
  function under \<^verbatim>\<open>script\<close> only is refused. The text
  \<^verbatim>\<open>metadata.customer_tier\<close> under \<^verbatim>\<open>script\<close> only is evaluated as an expression.
  With an \<^verbatim>\<open>expression\<close> beside it, the Python function under \<^verbatim>\<open>script\<close> is
  ignored.
\<close>

theorem legacy_script_handling_witness:
  "(cel_context rt0 noon tx_big (transaction_metadata tx_big) = Inl ValueError \<and>
    CelRuleProcessor_process cel0 rt0 noon tx_big (transaction_metadata tx_big)
      (PDict [(''script'', PStr python_script)]) = (PNone, [cel_evaluation_error])) \<and>
   (cel_context rt0 noon tx0 (transaction_metadata tx0) =
      Inr (PDict [(''transaction'', transaction_document rt0 tx0),
                  (''metadata'', PDict [(''customer_tier'', PStr ''gold'')]),
                  (''now'', PStr noon)]) \<and>
    map_of [(''script'', PStr python_script)] ''expression'' = None \<and>
    map_of [(''script'', PStr python_script)] ''conditions'' = None \<and>
    map_of [(''script'', PStr python_script)] ''script'' = Some (PStr python_script) \<and>
    py_substring ''def '' python_script \<and>
    CelRuleProcessor_process cel0 rt0 noon tx0 (transaction_metadata tx0)
      (PDict [(''script'', PStr python_script)]) = (PNone, [legacy_python_script])) \<and>
   (map_of [(''script'', PStr ''metadata.customer_tier'')] ''script''
      = Some (PStr ''metadata.customer_tier'') \<and>
    ''metadata.customer_tier'' \<noteq> [] \<and> \<not> py_substring ''def '' ''metadata.customer_tier'' \<and>
    \<not> py_substring ''return'' ''metadata.customer_tier'' \<and>
    CelRuleProcessor_process cel0 rt0 noon tx0 (transaction_metadata tx0)
      (PDict [(''script'', PStr ''metadata.customer_tier'')]) = (PStr ''gold'', [])) \<and>
   (map_of [(''expression'', PStr ''now''), (''script'', PStr python_script)] ''expression'' \<noteq> None \<and>
    CelRuleProcessor_process cel0 rt0 noon tx0 (transaction_metadata tx0)
      (PDict [(''expression'', PStr ''now''), (''script'', PStr python_script)]) =
    CelRuleProcessor_process cel0 rt0 noon tx0 (transaction_metadata tx0)
      (PDict [(''expression'', PStr ''now'')]))"
proof -
  let ?ctx = "PDict [(''transaction'', transaction_document rt0 tx0),
                 (''metadata'', PDict [(''customer_tier'', PStr ''gold'')]),
                 (''now'', PStr noon)]"
  let ?md = "transaction_metadata tx0"
  have w1: "CelRuleProcessor_process cel0 rt0 noon tx_big (transaction_metadata tx_big)
      (PDict [(''script'', PStr python_script)]) = (PNone, [cel_evaluation_error])"
    using legacy_script_handling[where L = rt0 and now = noon and tx = tx_big
         and md = "transaction_metadata tx_big" and x = ValueError and cel = cel0
         and config = "PDict [(''script'', PStr python_script)]",
         THEN conjunct1, rule_format, OF tx_big_context] .
  let ?kvs = "[(''script'', PStr python_script)]"
  have h2: "cel_context rt0 noon tx0 ?md = Inr ?ctx \<and>
    map_of ?kvs ''expression'' = None \<and> map_of ?kvs ''conditions'' = None \<and>
    map_of ?kvs ''script'' = Some (PStr python_script) \<and>
    (python_script = [] \<or> py_substring ''def '' python_script \<or> py_substring ''return'' python_script)"
    by (simp add: python_script_def_marker tx0_context)
  have w2: "CelRuleProcessor_process cel0 rt0 noon tx0 ?md (PDict ?kvs) = (PNone, [legacy_python_script])"
    using legacy_script_handling[where L = rt0 and now = noon and tx = tx0
         and md = ?md and ctx = ?ctx and kvs = ?kvs
         and s = python_script and cel = cel0,
         THEN conjunct2, THEN conjunct1, rule_format, OF h2] .
  let ?tier = "[(''script'', PStr ''metadata.customer_tier'')]"
  have h3: "cel_context rt0 noon tx0 ?md = Inr ?ctx \<and>
    map_of ?tier ''expression'' = None \<and> map_of ?tier ''conditions'' = None \<and>
    map_of ?tier ''script'' = Some (PStr ''metadata.customer_tier'') \<and>
    ''metadata.customer_tier'' \<noteq> [] \<and> \<not> py_substring ''def '' ''metadata.customer_tier'' \<and>
    \<not> py_substring ''return'' ''metadata.customer_tier''"
    using tier_script_markers by (simp add: tx0_context)
  have ev: "cel0 (PStr ''metadata.customer_tier'') ?ctx = Inr (PStr ''gold'')"
    by (simp add: cel0_def py_getitem_def)
  have w3: "CelRuleProcessor_process cel0 rt0 noon tx0 ?md (PDict ?tier) = (PStr ''gold'', [])"
    using legacy_script_handling[where L = rt0 and now = noon and tx = tx0
         and md = ?md and ctx = ?ctx and kvs = ?tier
         and s = "''metadata.customer_tier''" and cel = cel0,
         THEN conjunct2, THEN conjunct2, THEN conjunct1, rule_format, OF h3]
    by (simp only: ev sum.case pyval.case rt0_strip) (simp add: strip_spaces_def is_space_def)
  let ?both = "[(''expression'', PStr ''now''), (''script'', PStr python_script)]"
  have h4: "map_of ?both ''expression'' \<noteq> None \<or> map_of ?both ''conditions'' \<noteq> None"
    by simp
  have w4: "CelRuleProcessor_process cel0 rt0 noon tx0 ?md (PDict ?both) =
            CelRuleProcessor_process cel0 rt0 noon tx0 ?md (PDict [(''expression'', PStr ''now'')])"
    using legacy_script_handling[where L = rt0 and now = noon and tx = tx0
         and md = ?md and kvs = ?both and cel = cel0,
         THEN conjunct2, THEN conjunct2, THEN conjunct2, rule_format, OF h4]
    by (simp add: without_script_def)
  from w1 w2 w3 w4 tx_big_context tx0_context python_script_def_marker tier_script_markers
  show ?thesis by simp
qed

section \<open>Export and import of rules\<close>

lemma boolean_field_PBool: "boolean_field (PBool b) = Inr b"
  by (cases b) (simp_all add: boolean_field_def num_eq_def)

lemma json_field_ok: "v \<noteq> PNone \<Longrightarrow> json_field v = Inr v"
  by (cases v) (simp_all add: json_field_def)

lemma validate_rule_config_True: "validate_rule_config J t cfg = Inr b \<Longrightarrow> b"
  by (auto simp: validate_rule_config_def split: if_splits sum.splits bool.splits pyval.splits)

lemma rule_valid_cases:
  "rule_valid J r \<or> (\<exists>e. validate_rule_config J (PStr (rule_type r)) (rule_config r) = Inl e)"
proof (cases "validate_rule_config J (PStr (rule_type r)) (rule_config r)")
  case (Inl e)
  then show ?thesis by simp
next
  case (Inr b)
  with validate_rule_config_True[OF Inr] show ?thesis by (simp add: rule_valid_def)
qed

lemma import_exported_rule:
  assumes "rule_valid J r" and "rule_storable J r"
    and "filter (\<lambda>x. rule_company x = company_id c' \<and> name x = name r) rows = []"
  shows "import_rule L J c' rows (rule_data_of r) =
           Inr (rows @ [r\<lparr> rule_company := company_id c' \<rparr>])"
  using assms
  by (simp add: import_rule_def rule_data_of_def py_getitem_def py_get_def rule_valid_def
        rule_storable_def update_or_create_rule_def char_field_def py_str_def integer_field_def
        store_integer_def json_field_ok boolean_field_PBool)

lemma import_rejected_rule:
  assumes "validate_rule_config J (PStr (rule_type r)) (rule_config r) = Inl e"
  shows "import_rule L J c' rows (rule_data_of r) = Inl e"
  using assms by (simp add: import_rule_def rule_data_of_def py_getitem_def)

lemma rejection_messages_Cons:
  "rejection_messages L J (r # rs) =
     (case validate_rule_config J (PStr (rule_type r)) (rule_config r) of
        Inl e \<Rightarrow> [import_error_message L (PStr (name r)) e]
      | Inr _ \<Rightarrow> []) @ rejection_messages L J rs"
  by (simp add: rejection_messages_def)

lemma import_loop_exported:
  assumes "list_all (rule_storable J) rs"
    and "distinct (map name rs)"
    and "\<forall>x \<in> set rows. rule_company x = company_id c' \<longrightarrow> name x \<notin> name ` set rs"
  shows "import_loop L J c' (map rule_data_of rs) rows n errs =
           (Inr (n + length (filter (rule_valid J) rs), errs @ rejection_messages L J rs),
            rows @ map (\<lambda>r. r\<lparr> rule_company := company_id c' \<rparr>) (filter (rule_valid J) rs))"
  using assms
proof (induction rs arbitrary: rows n errs)
  case Nil
  then show ?case by (simp add: rejection_messages_def)
next
  case (Cons r rs)
  from Cons.prems(1,2) have rest: "list_all (rule_storable J) rs" "distinct (map name rs)"
    and s: "rule_storable J r" by simp_all
  from rule_valid_cases[of J r] show ?case
  proof
    assume v: "rule_valid J r"
    from Cons.prems(3)
    have none: "filter (\<lambda>x. rule_company x = company_id c' \<and> name x = name r) rows = []"
      by (auto simp: filter_empty_conv)
    note step = import_exported_rule[OF v s none, of L]
    let ?rows = "rows @ [r\<lparr> rule_company := company_id c' \<rparr>]"
    have pre: "\<forall>x \<in> set ?rows. rule_company x = company_id c' \<longrightarrow> name x \<notin> name ` set rs"
      using Cons.prems(2,3) by auto
    from v have m: "rejection_messages L J (r # rs) = rejection_messages L J rs"
      by (simp add: rejection_messages_Cons rule_valid_def)
    from Cons.IH[OF rest pre, of "Suc n" errs] step v m show ?thesis by simp
  next
    assume "\<exists>e. validate_rule_config J (PStr (rule_type r)) (rule_config r) = Inl e"
    then obtain e where e: "validate_rule_config J (PStr (rule_type r)) (rule_config r) = Inl e"
      by blast
    then have nv: "\<not> rule_valid J r" by (simp add: rule_valid_def)
    note step = import_rejected_rule[OF e, of L c' rows]
    have nm: "py_get (rule_data_of r) ''name'' (PStr ''Unknown'') = Inr (PStr (name r))"
      by (simp add: rule_data_of_def py_get_def)
    have pre: "\<forall>x \<in> set rows. rule_company x = company_id c' \<longrightarrow> name x \<notin> name ` set rs"
      using Cons.prems(3) by auto
    from e have m: "rejection_messages L J (r # rs) =
                    import_error_message L (PStr (name r)) e # rejection_messages L J rs"
      by (simp add: rejection_messages_Cons)
    from Cons.IH[OF rest pre, of n "errs @ [import_error_message L (PStr (name r)) e]"]
      step nv nm m
    show ?thesis by simp
  qed
qed

lemma company_rules_append:
  "filter (\<lambda>r. rule_company r = cid) (rows @ map (\<lambda>r. r\<lparr> rule_company := cid \<rparr>) rs) =
   filter (\<lambda>r. rule_company r = cid) rows @ map (\<lambda>r. r\<lparr> rule_company := cid \<rparr>) rs"
  by (induction rs) simp_all

lemma distinct_map_insort_key:
  "distinct (map g (insort_key f x xs)) = distinct (map g (x # xs))"
  by (induction xs) (auto simp: set_insort_key)

lemma distinct_map_sort_key:
  "distinct (map g (sort_key f xs)) = distinct (map g xs)"
  by (induction xs) (simp_all add: distinct_map_insort_key)

lemma exported_rules_set: "set (exported_rules db c) = set (company_rules db c)"
  by (simp add: exported_rules_def)

lemma exported_rules_length: "length (exported_rules db c) = length (company_rules db c)"
  by (simp add: exported_rules_def)

lemma exported_rules_distinct:
  "distinct (map name (exported_rules db c)) = distinct (map name (company_rules db c))"
  by (simp add: exported_rules_def distinct_map_sort_key)

lemma rejection_messages_valid:
  "list_all (rule_valid J) rs \<Longrightarrow> rejection_messages L J rs = []"
  by (induction rs) (simp_all add: rejection_messages_Cons rejection_messages_def rule_valid_def)

lemma rejection_messages_member:
  "r \<in> set rs \<Longrightarrow> validate_rule_config J (PStr (rule_type r)) (rule_config r) = Inl e \<Longrightarrow>
   import_error_message L (PStr (name r)) e \<in> set (rejection_messages L J rs)"
  by (induction rs) (auto simp: rejection_messages_Cons split: sum.splits)

lemma rule_fields_valid:
  "rule_fields r = rule_fields r' \<Longrightarrow> rule_valid J r' \<Longrightarrow> rule_valid J r"
  by (simp add: rule_fields_def rule_valid_def)

text \<open>
  Claim C7, amended. Let the rules of the exported company have distinct names (the
  uniqueness constraint of the table) and be rows that the table can hold, and let the
  decoder read back the exported envelope. Importing the export into a company of the
  same (non-empty) code that has no rule yet gives that company exactly the exported
  rules that pass \<open>validate_rule_config\<close>, field by field (name, type, priority,
  configuration, guard, active flag) and in the order of the export; the result counts
  them and lists one error message for each rule that does not pass. So when every rule
  passes, the company ends with the same set of rules and no error; and a rule that does
  not pass is reported in the errors and is not among the rules of the company.
\<close>

theorem export_import_round_trip:
  assumes src: "find (\<lambda>x. code x = cc) (companies src) = Some c"
    and tgt: "find (\<lambda>x. code x = cc) (companies tgt) = Some c'"
    and cc: "cc \<noteq> []"
    and fresh: "company_rules tgt c' = []"
    and names: "distinct (map name (company_rules src c))"
    and storable: "list_all (rule_storable J) (company_rules src c)"
    and codec: "json_loads J (json_dumps J (Some 2) (export_envelope src c cc)) =
                  Inr (export_envelope src c cc)"
  shows "\<exists>tgt'. import_rules_from_json L J tgt (export_rules_to_json J src cc) =
           (Inr (PDict [(''imported'',
                           PInt (int (length (filter (rule_valid J) (exported_rules src c))))),
                        (''errors'',
                           PList (map PStr (rejection_messages L J (exported_rules src c))))]),
            tgt') \<and>
         map rule_fields (company_rules tgt' c') =
           map rule_fields (filter (rule_valid J) (exported_rules src c)) \<and>
         (list_all (rule_valid J) (company_rules src c) \<longrightarrow>
            rejection_messages L J (exported_rules src c) = [] \<and>
            length (company_rules tgt' c') = length (company_rules src c) \<and>
            set (map rule_fields (company_rules tgt' c')) =
              set (map rule_fields (company_rules src c))) \<and>
         (\<forall>r \<in> set (company_rules src c). \<not> rule_valid J r \<longrightarrow>
            rule_fields r \<notin> set (map rule_fields (company_rules tgt' c')) \<and>
            (\<exists>e. validate_rule_config J (PStr (rule_type r)) (rule_config r) = Inl e \<and>
                 import_error_message L (PStr (name r)) e
                   \<in> set (rejection_messages L J (exported_rules src c)))) \<and>
         companies tgt' = companies tgt \<and> transaction_tags tgt' = transaction_tags tgt"
proof -
  let ?rs = "exported_rules src c"
  let ?ok = "filter (rule_valid J) ?rs"
  let ?rows = "tagging_rules tgt @ map (\<lambda>r. r\<lparr> rule_company := company_id c' \<rparr>) ?ok"
  let ?tgt = "tgt\<lparr> tagging_rules := ?rows \<rparr>"
  have ex: "export_rules_to_json J src cc = json_dumps J (Some 2) (export_envelope src c cc)"
    by (simp add: export_rules_to_json_def src)
  from fresh have pre: "\<forall>x \<in> set (tagging_rules tgt).
      rule_company x = company_id c' \<longrightarrow> name x \<notin> name ` set ?rs"
    by (auto simp: company_rules_def filter_empty_conv)
  from storable have storable': "list_all (rule_storable J) ?rs"
    by (simp add: list_all_iff exported_rules_set)
  from names have names': "distinct (map name ?rs)" by (simp add: exported_rules_distinct)
  have loop: "import_loop L J c' (map rule_data_of ?rs) (tagging_rules tgt) 0 [] =
                (Inr (0 + length ?ok, [] @ rejection_messages L J ?rs), ?rows)"
    by (rule import_loop_exported[OF storable' names' pre])
  have imp: "import_rules_from_json L J tgt (export_rules_to_json J src cc) =
           (Inr (PDict [(''imported'', PInt (int (length ?ok))),
                        (''errors'', PList (map PStr (rejection_messages L J ?rs)))]), ?tgt)"
    using cc tgt loop
    by (simp only: import_rules_from_json_def ex codec sum.case)
       (simp add: export_envelope_def py_get_def py_str_def py_iter_def)
  have "company_rules ?tgt c' = map (\<lambda>r. r\<lparr> rule_company := company_id c' \<rparr>) ?ok"
    using fresh by (simp add: company_rules_def company_rules_append)
  then have fields: "map rule_fields (company_rules ?tgt c') = map rule_fields ?ok"
    by (simp add: rule_fields_def)
  have all_valid: "rejection_messages L J ?rs = [] \<and>
            length (company_rules ?tgt c') = length (company_rules src c) \<and>
            set (map rule_fields (company_rules ?tgt c')) =
              set (map rule_fields (company_rules src c))"
    if v: "list_all (rule_valid J) (company_rules src c)"
  proof -
    from v have v': "list_all (rule_valid J) ?rs" by (simp add: list_all_iff exported_rules_set)
    then have ok: "?ok = ?rs" by (simp add: list_all_iff)
    from fields have "length (company_rules ?tgt c') = length ?ok"
      by (metis length_map)
    with ok have len: "length (company_rules ?tgt c') = length (company_rules src c)"
      by (simp add: exported_rules_length)
    from fields ok have "set (map rule_fields (company_rules ?tgt c')) = rule_fields ` set ?rs"
      by simp
    with len rejection_messages_valid[OF v'] show ?thesis
      by (simp add: exported_rules_set)
  qed
  have invalid: "rule_fields r \<notin> set (map rule_fields (company_rules ?tgt c')) \<and>
            (\<exists>e. validate_rule_config J (PStr (rule_type r)) (rule_config r) = Inl e \<and>
                 import_error_message L (PStr (name r)) e \<in> set (rejection_messages L J ?rs))"
    if r: "r \<in> set (company_rules src c)" and nv: "\<not> rule_valid J r" for r
  proof -
    have "rule_fields r \<notin> rule_fields ` set ?ok"
    proof
      assume "rule_fields r \<in> rule_fields ` set ?ok"
      then obtain r' where "rule_fields r = rule_fields r'" "rule_valid J r'" by auto
      from rule_fields_valid[OF this] nv show False by simp
    qed
    with fields have a: "rule_fields r \<notin> set (map rule_fields (company_rules ?tgt c'))" by simp
    from rule_valid_cases[of J r] nv obtain e where
      e: "validate_rule_config J (PStr (rule_type r)) (rule_config r) = Inl e" by blast
    from r have "r \<in> set ?rs" by (simp add: exported_rules_set)
    from rejection_messages_member[OF this e] e a show ?thesis by blast
  qed
  have rest: "companies ?tgt = companies tgt \<and> transaction_tags ?tgt = transaction_tags tgt"
    by simp
  show ?thesis
    apply (rule exI[of _ ?tgt])
    apply (intro conjI)
         apply (rule imp)
        apply (rule fields)
       apply (rule impI, erule all_valid)
      apply (intro ballI impI, erule (1) invalid)
     apply (rule rest[THEN conjunct1])
    apply (rule rest[THEN conjunct2])
    done
qed


lemma document_codec_round_trip:
  "json_loads (document_codec doc text) (json_dumps (document_codec doc text) indent doc) = Inr doc"
  by (simp add: document_codec_def)

lemma find_acme:
  "find (\<lambda>x. code x = ''ACME'') (companies db_draft) = Some acme"
  "find (\<lambda>x. code x = ''ACME'') (companies db_fresh) = Some acme"
  "find (\<lambda>x. code x = ''ACME'') (companies db_manual) = Some acme"
  by (simp_all add: acme_def db_draft_def db_fresh_def db_manual_def)

text \<open>
  Claim C7 as stated fails: a stored rule of type \<^verbatim>\<open>simple\<close> with the default
  configuration \<^verbatim>\<open>{}\<close> is exported, but the importer rejects it (no
  \<^verbatim>\<open>mappings\<close>), so the fresh company ends with no rule.
\<close>

theorem export_import_counterexample:
  "company_rules db_draft acme = [draft_rule] \<and>
   company_rules db_fresh acme = [] \<and>
   import_rules_from_json rt0 J_draft db_fresh (export_rules_to_json J_draft db_draft ''ACME'') =
     (Inr (PDict [(''imported'', PInt 0),
                  (''errors'', PList [PStr (import_error_message rt0 (PStr ''Draft'') ValueError)])]),
      db_fresh)"
proof -
  have ex: "export_rules_to_json J_draft db_draft ''ACME'' =
              json_dumps J_draft (Some 2) (export_envelope db_draft acme ''ACME'')"
    by (simp only: export_rules_to_json_def find_acme option.case)
  have ld: "json_loads J_draft (json_dumps J_draft (Some 2) (export_envelope db_draft acme ''ACME''))
              = Inr (export_envelope db_draft acme ''ACME'')"
    unfolding J_draft_def by (rule document_codec_round_trip)
  have rs: "company_rules db_draft acme = [draft_rule]"
    by (simp add: company_rules_def db_draft_def draft_rule_def acme_def)
  then have xs: "exported_rules db_draft acme = [draft_rule]"
    by (simp add: exported_rules_def)
  have one: "import_rule rt0 J_draft acme [] (rule_data_of draft_rule) = Inl ValueError"
    by (simp add: import_rule_def rule_data_of_def draft_rule_def py_getitem_def
          validate_rule_config_def py_contains_def)
  have "import_rules_from_json rt0 J_draft db_fresh (export_rules_to_json J_draft db_draft ''ACME'') =
     (Inr (PDict [(''imported'', PInt 0),
                  (''errors'', PList [PStr (import_error_message rt0 (PStr ''Draft'') ValueError)])]),
      db_fresh)"
    by (simp only: import_rules_from_json_def ex ld sum.case)
       (simp add: export_envelope_def xs py_get_def py_str_def py_iter_def find_acme,
        simp add: db_fresh_def one, simp add: rule_data_of_def draft_rule_def py_get_def db_fresh_def)
  with rs show ?thesis by (simp add: company_rules_def db_fresh_def)
qed


lemma r1_valid: "rule_valid J (simple_rule ''R1'' 60 ''PROD_001'' ''HIGH'')"
  by (simp add: rule_valid_def simple_rule_def validate_rule_config_def py_contains_def
        py_getitem_def)

lemma draft_invalid: "validate_rule_config J (PStr (rule_type draft_rule)) (rule_config draft_rule) = Inl ValueError"
  by (simp add: draft_rule_def validate_rule_config_def py_contains_def)

lemma db_pair_rules:
  "company_rules db_pair acme = [draft_rule, simple_rule ''R1'' 60 ''PROD_001'' ''HIGH'']"
  by (simp add: company_rules_def db_pair_def draft_rule_def simple_rule_def acme_def)

lemma db_pair_exported:
  "exported_rules db_pair acme = [simple_rule ''R1'' 60 ''PROD_001'' ''HIGH'', draft_rule]"
  by (simp add: exported_rules_def db_pair_rules draft_rule_def simple_rule_def)

lemma find_acme_pair: "find (\<lambda>x. code x = ''ACME'') (companies db_pair) = Some acme"
  by (simp add: acme_def db_pair_def)

text \<open>
  Two examples. One valid rule, exported and imported into a company without rules: it
  arrives. A valid rule of priority 60 and an invalid one of priority 100, stored in the
  other order: the export lists them by priority, the valid one arrives and the invalid
  one is reported.
\<close>

theorem export_import_round_trip_witness:
  "(find (\<lambda>x. code x = ''ACME'') (companies db_manual) = Some acme \<and>
    find (\<lambda>x. code x = ''ACME'') (companies db_fresh) = Some acme \<and>
    company_rules db_fresh acme = [] \<and>
    distinct (map name (company_rules db_manual acme)) \<and>
    list_all (rule_storable J_r1) (company_rules db_manual acme) \<and>
    list_all (rule_valid J_r1) (company_rules db_manual acme) \<and>
    json_loads J_r1 (json_dumps J_r1 (Some 2) (export_envelope db_manual acme ''ACME'')) =
      Inr (export_envelope db_manual acme ''ACME'') \<and>
    (\<exists>tgt'. import_rules_from_json rt0 J_r1 db_fresh (export_rules_to_json J_r1 db_manual ''ACME'') =
             (Inr (PDict [(''imported'', PInt 1), (''errors'', PList [])]), tgt') \<and>
           map rule_fields (company_rules tgt' acme) =
             [rule_fields (simple_rule ''R1'' 60 ''PROD_001'' ''HIGH'')])) \<and>
   (find (\<lambda>x. code x = ''ACME'') (companies db_pair) = Some acme \<and>
    distinct (map name (company_rules db_pair acme)) \<and>
    list_all (rule_storable J_pair) (company_rules db_pair acme) \<and>
    json_loads J_pair (json_dumps J_pair (Some 2) (export_envelope db_pair acme ''ACME'')) =
      Inr (export_envelope db_pair acme ''ACME'') \<and>
    draft_rule \<in> set (company_rules db_pair acme) \<and> \<not> rule_valid J_pair draft_rule \<and>
    (\<exists>tgt'. import_rules_from_json rt0 J_pair db_fresh (export_rules_to_json J_pair db_pair ''ACME'') =
             (Inr (PDict [(''imported'', PInt 1),
                          (''errors'',
                             PList [PStr (import_error_message rt0 (PStr ''Draft'') ValueError)])]),
              tgt') \<and>
           map rule_fields (company_rules tgt' acme) =
             [rule_fields (simple_rule ''R1'' 60 ''PROD_001'' ''HIGH'')] \<and>
           rule_fields draft_rule \<notin> set (map rule_fields (company_rules tgt' acme))))"
proof -
  have h3: "''ACME'' \<noteq> []" by simp
  have h4: "company_rules db_fresh acme = []" by (simp add: company_rules_def db_fresh_def)
  have first: "find (\<lambda>x. code x = ''ACME'') (companies db_manual) = Some acme \<and>
    find (\<lambda>x. code x = ''ACME'') (companies db_fresh) = Some acme \<and>
    company_rules db_fresh acme = [] \<and>
    distinct (map name (company_rules db_manual acme)) \<and>
    list_all (rule_storable J_r1) (company_rules db_manual acme) \<and>
    list_all (rule_valid J_r1) (company_rules db_manual acme) \<and>
    json_loads J_r1 (json_dumps J_r1 (Some 2) (export_envelope db_manual acme ''ACME'')) =
      Inr (export_envelope db_manual acme ''ACME'') \<and>
    (\<exists>tgt'. import_rules_from_json rt0 J_r1 db_fresh (export_rules_to_json J_r1 db_manual ''ACME'') =
             (Inr (PDict [(''imported'', PInt 1), (''errors'', PList [])]), tgt') \<and>
           map rule_fields (company_rules tgt' acme) =
             [rule_fields (simple_rule ''R1'' 60 ''PROD_001'' ''HIGH'')])"
  proof -
    have rs: "company_rules db_manual acme = [simple_rule ''R1'' 60 ''PROD_001'' ''HIGH'']"
      by (simp add: company_rules_def db_manual_def simple_rule_def acme_def)
    then have xs: "exported_rules db_manual acme = [simple_rule ''R1'' 60 ''PROD_001'' ''HIGH'']"
      by (simp add: exported_rules_def)
    have h5: "distinct (map name (company_rules db_manual acme))" by (simp add: rs)
    have h6: "list_all (rule_storable J_r1) (company_rules db_manual acme)"
      by (simp add: rs rule_storable_def simple_rule_def J_r1_def document_codec_def)
    have h7: "list_all (rule_valid J_r1) (company_rules db_manual acme)"
      by (simp add: rs r1_valid)
    have h8: "json_loads J_r1 (json_dumps J_r1 (Some 2) (export_envelope db_manual acme ''ACME'')) =
       Inr (export_envelope db_manual acme ''ACME'')"
      unfolding J_r1_def by (rule document_codec_round_trip)
    from export_import_round_trip[OF find_acme(3) find_acme(2) h3 h4 h5 h6 h8, of rt0]
    obtain tgt' where
      a: "import_rules_from_json rt0 J_r1 db_fresh (export_rules_to_json J_r1 db_manual ''ACME'') =
            (Inr (PDict [(''imported'',
                            PInt (int (length (filter (rule_valid J_r1) (exported_rules db_manual acme))))),
                         (''errors'',
                            PList (map PStr (rejection_messages rt0 J_r1 (exported_rules db_manual acme))))]),
             tgt')"
      and b: "map rule_fields (company_rules tgt' acme) =
                map rule_fields (filter (rule_valid J_r1) (exported_rules db_manual acme))"
      by blast
    have m: "rejection_messages rt0 J_r1 (exported_rules db_manual acme) = []"
      by (rule rejection_messages_valid) (simp add: xs r1_valid)
    from a b
    have "\<exists>tgt'. import_rules_from_json rt0 J_r1 db_fresh (export_rules_to_json J_r1 db_manual ''ACME'') =
              (Inr (PDict [(''imported'', PInt 1), (''errors'', PList [])]), tgt') \<and>
            map rule_fields (company_rules tgt' acme) =
              [rule_fields (simple_rule ''R1'' 60 ''PROD_001'' ''HIGH'')]"
      by (simp add: m) (simp add: xs r1_valid)
    with find_acme h4 h5 h6 h7 h8 show ?thesis by simp
  qed
  have second: "find (\<lambda>x. code x = ''ACME'') (companies db_pair) = Some acme \<and>
    distinct (map name (company_rules db_pair acme)) \<and>
    list_all (rule_storable J_pair) (company_rules db_pair acme) \<and>
    json_loads J_pair (json_dumps J_pair (Some 2) (export_envelope db_pair acme ''ACME'')) =
      Inr (export_envelope db_pair acme ''ACME'') \<and>
    draft_rule \<in> set (company_rules db_pair acme) \<and> \<not> rule_valid J_pair draft_rule \<and>
    (\<exists>tgt'. import_rules_from_json rt0 J_pair db_fresh (export_rules_to_json J_pair db_pair ''ACME'') =
             (Inr (PDict [(''imported'', PInt 1),
                          (''errors'',
                             PList [PStr (import_error_message rt0 (PStr ''Draft'') ValueError)])]),
              tgt') \<and>
           map rule_fields (company_rules tgt' acme) =
             [rule_fields (simple_rule ''R1'' 60 ''PROD_001'' ''HIGH'')] \<and>
           rule_fields draft_rule \<notin> set (map rule_fields (company_rules tgt' acme)))"
  proof -
    have h5: "distinct (map name (company_rules db_pair acme))"
      by (simp add: db_pair_rules draft_rule_def simple_rule_def)
    have h6: "list_all (rule_storable J_pair) (company_rules db_pair acme)"
      by (simp add: db_pair_rules rule_storable_def simple_rule_def draft_rule_def J_pair_def
            document_codec_def)
    have h8: "json_loads J_pair (json_dumps J_pair (Some 2) (export_envelope db_pair acme ''ACME'')) =
       Inr (export_envelope db_pair acme ''ACME'')"
      unfolding J_pair_def by (rule document_codec_round_trip)
    have mem: "draft_rule \<in> set (company_rules db_pair acme)" by (simp add: db_pair_rules)
    have nv: "\<not> rule_valid J_pair draft_rule" by (simp add: rule_valid_def draft_invalid)
    have ok: "filter (rule_valid J_pair) (exported_rules db_pair acme) =
                [simple_rule ''R1'' 60 ''PROD_001'' ''HIGH'']"
      by (simp add: db_pair_exported r1_valid nv)
    have msgs: "rejection_messages rt0 J_pair (exported_rules db_pair acme) =
                  [import_error_message rt0 (PStr ''Draft'') ValueError]"
    proof -
      have "validate_rule_config J_pair (PStr (rule_type (simple_rule ''R1'' 60 ''PROD_001'' ''HIGH'')))
              (rule_config (simple_rule ''R1'' 60 ''PROD_001'' ''HIGH'')) = Inr True"
        using r1_valid[of J_pair] by (simp add: rule_valid_def)
      then show ?thesis
        by (simp add: db_pair_exported rejection_messages_def draft_invalid)
           (simp add: draft_rule_def)
    qed
    from export_import_round_trip[OF find_acme_pair find_acme(2) h3 h4 h5 h6 h8, of rt0]
    obtain tgt' where
      a: "import_rules_from_json rt0 J_pair db_fresh (export_rules_to_json J_pair db_pair ''ACME'') =
            (Inr (PDict [(''imported'',
                            PInt (int (length (filter (rule_valid J_pair) (exported_rules db_pair acme))))),
                         (''errors'',
                            PList (map PStr (rejection_messages rt0 J_pair (exported_rules db_pair acme))))]),
             tgt')"
      and b: "map rule_fields (company_rules tgt' acme) =
                map rule_fields (filter (rule_valid J_pair) (exported_rules db_pair acme))"
      and c: "\<forall>r \<in> set (company_rules db_pair acme). \<not> rule_valid J_pair r \<longrightarrow>
                rule_fields r \<notin> set (map rule_fields (company_rules tgt' acme)) \<and>
                (\<exists>e. validate_rule_config J_pair (PStr (rule_type r)) (rule_config r) = Inl e \<and>
                     import_error_message rt0 (PStr (name r)) e
                       \<in> set (rejection_messages rt0 J_pair (exported_rules db_pair acme)))"
      by blast
    from c mem nv
    have d: "rule_fields draft_rule \<notin> set (map rule_fields (company_rules tgt' acme))" by blast
    from a b d
    have "\<exists>tgt'. import_rules_from_json rt0 J_pair db_fresh (export_rules_to_json J_pair db_pair ''ACME'') =
             (Inr (PDict [(''imported'', PInt 1),
                          (''errors'',
                             PList [PStr (import_error_message rt0 (PStr ''Draft'') ValueError)])]),
              tgt') \<and>
           map rule_fields (company_rules tgt' acme) =
             [rule_fields (simple_rule ''R1'' 60 ''PROD_001'' ''HIGH'')] \<and>
           rule_fields draft_rule \<notin> set (map rule_fields (company_rules tgt' acme))"
      by (simp only: ok msgs) auto
    with find_acme_pair h5 h6 h8 mem nv show ?thesis by simp
  qed
  from first second show ?thesis by (rule conjI)
qed


end
